theory Spec2Isabelle
  imports Complex_Main "HOL-Library.AList" "HOL-Library.Product_Lexorder" "HOL-Library.Multiset"
begin

section \<open>Data model (model.py, layout.py)\<close>

text \<open>
  The module \<^verbatim>\<open>constants.py\<close> is not part of the sources at hand. Every function below
  that reads one of its constants takes them as the parameter \<open>c\<close>; nothing is assumed about
  their values unless a theorem says so.
\<close>

record constants =
  TEXTBOX_MIN_WIDTH :: real
  TEXTBOX_MIN_HEIGHT :: real
  TEXTBOX_DEFAULT_OPACITY :: real
  DEFAULT_SIZE :: int
  CANVAS_ROW_ID :: string
  LINK_LINE_COLOR :: string
  CONNECTOR_DEFAULT_COLOR :: string
  SCHEMA_VERSION :: int
  DEFAULT_CLASSIFICATION :: string
  CLASSIFICATION_SIZE_DEFAULT :: int
  CLASSIFICATION_SIZE_MIN :: int
  CLASSIFICATION_SIZE_MAX :: int

text \<open>
  The dataclass \<^verbatim>\<open>CanvasObject\<close>, field by field and with the annotated types: Python's
  \<^verbatim>\<open>int\<close> is \<open>int\<close>, \<^verbatim>\<open>float\<close> is idealised as \<open>real\<close> (no rounding, no NaN),
  \<^verbatim>\<open>T | None\<close> is \<open>T option\<close>. The fields \<^verbatim>\<open>id\<close>, \<^verbatim>\<open>text\<close>, \<^verbatim>\<open>notes\<close>,
  \<^verbatim>\<open>size\<close>, \<^verbatim>\<open>x\<close>, \<^verbatim>\<open>y\<close>, \<^verbatim>\<open>width\<close> and \<^verbatim>\<open>height\<close> carry the prefix
  \<open>obj_\<close> because their plain names are taken in HOL.
\<close>

record CanvasObject =
  obj_id :: string
  kind :: string
  row_id :: string
  start_week :: int
  end_week :: int
  obj_text :: string
  text_align :: string
  text_html :: "string option"
  obj_notes :: string
  notes_html :: "string option"
  scope :: string
  scope_html :: "string option"
  risks :: string
  risks_html :: "string option"
  color :: string
  obj_size :: int
  z_index :: int
  target_row_id :: "string option"
  target_week :: "int option"
  arrow_mid_week :: "int option"
  arrow_head_start :: bool
  arrow_head_end :: bool
  arrow_direction :: string
  obj_x :: "real option"
  obj_y :: "real option"
  obj_width :: "real option"
  obj_height :: "real option"
  opacity :: real
  link_source_id :: "string option"
  link_target_id :: "string option"
  link_source_side :: "string option"
  link_source_offset :: "real option"
  link_offset_x :: "real option"
  link_offset_y :: "real option"
  connector_source_id :: "string option"
  connector_target_id :: "string option"
  connector_source_side :: "string option"
  connector_source_offset :: "real option"
  connector_target_side :: "string option"
  connector_target_offset :: "real option"

text \<open>
  \<^verbatim>\<open>RowLayout\<close> and the fields of \<^verbatim>\<open>Layout\<close> that the modelled functions read. The
  dictionary \<^verbatim>\<open>row_map\<close> is an association list looked up with \<open>map_of\<close>.
\<close>

record RowLayout =
  rl_row_id :: string
  rl_name :: string
  rl_kind :: string
  rl_topic_id :: string
  rl_y :: real
  rl_height :: real
  rl_indent :: int

record Layout =
  week_width :: int
  label_width :: real
  header_height :: real
  origin_week :: int
  row_map :: "(string \<times> RowLayout) list"
  total_height :: real

subsection \<open>Python helpers\<close>

text \<open>\<^verbatim>\<open>int(r)\<close> on a float truncates towards zero.\<close>

definition py_int_of_float :: "real \<Rightarrow> int" where
  "py_int_of_float r = (if 0 \<le> r then \<lfloor>r\<rfloor> else \<lceil>r\<rceil>)"

text \<open>\<^verbatim>\<open>v or d\<close> on an optional float: \<^verbatim>\<open>None\<close> and \<^verbatim>\<open>0.0\<close> are both falsy.\<close>

definition float_or :: "real option \<Rightarrow> real \<Rightarrow> real" where
  "float_or v d = (case v of None \<Rightarrow> d | Some r \<Rightarrow> if r = 0 then d else r)"

text \<open>\<^verbatim>\<open>v or d\<close> on an optional string: \<^verbatim>\<open>None\<close> and the empty string are falsy.\<close>

definition str_or :: "string option \<Rightarrow> string \<Rightarrow> string" where
  "str_or v d = (case v of None \<Rightarrow> d | Some s \<Rightarrow> if s = [] then d else s)"

text \<open>\<^verbatim>\<open>v if v is not None else d\<close>.\<close>

definition if_not_none :: "'a option \<Rightarrow> 'a \<Rightarrow> 'a" where
  "if_not_none v d = (case v of None \<Rightarrow> d | Some r \<Rightarrow> r)"

text \<open>
  \<^verbatim>\<open>str.strip\<close> and \<^verbatim>\<open>str.lower\<close> on the code points below 256 (a \<open>char\<close> is one of
  them here). The whitespace of \<^verbatim>\<open>str.isspace\<close> in that range is the ASCII whitespace, the
  four separators \<^verbatim>\<open>0x1C\<close> to \<^verbatim>\<open>0x1F\<close>, the next-line character \<^verbatim>\<open>0x85\<close> and the no-break
  space \<^verbatim>\<open>0xA0\<close>. The upper-case letters are \<^verbatim>\<open>A\<close> to \<^verbatim>\<open>Z\<close> and \<^verbatim>\<open>0xC0\<close> to \<^verbatim>\<open>0xDE\<close> without
  the multiplication sign \<^verbatim>\<open>0xD7\<close>; each is 32 below its lower-case letter.
\<close>

definition py_isspace :: "char \<Rightarrow> bool" where
  "py_isspace ch = (ch \<in> {CHR '' '', CHR 0x09, CHR 0x0A, CHR 0x0B, CHR 0x0C, CHR 0x0D,
                           CHR 0x1C, CHR 0x1D, CHR 0x1E, CHR 0x1F, CHR 0x85, CHR 0xA0})"

definition py_strip :: "string \<Rightarrow> string" where
  "py_strip s = rev (dropWhile py_isspace (rev (dropWhile py_isspace s)))"

definition py_lower_char :: "char \<Rightarrow> char" where
  "py_lower_char ch =
     (if ((65::nat) \<le> of_char ch \<and> of_char ch \<le> (90::nat))
         \<or> ((192::nat) \<le> of_char ch \<and> of_char ch \<le> (222::nat) \<and> of_char ch \<noteq> (215::nat))
      then char_of (of_char ch + (32::nat)) else ch)"

definition py_lower :: "string \<Rightarrow> string" where
  "py_lower s = map py_lower_char s"

text \<open>model.py, \<^verbatim>\<open>normalize_arrow_direction\<close>, on a string argument.\<close>

definition normalize_arrow_direction :: "string \<Rightarrow> string" where
  "normalize_arrow_direction v =
     (let direction = py_lower (py_strip (if v = [] then ''none'' else v))
      in if direction \<notin> {''none'', ''left'', ''right''} then ''none'' else direction)"

section \<open>Floating-point rounding\<close>

text \<open>
  A Python \<^verbatim>\<open>float\<close> is an IEEE 754 binary64 number, and every arithmetic operation on
  floats returns the exact result rounded to the nearest such number, a tie going to the even
  significand. \<open>fl\<close> is that rounding: the nearest multiple of \<open>2 ^ (e - 52)\<close> for a real
  number between \<open>2 ^ e\<close> and \<open>2 ^ (e + 1)\<close>, that is, 53 significant bits. The exponent
  range is taken to be unbounded: there is no overflow to infinity and there are no
  subnormal numbers. The conversion of an \<^verbatim>\<open>int\<close> operand to \<^verbatim>\<open>float\<close> rounds the same way.

  The layout engine below applies \<open>fl\<close> after every operation, because its results are
  turned into week numbers by \<^verbatim>\<open>int\<close> and \<^verbatim>\<open>math.floor\<close>. The pixel arithmetic of the
  controller is kept in exact real numbers.
\<close>

definition round_half_even :: "real \<Rightarrow> int" where
  "round_half_even y =
     (let f = \<lfloor>y\<rfloor>; r = y - real_of_int f in
      if r < 1/2 then f else if 1/2 < r then f + 1 else if even f then f else f + 1)"

definition fl :: "real \<Rightarrow> real" where
  "fl x =
     (if x = 0 then 0
      else let u = 2 powr (real_of_int \<lfloor>log 2 \<bar>x\<bar>\<rfloor> - 52)
           in real_of_int (round_half_even (x / u)) * u)"

section \<open>Layout engine (layout.py)\<close>

text \<open>
  \<^verbatim>\<open>week_width\<close> is the \<^verbatim>\<open>int\<close> that the constructor is given and is never assigned
  again; \<^verbatim>\<open>label_width\<close> is a \<^verbatim>\<open>float\<close> once the view has set it. In \<^verbatim>\<open>week_left_x\<close> the
  product is a product of integers, converted to \<^verbatim>\<open>float\<close> for the sum.
\<close>

definition week_left_x :: "Layout \<Rightarrow> int \<Rightarrow> real" where
  "week_left_x L week =
     fl (label_width L + fl (real_of_int ((week - origin_week L) * week_width L)))"

definition week_center_x :: "Layout \<Rightarrow> int \<Rightarrow> real" where
  "week_center_x L week = fl (week_left_x L week + fl (fl (real_of_int (week_width L)) / 2))"

text \<open>
  The row lookups index \<^verbatim>\<open>row_map\<close> directly; \<open>None\<close> stands for the \<^verbatim>\<open>KeyError\<close> of
  a row id that is not in the table.
\<close>

definition row_top_y :: "Layout \<Rightarrow> string \<Rightarrow> real option" where
  "row_top_y L rid =
     (case map_of (row_map L) rid of None \<Rightarrow> None
      | Some row \<Rightarrow> Some (header_height L + rl_y row))"

definition row_center_y :: "Layout \<Rightarrow> string \<Rightarrow> real option" where
  "row_center_y L rid =
     (case map_of (row_map L) rid of None \<Rightarrow> None
      | Some row \<Rightarrow> Some (header_height L + rl_y row + rl_height row / 2))"

definition row_height :: "Layout \<Rightarrow> string \<Rightarrow> real option" where
  "row_height L rid =
     (case map_of (row_map L) rid of None \<Rightarrow> None | Some row \<Rightarrow> Some (rl_height row))"

text \<open>
  \<^verbatim>\<open>week_from_x\<close>. \<open>week_ratio\<close> is its local \<^verbatim>\<open>ratio\<close>, for a week width that is not zero.
  The division raises \<^verbatim>\<open>ZeroDivisionError\<close> for a zero week width; that is the result
  \<open>None\<close>.
\<close>

definition week_ratio :: "Layout \<Rightarrow> real \<Rightarrow> real" where
  "week_ratio L scene_x =
     (let x_rel = fl (scene_x - label_width L)
      in fl (x_rel / fl (real_of_int (week_width L))))"

definition week_from_x :: "Layout \<Rightarrow> real \<Rightarrow> bool \<Rightarrow> int option" where
  "week_from_x L scene_x snap =
     (if week_width L = 0 then None
      else
        let ratio = week_ratio L scene_x;
            week_offset =
              (if snap then
                 (if 0 \<le> ratio then py_int_of_float (fl (ratio + 1/2))
                  else py_int_of_float (fl (ratio - 1/2)))
               else \<lfloor>ratio\<rfloor>)
        in Some (week_offset + origin_week L))"

text \<open>
  The words of the specification for the snapping rule, to be compared with the code:
  \<open>round_half_away_from_zero\<close> is the nearest integer, a tie going away from zero, and
  \<open>nearest_week\<close> applies it to the week coordinate of a canvas position, the exact inverse
  of \<^verbatim>\<open>week_left_x\<close>.
\<close>

definition round_half_away_from_zero :: "real \<Rightarrow> int" where
  "round_half_away_from_zero r = (if 0 \<le> r then \<lfloor>r + 1/2\<rfloor> else - \<lfloor>- r + 1/2\<rfloor>)"

definition nearest_week :: "Layout \<Rightarrow> real \<Rightarrow> int" where
  "nearest_week L scene_x =
     round_half_away_from_zero
       (real_of_int (origin_week L) + (scene_x - label_width L) / real_of_int (week_width L))"

section \<open>Anchor resolver (controller.py, items.py)\<close>

definition size_scale :: "int \<Rightarrow> real" where
  "size_scale sz =
     (let scale = 1/2 + (1/10) * real_of_int sz in
      if scale < 6/10 then 6/10 else if 1 < scale then 1 else scale)"

text \<open>
  \<^verbatim>\<open>ProjectController._object_anchor_point\<close>; the first argument after the constants is
  \<^verbatim>\<open>self.layout\<close>, which may be \<^verbatim>\<open>None\<close>. The local \<^verbatim>\<open>size\<close> that the milestone and
  circle branches compute is never read and is left out. Every row lookup follows a
  membership test on \<^verbatim>\<open>row_map\<close>, so the lookups cannot raise; both the test and a
  failed lookup give \<open>None\<close>.
\<close>

definition object_anchor_point ::
  "constants \<Rightarrow> Layout option \<Rightarrow> CanvasObject \<Rightarrow> (real \<times> real) option" where
  "object_anchor_point c layout obj =
     (case layout of None \<Rightarrow> None
      | Some L \<Rightarrow>
        if kind obj = ''textbox'' then
          (let width = if_not_none (obj_width obj) (TEXTBOX_MIN_WIDTH c);
               height = if_not_none (obj_height obj) (TEXTBOX_MIN_HEIGHT c);
               x = if_not_none (obj_x obj) 0;
               y = if_not_none (obj_y obj) 0
           in Some (x + width / 2, y + height / 2))
        else if kind obj = ''milestone'' then
          (if map_of (row_map L) (row_id obj) = None then None
           else case row_center_y L (row_id obj) of None \<Rightarrow> None
             | Some center_y \<Rightarrow> Some (week_left_x L (start_week obj), center_y))
        else if kind obj = ''circle'' then
          (if map_of (row_map L) (row_id obj) = None then None
           else case row_center_y L (row_id obj) of None \<Rightarrow> None
             | Some center_y \<Rightarrow> Some (week_center_x L (start_week obj), center_y))
        else if kind obj = ''deadline'' then
          Some (week_center_x L (start_week obj), header_height L + total_height L / 2)
        else if kind obj = ''arrow'' then
          (if map_of (row_map L) (row_id obj) = None then None
           else
             let target_row = str_or (target_row_id obj) (row_id obj) in
             if map_of (row_map L) target_row = None then None
             else
               case (row_center_y L (row_id obj), row_center_y L target_row) of
                 (Some start_y, Some end_y) \<Rightarrow>
                   (let start_x = week_center_x L (start_week obj);
                        target_week' = if_not_none (target_week obj) (end_week obj);
                        end_x = week_center_x L target_week'
                    in Some ((start_x + end_x) / 2, (start_y + end_y) / 2))
               | _ \<Rightarrow> None)
        else
          (if map_of (row_map L) (row_id obj) = None then None
           else
             case (row_height L (row_id obj), row_top_y L (row_id obj)) of
               (Some row_height', Some top_y) \<Rightarrow>
                 (let height = row_height' * size_scale (obj_size obj);
                      width = real_of_int (max 1 (end_week obj - start_week obj + 1) * week_width L);
                      x = week_left_x L (start_week obj);
                      y = top_y + (row_height' - height) / 2
                  in Some (x + width / 2, y + height / 2))
             | _ \<Rightarrow> None))"

text \<open>
  items.py, \<^verbatim>\<open>_object_center_for_link\<close>: the renderer's copy of the same function. It
  takes a layout that is present, and its deadline branch reads \<^verbatim>\<open>week_left_x\<close>.
\<close>

definition object_center_for_link ::
  "constants \<Rightarrow> CanvasObject \<Rightarrow> Layout \<Rightarrow> (real \<times> real) option" where
  "object_center_for_link c obj L =
     (if kind obj = ''textbox'' then
        (let width = if_not_none (obj_width obj) (TEXTBOX_MIN_WIDTH c);
             height = if_not_none (obj_height obj) (TEXTBOX_MIN_HEIGHT c);
             x = if_not_none (obj_x obj) 0;
             y = if_not_none (obj_y obj) 0
         in Some (x + width / 2, y + height / 2))
      else if kind obj = ''milestone'' then
        (if map_of (row_map L) (row_id obj) = None then None
         else case row_center_y L (row_id obj) of None \<Rightarrow> None
           | Some center_y \<Rightarrow> Some (week_left_x L (start_week obj), center_y))
      else if kind obj = ''circle'' then
        (if map_of (row_map L) (row_id obj) = None then None
         else case row_center_y L (row_id obj) of None \<Rightarrow> None
           | Some center_y \<Rightarrow> Some (week_center_x L (start_week obj), center_y))
      else if kind obj = ''deadline'' then
        Some (week_left_x L (start_week obj), header_height L + total_height L / 2)
      else if kind obj = ''arrow'' then
        (if map_of (row_map L) (row_id obj) = None then None
         else
           let target_row = str_or (target_row_id obj) (row_id obj) in
           if map_of (row_map L) target_row = None then None
           else
             case (row_center_y L (row_id obj), row_center_y L target_row) of
               (Some start_y, Some end_y) \<Rightarrow>
                 (let start_x = week_center_x L (start_week obj);
                      target_week' = if_not_none (target_week obj) (end_week obj);
                      end_x = week_center_x L target_week'
                  in Some ((start_x + end_x) / 2, (start_y + end_y) / 2))
             | _ \<Rightarrow> None)
      else
        (if map_of (row_map L) (row_id obj) = None then None
         else
           case (row_height L (row_id obj), row_top_y L (row_id obj)) of
             (Some row_height', Some top_y) \<Rightarrow>
               (let height = row_height' * size_scale (obj_size obj);
                    width = real_of_int (max 1 (end_week obj - start_week obj + 1) * week_width L);
                    x = week_left_x L (start_week obj);
                    y = top_y + (row_height' - height) / 2
                in Some (x + width / 2, y + height / 2))
           | _ \<Rightarrow> None))"

text \<open>
  \<^verbatim>\<open>float(offset or 0.5)\<close> clamped to the unit interval, as both textbox helpers and
  \<^verbatim>\<open>add_anchor_link\<close> compute it: an offset of \<^verbatim>\<open>None\<close> or \<^verbatim>\<open>0.0\<close> becomes one half.
\<close>

definition offset_value :: "real option \<Rightarrow> real" where
  "offset_value offset =
     (let v = float_or offset (1/2) in if v < 0 then 0 else if 1 < v then 1 else v)"

definition textbox_anchor_point ::
  "constants \<Rightarrow> CanvasObject \<Rightarrow> string option \<Rightarrow> real option \<Rightarrow> real \<times> real" where
  "textbox_anchor_point c obj side offset =
     (let width = if_not_none (obj_width obj) (TEXTBOX_MIN_WIDTH c);
          height = if_not_none (obj_height obj) (TEXTBOX_MIN_HEIGHT c);
          x = if_not_none (obj_x obj) 0;
          y = if_not_none (obj_y obj) 0;
          ov = offset_value offset
      in if side = Some ''left'' then (x, y + height * ov)
         else if side = Some ''top'' then (x + width * ov, y)
         else if side = Some ''bottom'' then (x + width * ov, y + height)
         else (x + width, y + height * ov))"

definition textbox_pos_for_anchor ::
  "real \<Rightarrow> real \<Rightarrow> real \<Rightarrow> real \<Rightarrow> string option \<Rightarrow> real option \<Rightarrow> real \<times> real" where
  "textbox_pos_for_anchor anchor_x anchor_y width height side offset =
     (let ov = offset_value offset
      in if side = Some ''left'' then (anchor_x, anchor_y - height * ov)
         else if side = Some ''top'' then (anchor_x - width * ov, anchor_y)
         else if side = Some ''bottom'' then (anchor_x - width * ov, anchor_y - height)
         else (anchor_x - width, anchor_y - height * ov))"

section \<open>Mutation controller (controller.py)\<close>

subsection \<open>Normalization\<close>

definition clamp_week :: "int \<Rightarrow> int" where
  "clamp_week week = week"

text \<open>\<^verbatim>\<open>max(0.0, min(1.0, float(v)))\<close> on an offset that is not \<^verbatim>\<open>None\<close>.\<close>

definition clamp_unit :: "real option \<Rightarrow> real option" where
  "clamp_unit v = (case v of None \<Rightarrow> None | Some r \<Rightarrow> Some (max 0 (min 1 r)))"

definition empty_to_none :: "string option \<Rightarrow> string option" where
  "empty_to_none v = (if v = Some [] then None else v)"

text \<open>
  \<^verbatim>\<open>ProjectController._normalize_object\<close>. The conversions \<^verbatim>\<open>int(...)\<close>,
  \<^verbatim>\<open>float(...)\<close> and \<^verbatim>\<open>bool(...)\<close> are the identity on fields of the annotated types.
  \<open>obj\<close> below is the object after the first \<^verbatim>\<open>replace\<close> (the four html fields and
  the arrow direction).
\<close>

definition normalize_object :: "constants \<Rightarrow> CanvasObject \<Rightarrow> CanvasObject" where
  "normalize_object c obj0 =
     (let start_week' = clamp_week (start_week obj0);
          end_week' = clamp_week (end_week obj0);
          size' = max 1 (min 5 (obj_size obj0));
          z_index' = z_index obj0;
          arrow_direction' =
            (if kind obj0 \<noteq> ''box'' then ''none''
             else normalize_arrow_direction (arrow_direction obj0));
          obj = obj0\<lparr>text_html := empty_to_none (text_html obj0),
                     notes_html := empty_to_none (notes_html obj0),
                     scope_html := empty_to_none (scope_html obj0),
                     risks_html := empty_to_none (risks_html obj0),
                     arrow_direction := arrow_direction'\<rparr>;
          opacity' = (if opacity obj0 < 0 then 0 else if 1 < opacity obj0 then 1 else opacity obj0);
          arrow_head_start' = arrow_head_start obj;
          arrow_head_end' =
            (if kind obj \<in> {''arrow'', ''connector''}
                \<and> \<not> (arrow_head_start obj \<or> arrow_head_end obj)
             then True else arrow_head_end obj)
      in
      if kind obj \<in> {''milestone'', ''circle'', ''deadline''} then
        obj\<lparr>start_week := start_week', end_week := start_week', obj_size := size',
            z_index := z_index', opacity := opacity',
            arrow_head_start := arrow_head_start', arrow_head_end := arrow_head_end'\<rparr>
      else if kind obj = ''arrow'' then
        (let target_week' = clamp_week (if_not_none (target_week obj) end_week')
         in obj\<lparr>target_week := Some target_week',
                start_week := start_week', end_week := target_week', obj_size := size',
                z_index := z_index', opacity := opacity',
                arrow_head_start := arrow_head_start', arrow_head_end := arrow_head_end'\<rparr>)
      else if kind obj = ''link'' then
        obj\<lparr>start_week := start_week', end_week := end_week', obj_size := size',
            z_index := z_index', opacity := opacity',
            link_offset_x := Some (float_or (link_offset_x obj) 0),
            link_offset_y := Some (float_or (link_offset_y obj) 0),
            link_source_offset := clamp_unit (link_source_offset obj)\<rparr>
      else if kind obj = ''connector'' then
        obj\<lparr>start_week := start_week', end_week := end_week', obj_size := size',
            z_index := z_index', opacity := opacity',
            connector_source_offset := clamp_unit (connector_source_offset obj),
            connector_target_offset := clamp_unit (connector_target_offset obj),
            arrow_head_start := arrow_head_start', arrow_head_end := arrow_head_end'\<rparr>
      else if kind obj = ''textbox'' then
        (let x = float_or (obj_x obj) 0;
             y = float_or (obj_y obj) 0;
             width0 = float_or (obj_width obj) (TEXTBOX_MIN_WIDTH c);
             height0 = float_or (obj_height obj) (TEXTBOX_MIN_HEIGHT c);
             width = (if width0 < TEXTBOX_MIN_WIDTH c then TEXTBOX_MIN_WIDTH c else width0);
             height = (if height0 < TEXTBOX_MIN_HEIGHT c then TEXTBOX_MIN_HEIGHT c else height0)
         in obj\<lparr>start_week := start_week', end_week := end_week', obj_size := size',
                z_index := z_index', obj_x := Some x, obj_y := Some y,
                obj_width := Some width, obj_height := Some height, opacity := opacity',
                arrow_head_start := arrow_head_start', arrow_head_end := arrow_head_end'\<rparr>)
      else
        obj\<lparr>start_week := start_week',
            end_week := (if end_week' < start_week' then start_week' else end_week'),
            obj_size := size', z_index := z_index', opacity := opacity',
            arrow_head_start := arrow_head_start', arrow_head_end := arrow_head_end'\<rparr>)"

text \<open>\<^verbatim>\<open>ProjectController._duplicate_offset\<close>.\<close>

definition duplicate_offset :: "CanvasObject \<Rightarrow> int" where
  "duplicate_offset obj =
     (let end_week' = if_not_none (target_week obj) (end_week obj);
          span = \<bar>end_week' - start_week obj\<bar> + 1
      in max 1 span)"

text \<open>
  The generated constructor of the dataclass: the five required fields, every other field
  at its declared default.
\<close>

definition CanvasObject_init ::
  "constants \<Rightarrow> string \<Rightarrow> string \<Rightarrow> string \<Rightarrow> int \<Rightarrow> int \<Rightarrow> CanvasObject" where
  "CanvasObject_init c i k r s e =
     \<lparr>obj_id = i, kind = k, row_id = r, start_week = s, end_week = e,
      obj_text = [], text_align = ''center'', text_html = None,
      obj_notes = [], notes_html = None, scope = [], scope_html = None,
      risks = [], risks_html = None, color = ''#4E79A7'', obj_size = DEFAULT_SIZE c,
      z_index = 0, target_row_id = None, target_week = None, arrow_mid_week = None,
      arrow_head_start = False, arrow_head_end = True, arrow_direction = ''none'',
      obj_x = None, obj_y = None, obj_width = None, obj_height = None,
      opacity = TEXTBOX_DEFAULT_OPACITY c,
      link_source_id = None, link_target_id = None, link_source_side = None,
      link_source_offset = None, link_offset_x = None, link_offset_y = None,
      connector_source_id = None, connector_target_id = None,
      connector_source_side = None, connector_source_offset = None,
      connector_target_side = None, connector_target_offset = None\<rparr>"

subsection \<open>Sample data for the concrete evaluations\<close>

text \<open>
  Sample values for the constants and a sample layout with one topic row and one deliverable
  row. They are used only where a theorem is evaluated at a concrete input.
\<close>

definition sample_constants :: constants where
  "sample_constants =
     \<lparr>TEXTBOX_MIN_WIDTH = 40, TEXTBOX_MIN_HEIGHT = 20, TEXTBOX_DEFAULT_OPACITY = 1,
      DEFAULT_SIZE = 3, CANVAS_ROW_ID = ''__canvas__'', LINK_LINE_COLOR = ''#666666'',
      CONNECTOR_DEFAULT_COLOR = ''#333333'',
      SCHEMA_VERSION = 1, DEFAULT_CLASSIFICATION = ''UNCLASSIFIED'',
      CLASSIFICATION_SIZE_DEFAULT = 10, CLASSIFICATION_SIZE_MIN = 6,
      CLASSIFICATION_SIZE_MAX = 48\<rparr>"

definition sample_layout :: Layout where
  "sample_layout =
     \<lparr>week_width = 40, label_width = 100, header_height = 80, origin_week = 1,
      row_map =
        [(''t1'', \<lparr>rl_row_id = ''t1'', rl_name = ''Alpha'', rl_kind = ''topic'',
                    rl_topic_id = ''t1'', rl_y = 0, rl_height = 60, rl_indent = 0\<rparr>),
         (''d1'', \<lparr>rl_row_id = ''d1'', rl_name = ''Design'', rl_kind = ''deliverable'',
                    rl_topic_id = ''t1'', rl_y = 60, rl_height = 40, rl_indent = 1\<rparr>)],
      total_height = 100\<rparr>"

text \<open>
  Two more layouts for the floating-point behaviour of the week functions: one with a week
  width of one pixel and no label column, and one whose label width is the float next but
  one after \<open>1\<close>.
\<close>

definition unit_layout :: Layout where
  "unit_layout =
     \<lparr>week_width = 1, label_width = 0, header_height = 80, origin_week = 1,
      row_map = [], total_height = 0\<rparr>"

definition fraction_layout :: Layout where
  "fraction_layout =
     \<lparr>week_width = 1, label_width = 1 + 1 / 2 ^ 51, header_height = 80, origin_week = 1,
      row_map = [], total_height = 0\<rparr>"

text \<open>
  The common part of every branch of \<open>normalize_object\<close>, with the arrow direction \<open>d\<close>
  that the branch stores; the per-kind equations below are stated with it.
\<close>

definition html_cleared :: "CanvasObject \<Rightarrow> string \<Rightarrow> CanvasObject" where
  "html_cleared obj d =
     obj\<lparr>text_html := empty_to_none (text_html obj),
         notes_html := empty_to_none (notes_html obj),
         scope_html := empty_to_none (scope_html obj),
         risks_html := empty_to_none (risks_html obj),
         arrow_direction := d,
         obj_size := max 1 (min 5 (obj_size obj)),
         opacity := max 0 (min 1 (opacity obj))\<rparr>"

subsection \<open>Field changes\<close>

text \<open>
  The keyword dictionary \<^verbatim>\<open>changes\<close> of \<^verbatim>\<open>update_object\<close> and of \<^verbatim>\<open>dataclasses.replace\<close>:
  one optional entry per field of \<^verbatim>\<open>CanvasObject\<close>. \<open>None\<close> means that the key is absent;
  \<open>Some v\<close> that the dictionary maps the field to \<open>v\<close>.
\<close>

record changes =
  ch_id :: "string option"
  ch_kind :: "string option"
  ch_row_id :: "string option"
  ch_start_week :: "int option"
  ch_end_week :: "int option"
  ch_text :: "string option"
  ch_text_align :: "string option"
  ch_text_html :: "(string option) option"
  ch_notes :: "string option"
  ch_notes_html :: "(string option) option"
  ch_scope :: "string option"
  ch_scope_html :: "(string option) option"
  ch_risks :: "string option"
  ch_risks_html :: "(string option) option"
  ch_color :: "string option"
  ch_size :: "int option"
  ch_z_index :: "int option"
  ch_target_row_id :: "(string option) option"
  ch_target_week :: "(int option) option"
  ch_arrow_mid_week :: "(int option) option"
  ch_arrow_head_start :: "bool option"
  ch_arrow_head_end :: "bool option"
  ch_arrow_direction :: "string option"
  ch_x :: "(real option) option"
  ch_y :: "(real option) option"
  ch_width :: "(real option) option"
  ch_height :: "(real option) option"
  ch_opacity :: "real option"
  ch_link_source_id :: "(string option) option"
  ch_link_target_id :: "(string option) option"
  ch_link_source_side :: "(string option) option"
  ch_link_source_offset :: "(real option) option"
  ch_link_offset_x :: "(real option) option"
  ch_link_offset_y :: "(real option) option"
  ch_connector_source_id :: "(string option) option"
  ch_connector_target_id :: "(string option) option"
  ch_connector_source_side :: "(string option) option"
  ch_connector_source_offset :: "(real option) option"
  ch_connector_target_side :: "(string option) option"
  ch_connector_target_offset :: "(real option) option"

text \<open>The empty dictionary \<^verbatim>\<open>{}\<close>.\<close>

definition no_changes :: changes where
  "no_changes =
     \<lparr>ch_id = None, ch_kind = None, ch_row_id = None, ch_start_week = None,
      ch_end_week = None, ch_text = None, ch_text_align = None, ch_text_html = None,
      ch_notes = None, ch_notes_html = None, ch_scope = None, ch_scope_html = None,
      ch_risks = None, ch_risks_html = None, ch_color = None, ch_size = None,
      ch_z_index = None, ch_target_row_id = None, ch_target_week = None, ch_arrow_mid_week = None,
      ch_arrow_head_start = None, ch_arrow_head_end = None, ch_arrow_direction = None, ch_x = None,
      ch_y = None, ch_width = None, ch_height = None, ch_opacity = None,
      ch_link_source_id = None, ch_link_target_id = None, ch_link_source_side = None, ch_link_source_offset = None,
      ch_link_offset_x = None, ch_link_offset_y = None, ch_connector_source_id = None, ch_connector_target_id = None,
      ch_connector_source_side = None, ch_connector_source_offset = None, ch_connector_target_side = None, ch_connector_target_offset = None\<rparr>"

text \<open>\<^verbatim>\<open>dataclasses.replace(obj, **changes)\<close>.\<close>

definition replace :: "CanvasObject \<Rightarrow> changes \<Rightarrow> CanvasObject" where
  "replace obj ch =
     \<lparr>obj_id = if_not_none (ch_id ch) (obj_id obj),
      kind = if_not_none (ch_kind ch) (kind obj),
      row_id = if_not_none (ch_row_id ch) (row_id obj),
      start_week = if_not_none (ch_start_week ch) (start_week obj),
      end_week = if_not_none (ch_end_week ch) (end_week obj),
      obj_text = if_not_none (ch_text ch) (obj_text obj),
      text_align = if_not_none (ch_text_align ch) (text_align obj),
      text_html = if_not_none (ch_text_html ch) (text_html obj),
      obj_notes = if_not_none (ch_notes ch) (obj_notes obj),
      notes_html = if_not_none (ch_notes_html ch) (notes_html obj),
      scope = if_not_none (ch_scope ch) (scope obj),
      scope_html = if_not_none (ch_scope_html ch) (scope_html obj),
      risks = if_not_none (ch_risks ch) (risks obj),
      risks_html = if_not_none (ch_risks_html ch) (risks_html obj),
      color = if_not_none (ch_color ch) (color obj),
      obj_size = if_not_none (ch_size ch) (obj_size obj),
      z_index = if_not_none (ch_z_index ch) (z_index obj),
      target_row_id = if_not_none (ch_target_row_id ch) (target_row_id obj),
      target_week = if_not_none (ch_target_week ch) (target_week obj),
      arrow_mid_week = if_not_none (ch_arrow_mid_week ch) (arrow_mid_week obj),
      arrow_head_start = if_not_none (ch_arrow_head_start ch) (arrow_head_start obj),
      arrow_head_end = if_not_none (ch_arrow_head_end ch) (arrow_head_end obj),
      arrow_direction = if_not_none (ch_arrow_direction ch) (arrow_direction obj),
      obj_x = if_not_none (ch_x ch) (obj_x obj),
      obj_y = if_not_none (ch_y ch) (obj_y obj),
      obj_width = if_not_none (ch_width ch) (obj_width obj),
      obj_height = if_not_none (ch_height ch) (obj_height obj),
      opacity = if_not_none (ch_opacity ch) (opacity obj),
      link_source_id = if_not_none (ch_link_source_id ch) (link_source_id obj),
      link_target_id = if_not_none (ch_link_target_id ch) (link_target_id obj),
      link_source_side = if_not_none (ch_link_source_side ch) (link_source_side obj),
      link_source_offset = if_not_none (ch_link_source_offset ch) (link_source_offset obj),
      link_offset_x = if_not_none (ch_link_offset_x ch) (link_offset_x obj),
      link_offset_y = if_not_none (ch_link_offset_y ch) (link_offset_y obj),
      connector_source_id = if_not_none (ch_connector_source_id ch) (connector_source_id obj),
      connector_target_id = if_not_none (ch_connector_target_id ch) (connector_target_id obj),
      connector_source_side = if_not_none (ch_connector_source_side ch) (connector_source_side obj),
      connector_source_offset = if_not_none (ch_connector_source_offset ch) (connector_source_offset obj),
      connector_target_side = if_not_none (ch_connector_target_side ch) (connector_target_side obj),
      connector_target_offset = if_not_none (ch_connector_target_offset ch) (connector_target_offset obj)\<rparr>"

section \<open>Object store and commands (model.py, commands.py)\<close>

text \<open>
  \<^verbatim>\<open>ProjectModel.objects\<close> is a Python dictionary from ids to objects. It keeps insertion
  order, which \<^verbatim>\<open>_ordered_object_ids\<close> reads, so it is an association list: assigning to
  a key that is present replaces the value in place, assigning to a new key appends, and
  \<^verbatim>\<open>del\<close> removes the entry (\<open>AList.update\<close> and \<open>AList.delete\<close>).
\<close>

type_synonym objects = "(string \<times> CanvasObject) list"

definition model_add_object :: "CanvasObject \<Rightarrow> objects \<Rightarrow> objects" where
  "model_add_object obj objs = AList.update (obj_id obj) obj objs"

definition model_update_object :: "string \<Rightarrow> CanvasObject \<Rightarrow> objects \<Rightarrow> objects" where
  "model_update_object oid new_obj objs =
     (if map_of objs oid = None then objs else AList.update oid new_obj objs)"

definition model_remove_object :: "string \<Rightarrow> objects \<Rightarrow> objects" where
  "model_remove_object oid objs =
     (if map_of objs oid = None then objs else AList.delete oid objs)"

text \<open>
  The three object commands of commands.py and the macro of the undo framework, whose
  redo runs its children in order and whose undo runs them in reverse order. The label
  of a command is display text only and is left out.
\<close>

datatype command =
    AddObjectCommand CanvasObject
  | RemoveObjectCommand CanvasObject
  | UpdateObjectCommand CanvasObject CanvasObject
  | Macro "command list"

fun redo :: "command \<Rightarrow> objects \<Rightarrow> objects" where
  "redo (AddObjectCommand obj) objs = model_add_object obj objs"
| "redo (RemoveObjectCommand obj) objs = model_remove_object (obj_id obj) objs"
| "redo (UpdateObjectCommand old_obj new_obj) objs = model_update_object (obj_id old_obj) new_obj objs"
| "redo (Macro cmds) objs = fold redo cmds objs"

fun undo :: "command \<Rightarrow> objects \<Rightarrow> objects" where
  "undo (AddObjectCommand obj) objs = model_remove_object (obj_id obj) objs"
| "undo (RemoveObjectCommand obj) objs = model_add_object obj objs"
| "undo (UpdateObjectCommand old_obj new_obj) objs = model_update_object (obj_id old_obj) old_obj objs"
| "undo (Macro cmds) objs = fold undo (rev cmds) objs"

section \<open>Controller state and the undo stack\<close>

text \<open>
  The state that the controller's methods read and write: the model's objects, the layout
  (absent until \<^verbatim>\<open>set_layout\<close>), the four remembered defaults, and the undo stack. The
  stack is Qt's \<^verbatim>\<open>QUndoStack\<close>, which is not part of the repository; it is modelled by
  its documented behaviour. \<open>done_commands\<close> holds the commands below the stack's index,
  the most recent first; \<open>undone_commands\<close> those above it; \<open>open_macros\<close> the children
  collected so far by each macro that is open, the innermost first.
\<close>

record controller =
  objects :: objects
  layout :: "Layout option"
  connector_default_size :: int
  connector_default_color :: string
  arrow_default_size :: int
  arrow_default_color :: string
  done_commands :: "command list"
  undone_commands :: "command list"
  open_macros :: "command list list"

text \<open>
  \<^verbatim>\<open>ProjectController.__init__\<close> on a model with the given objects and a fresh undo
  stack, and \<^verbatim>\<open>set_layout\<close>.
\<close>

definition ProjectController_init :: "constants \<Rightarrow> objects \<Rightarrow> controller" where
  "ProjectController_init c objs =
     \<lparr>objects = objs, layout = None,
      connector_default_size = 1, connector_default_color = CONNECTOR_DEFAULT_COLOR c,
      arrow_default_size = 1, arrow_default_color = CONNECTOR_DEFAULT_COLOR c,
      done_commands = [], undone_commands = [], open_macros = []\<rparr>"

definition set_layout :: "controller \<Rightarrow> Layout \<Rightarrow> controller" where
  "set_layout st L = st\<lparr>layout := Some L\<rparr>"

text \<open>
  \<^verbatim>\<open>push\<close> runs the command's redo. Outside a macro the command goes on top of the
  stack and the undone commands are dropped; inside a macro it becomes the macro's next
  child.
\<close>

definition push :: "command \<Rightarrow> controller \<Rightarrow> controller" where
  "push cmd st =
     (let st' = st\<lparr>objects := redo cmd (objects st)\<rparr> in
      case open_macros st' of
        [] \<Rightarrow> st'\<lparr>done_commands := cmd # done_commands st', undone_commands := []\<rparr>
      | m # ms \<Rightarrow> st'\<lparr>open_macros := (m @ [cmd]) # ms\<rparr>)"

definition beginMacro :: "controller \<Rightarrow> controller" where
  "beginMacro st =
     (case open_macros st of
        [] \<Rightarrow> st\<lparr>undone_commands := [], open_macros := [[]]\<rparr>
      | m # ms \<Rightarrow> st\<lparr>open_macros := [] # m # ms\<rparr>)"

definition endMacro :: "controller \<Rightarrow> controller" where
  "endMacro st =
     (case open_macros st of
        [] \<Rightarrow> st
      | [m] \<Rightarrow> st\<lparr>open_macros := [], done_commands := Macro m # done_commands st\<rparr>
      | m # p # ms \<Rightarrow> st\<lparr>open_macros := (p @ [Macro m]) # ms\<rparr>)"

text \<open>\<^verbatim>\<open>QUndoStack.undo\<close>: nothing while a macro is open or when the stack is empty.\<close>

definition stack_undo :: "controller \<Rightarrow> controller" where
  "stack_undo st =
     (if open_macros st \<noteq> [] then st
      else case done_commands st of
        [] \<Rightarrow> st
      | cmd # cmds \<Rightarrow>
          st\<lparr>objects := undo cmd (objects st), done_commands := cmds,
             undone_commands := cmd # undone_commands st\<rparr>)"

section \<open>Controller operations (controller.py)\<close>

definition links_from_source :: "objects \<Rightarrow> string \<Rightarrow> CanvasObject list" where
  "links_from_source objs source_id =
     filter (\<lambda>obj. kind obj = ''link'' \<and> link_source_id obj = Some source_id) (map snd objs)"

definition links_for_target :: "objects \<Rightarrow> string \<Rightarrow> string set \<Rightarrow> CanvasObject list" where
  "links_for_target objs target_id skip_sources =
     filter (\<lambda>obj. kind obj = ''link'' \<and> link_target_id obj = Some target_id
                \<and> (case link_source_id obj of None \<Rightarrow> False
                    | Some s \<Rightarrow> s \<noteq> [] \<and> s \<notin> skip_sources))
       (map snd objs)"

definition next_z_index :: "objects \<Rightarrow> int" where
  "next_z_index objs =
     (if objs = [] then 0 else Max (set (map (\<lambda>p. z_index (snd p)) objs)) + 1)"

definition add_object :: "constants \<Rightarrow> controller \<Rightarrow> CanvasObject \<Rightarrow> controller" where
  "add_object c st obj0 =
     (let obj1 = (if z_index obj0 = 0 \<and> objects st \<noteq> []
                  then obj0\<lparr>z_index := next_z_index (objects st)\<rparr> else obj0);
          obj = normalize_object c obj1
      in push (AddObjectCommand obj) st)"

text \<open>The two list comprehensions of \<^verbatim>\<open>remove_object\<close>.\<close>

definition related_links :: "objects \<Rightarrow> string \<Rightarrow> CanvasObject list" where
  "related_links objs oid =
     filter (\<lambda>link. kind link = ''link''
               \<and> (link_source_id link = Some oid \<or> link_target_id link = Some oid))
       (map snd objs)"

definition related_connectors :: "objects \<Rightarrow> string \<Rightarrow> CanvasObject list" where
  "related_connectors objs oid =
     filter (\<lambda>connector. kind connector = ''connector''
               \<and> (connector_source_id connector = Some oid
                  \<or> connector_target_id connector = Some oid))
       (map snd objs)"

definition remove_object :: "controller \<Rightarrow> string \<Rightarrow> controller" where
  "remove_object st oid =
     (case map_of (objects st) oid of
        None \<Rightarrow> st
      | Some obj \<Rightarrow>
          if related_links (objects st) oid \<noteq> [] \<or> related_connectors (objects st) oid \<noteq> [] then
            endMacro
              (push (RemoveObjectCommand obj)
                (fold (\<lambda>connector. push (RemoveObjectCommand connector))
                   (related_connectors (objects st) oid)
                  (fold (\<lambda>link. push (RemoveObjectCommand link))
                     (related_links (objects st) oid)
                    (beginMacro st))))
          else push (RemoveObjectCommand obj) st)"

text \<open>
  One round of the loop over \<^verbatim>\<open>target_links\<close> in \<^verbatim>\<open>update_object\<close>: the update of the
  link's source textbox, if the round appends one. The result \<open>None\<close> is the
  \<^verbatim>\<open>ZeroDivisionError\<close> of \<^verbatim>\<open>week_from_x\<close>.
\<close>

definition anchor_textbox_update ::
  "constants \<Rightarrow> controller \<Rightarrow> real \<times> real \<Rightarrow> CanvasObject
     \<Rightarrow> (CanvasObject \<times> CanvasObject) list option" where
  "anchor_textbox_update c st new_target_point link =
     (case link_source_id link of
        None \<Rightarrow> Some []
      | Some source_id \<Rightarrow>
          if source_id = [] then Some []
          else case map_of (objects st) source_id of
            None \<Rightarrow> Some []
          | Some source \<Rightarrow>
              if kind source \<noteq> ''textbox'' then Some []
              else
                let anchor_x = fst new_target_point + float_or (link_offset_x link) 0;
                    anchor_y = snd new_target_point + float_or (link_offset_y link) 0;
                    width = if_not_none (obj_width source) (TEXTBOX_MIN_WIDTH c);
                    height = if_not_none (obj_height source) (TEXTBOX_MIN_HEIGHT c);
                    new_pos = textbox_pos_for_anchor anchor_x anchor_y width height
                                (link_source_side link) (link_source_offset link);
                    new_x = fst new_pos;
                    new_y = snd new_pos
                in case layout st of
                     None \<Rightarrow>
                       (let new_source =
                              normalize_object c (source\<lparr>obj_x := Some new_x, obj_y := Some new_y\<rparr>)
                        in Some (if new_source \<noteq> source then [(source, new_source)] else []))
                   | Some L \<Rightarrow>
                       (case (week_from_x L new_x False, week_from_x L (new_x + width) False) of
                          (Some start_week', Some end_week') \<Rightarrow>
                            (let new_source =
                                   normalize_object c
                                     (source\<lparr>obj_x := Some new_x, obj_y := Some new_y,
                                             start_week := start_week', end_week := end_week'\<rparr>)
                             in Some (if new_source \<noteq> source then [(source, new_source)] else []))
                        | _ \<Rightarrow> None))"

fun anchor_textbox_updates ::
  "constants \<Rightarrow> controller \<Rightarrow> real \<times> real \<Rightarrow> CanvasObject list
     \<Rightarrow> (CanvasObject \<times> CanvasObject) list option" where
  "anchor_textbox_updates c st p [] = Some []"
| "anchor_textbox_updates c st p (link # links) =
     (case anchor_textbox_update c st p link of
        None \<Rightarrow> None
      | Some u \<Rightarrow>
          (case anchor_textbox_updates c st p links of
             None \<Rightarrow> None
           | Some us \<Rightarrow> Some (u @ us)))"

text \<open>
  One round of the loop over \<^verbatim>\<open>source_links\<close>: the update of the link's stored offset,
  appended when the new offset differs from the old one by more than 0.01.
\<close>

definition link_offset_update ::
  "constants \<Rightarrow> controller \<Rightarrow> CanvasObject \<Rightarrow> CanvasObject
     \<Rightarrow> (CanvasObject \<times> CanvasObject) list" where
  "link_offset_update c st new_obj link =
     (case link_target_id link of
        None \<Rightarrow> []
      | Some target_id \<Rightarrow>
          if target_id = [] then []
          else case map_of (objects st) target_id of
            None \<Rightarrow> []
          | Some target \<Rightarrow>
              (case object_anchor_point c (layout st) target of
                 None \<Rightarrow> []
               | Some target_point \<Rightarrow>
                   let source_anchor = textbox_anchor_point c new_obj
                                         (link_source_side link) (link_source_offset link);
                       new_offset_x = fst source_anchor - fst target_point;
                       new_offset_y = snd source_anchor - snd target_point;
                       old_offset_x = float_or (link_offset_x link) 0;
                       old_offset_y = float_or (link_offset_y link) 0
                   in if 1/100 < \<bar>new_offset_x - old_offset_x\<bar>
                         \<or> 1/100 < \<bar>new_offset_y - old_offset_y\<bar>
                      then [(link, normalize_object c
                                     (link\<lparr>link_offset_x := Some new_offset_x,
                                           link_offset_y := Some new_offset_y\<rparr>))]
                      else []))"

text \<open>
  The four assignments of \<^verbatim>\<open>update_object\<close> that remember the size and colour last
  given to a connector or an arrow.
\<close>

definition remember_defaults ::
  "CanvasObject \<Rightarrow> changes \<Rightarrow> CanvasObject \<Rightarrow> controller \<Rightarrow> controller" where
  "remember_defaults obj ch new_obj st =
     st\<lparr>connector_default_size :=
          (if kind obj = ''connector'' \<and> ch_size ch \<noteq> None
           then obj_size new_obj else connector_default_size st),
        arrow_default_size :=
          (if kind obj = ''arrow'' \<and> ch_size ch \<noteq> None
           then obj_size new_obj else arrow_default_size st),
        connector_default_color :=
          (if kind obj \<in> {''connector'', ''arrow''} \<and> ch_color ch \<noteq> None
           then color new_obj else connector_default_color st),
        arrow_default_color :=
          (if kind obj = ''arrow'' \<and> ch_color ch \<noteq> None
           then color new_obj else arrow_default_color st)\<rparr>"

text \<open>
  \<^verbatim>\<open>ProjectController.update_object\<close> in its three phases. \<open>target_cascade\<close> is the
  block that starts with \<^verbatim>\<open>if target_links:\<close>; it gives the updates appended to
  \<^verbatim>\<open>updates\<close>, or \<open>None\<close> when \<^verbatim>\<open>week_from_x\<close> raises. \<open>source_link_updates\<close> is the
  block that fills \<^verbatim>\<open>link_updates\<close>. \<open>push_updates\<close> is the final \<^verbatim>\<open>if\<close> with its
  pushes. Both blocks only read the state, so the state they see is the one before any
  push.
\<close>

definition target_cascade ::
  "constants \<Rightarrow> controller \<Rightarrow> string \<Rightarrow> CanvasObject \<Rightarrow> string set
     \<Rightarrow> (CanvasObject \<times> CanvasObject) list option" where
  "target_cascade c st oid new_obj skip_sources =
     (let target_links = links_for_target (objects st) oid skip_sources in
      if target_links = [] then Some []
      else case object_anchor_point c (layout st) new_obj of
        None \<Rightarrow> Some []
      | Some new_target_point \<Rightarrow> anchor_textbox_updates c st new_target_point target_links)"

definition source_link_updates ::
  "constants \<Rightarrow> controller \<Rightarrow> string \<Rightarrow> CanvasObject \<Rightarrow> CanvasObject \<Rightarrow> bool
     \<Rightarrow> (CanvasObject \<times> CanvasObject) list" where
  "source_link_updates c st oid obj new_obj defer_link_updates =
     (let source_links = (if kind obj = ''textbox''
                          then links_from_source (objects st) oid else [])
      in if source_links \<noteq> [] \<and> \<not> defer_link_updates
         then concat (map (link_offset_update c st new_obj) source_links)
         else [])"

definition push_updates ::
  "controller \<Rightarrow> CanvasObject \<Rightarrow> CanvasObject \<Rightarrow> (CanvasObject \<times> CanvasObject) list
     \<Rightarrow> (CanvasObject \<times> CanvasObject) list \<Rightarrow> controller" where
  "push_updates st1 obj new_obj cascade link_updates =
     (let updates = (obj, new_obj) # cascade in
      if 1 < length updates \<or> link_updates \<noteq> [] then
        endMacro
          (fold (\<lambda>u. push (UpdateObjectCommand (fst u) (snd u))) link_updates
            (fold (\<lambda>u. push (UpdateObjectCommand (fst u) (snd u))) updates
              (beginMacro st1)))
      else push (UpdateObjectCommand obj new_obj) st1)"

text \<open>
  \<open>skip_anchor_sources\<close> is the optional keyword set (\<^verbatim>\<open>skip_anchor_sources or set()\<close>),
  \<open>defer_link_updates\<close> the keyword flag. The result \<open>None\<close> is the exception that the
  cascade can raise, before anything is pushed; every other path returns a state.
\<close>

definition update_object ::
  "constants \<Rightarrow> controller \<Rightarrow> string \<Rightarrow> changes \<Rightarrow> string set option \<Rightarrow> bool
     \<Rightarrow> controller option" where
  "update_object c st oid ch skip_anchor_sources defer_link_updates =
     (case map_of (objects st) oid of
        None \<Rightarrow> Some st
      | Some obj \<Rightarrow>
          let new_obj = normalize_object c (replace obj ch) in
          if new_obj = obj then Some st
          else
            let st1 = remember_defaults obj ch new_obj st;
                skip_sources = (case skip_anchor_sources of None \<Rightarrow> {} | Some s \<Rightarrow> s)
            in case target_cascade c st oid new_obj skip_sources of
                 None \<Rightarrow> None
               | Some cascade \<Rightarrow>
                   Some (push_updates st1 obj new_obj cascade
                           (source_link_updates c st oid obj new_obj defer_link_updates)))"

text \<open>
  \<^verbatim>\<open>duplicate_object\<close>. The identifier that \<^verbatim>\<open>new_id()\<close> draws (a random UUID) is the
  argument \<open>nid\<close>. The result is the new state and the returned clone.
\<close>

definition duplicate_object ::
  "constants \<Rightarrow> controller \<Rightarrow> string \<Rightarrow> string \<Rightarrow> controller \<times> CanvasObject option" where
  "duplicate_object c st oid nid =
     (case map_of (objects st) oid of
        None \<Rightarrow> (st, None)
      | Some obj \<Rightarrow>
          if kind obj = ''textbox'' then
            (let width = float_or (obj_width obj) (TEXTBOX_MIN_WIDTH c);
                 padding = max 10 (width * (1/10));
                 new_x = float_or (obj_x obj) 0 + width + padding;
                 cloned = obj\<lparr>obj_id := nid, obj_x := Some new_x,
                              z_index := next_z_index (objects st)\<rparr>
             in (add_object c st cloned, Some cloned))
          else
            (let delta = duplicate_offset obj;
                 new_start = clamp_week (start_week obj + delta);
                 new_end = clamp_week (end_week obj + delta);
                 target_week' = map_option (\<lambda>w. clamp_week (w + delta)) (target_week obj);
                 arrow_mid_week' = map_option (\<lambda>w. clamp_week (w + delta)) (arrow_mid_week obj);
                 cloned = obj\<lparr>obj_id := nid, start_week := new_start, end_week := new_end,
                              target_week := target_week', arrow_mid_week := arrow_mid_week',
                              z_index := next_z_index (objects st)\<rparr>
             in (add_object c st cloned, Some cloned)))"

text \<open>
  \<^verbatim>\<open>add_anchor_link\<close>, again with the fresh identifier as the argument \<open>nid\<close>. Two
  pieces of its body are named: the side that falls back to \<^verbatim>\<open>"right"\<close>, and the
  constructor call that builds \<^verbatim>\<open>link_obj\<close>.
\<close>

definition side_or_right :: "string option \<Rightarrow> string" where
  "side_or_right side =
     (case side of
        None \<Rightarrow> ''right''
      | Some s \<Rightarrow> if s \<in> {''left'', ''right'', ''top'', ''bottom''} then s else ''right'')"

definition anchor_link_object ::
  "constants \<Rightarrow> string \<Rightarrow> string \<Rightarrow> string \<Rightarrow> string \<Rightarrow> real \<Rightarrow> real \<Rightarrow> real \<Rightarrow> int
     \<Rightarrow> CanvasObject" where
  "anchor_link_object c nid source_id target_id side_value ov link_offset_x' link_offset_y' z =
     (CanvasObject_init c nid ''link'' (CANVAS_ROW_ID c) 0 0)
       \<lparr>obj_text := [], color := LINK_LINE_COLOR c, obj_size := DEFAULT_SIZE c, z_index := z,
        link_source_id := Some source_id, link_target_id := Some target_id,
        link_source_side := Some side_value, link_source_offset := Some ov,
        link_offset_x := Some link_offset_x', link_offset_y := Some link_offset_y'\<rparr>"

definition add_anchor_link ::
  "constants \<Rightarrow> controller \<Rightarrow> string \<Rightarrow> string \<Rightarrow> string option \<Rightarrow> real option \<Rightarrow> string
     \<Rightarrow> controller" where
  "add_anchor_link c st source_id target_id side offset nid =
     (case (map_of (objects st) source_id, map_of (objects st) target_id) of
        (Some source, Some target) \<Rightarrow>
          if kind source \<noteq> ''textbox''
             \<or> kind target \<in> {''link'', ''textbox'', ''connector''}
             \<or> source_id = target_id
          then st
          else if layout st = None then st
          else
            let side_value = side_or_right side;
                ov = offset_value offset
            in case object_anchor_point c (layout st) target of
                 None \<Rightarrow> st
               | Some target_point \<Rightarrow>
                   let source_anchor = textbox_anchor_point c source (Some side_value) (Some ov);
                       link_offset_x' = fst source_anchor - fst target_point;
                       link_offset_y' = snd source_anchor - snd target_point;
                       z0 = min (z_index source) (z_index target) - 1;
                       z = (if z0 = 0 then - 1 else z0);
                       link_obj = anchor_link_object c nid source_id target_id side_value ov
                                    link_offset_x' link_offset_y' z;
                       existing_links = links_from_source (objects st) source_id
                   in endMacro
                        (add_object c
                          (fold (\<lambda>link. push (RemoveObjectCommand link)) existing_links
                            (beginMacro st))
                          link_obj)
      | _ \<Rightarrow> st)"

subsection \<open>Stacking order\<close>

text \<open>
  \<^verbatim>\<open>_ordered_object_ids\<close>: the objects sorted by the pair of their z-index and the
  position of their id among the dictionary's keys (0 for an id that is no key). Python's
  \<^verbatim>\<open>sorted\<close> and \<open>sort_key\<close> are both stable, and pairs are compared lexicographically.
\<close>

fun index_of :: "string list \<Rightarrow> string \<Rightarrow> nat option" where
  "index_of [] k = None"
| "index_of (x # xs) k = (if x = k then Some 0 else map_option Suc (index_of xs k))"

definition ordered_object_ids :: "objects \<Rightarrow> string list" where
  "ordered_object_ids objs =
     (if objs = [] then []
      else
        let order_index = (\<lambda>oid. case index_of (map fst objs) oid of None \<Rightarrow> 0 | Some i \<Rightarrow> i)
        in map obj_id (sort_key (\<lambda>obj. (z_index obj, order_index (obj_id obj))) (map snd objs)))"

text \<open>
  The loop of \<^verbatim>\<open>_apply_z_order\<close> over \<^verbatim>\<open>enumerate(ordered_ids)\<close>, from position
  \<open>index\<close> on. Each round calls \<^verbatim>\<open>update_object\<close> with the single change of the
  z-index and the default keyword arguments.
\<close>

fun apply_z_order_loop ::
  "constants \<Rightarrow> nat \<Rightarrow> string list \<Rightarrow> controller \<Rightarrow> controller option" where
  "apply_z_order_loop c index [] st = Some st"
| "apply_z_order_loop c index (oid # rest) st =
     (case map_of (objects st) oid of
        None \<Rightarrow> apply_z_order_loop c (Suc index) rest st
      | Some obj \<Rightarrow>
          if z_index obj = int index then apply_z_order_loop c (Suc index) rest st
          else
            (case update_object c st oid (no_changes\<lparr>ch_z_index := Some (int index)\<rparr>)
                    None False of
               None \<Rightarrow> None
             | Some st' \<Rightarrow> apply_z_order_loop c (Suc index) rest st'))"

definition apply_z_order :: "constants \<Rightarrow> string list \<Rightarrow> controller \<Rightarrow> controller option" where
  "apply_z_order c ordered_ids st =
     (if ordered_ids = [] then Some st
      else map_option endMacro (apply_z_order_loop c 0 ordered_ids (beginMacro st)))"

text \<open>
  The pass of the action \<^verbatim>\<open>forward\<close>: \<open>forward_loop sel n order\<close> runs the rounds for
  the indices \<open>n - 1\<close> down to \<open>0\<close>; it starts with \<open>n = length order - 1\<close>, so every
  index read is in range.
\<close>

fun forward_loop :: "string set \<Rightarrow> nat \<Rightarrow> string list \<Rightarrow> string list" where
  "forward_loop sel 0 order = order"
| "forward_loop sel (Suc i) order =
     forward_loop sel i
       (if order ! i \<in> sel \<and> order ! (i + 1) \<notin> sel
        then order[i := order ! (i + 1), i + 1 := order ! i] else order)"

text \<open>
  The pass of the action \<^verbatim>\<open>backward\<close>: \<open>backward_loop sel index n order\<close> runs \<open>n\<close>
  rounds from \<open>index\<close> upwards; it starts with \<open>index = 1\<close> and \<open>n = length order - 1\<close>.
\<close>

fun backward_loop :: "string set \<Rightarrow> nat \<Rightarrow> nat \<Rightarrow> string list \<Rightarrow> string list" where
  "backward_loop sel index 0 order = order"
| "backward_loop sel index (Suc n) order =
     backward_loop sel (Suc index) n
       (if order ! index \<in> sel \<and> order ! (index - 1) \<notin> sel
        then order[index := order ! (index - 1), index - 1 := order ! index] else order)"

definition reorder_objects ::
  "constants \<Rightarrow> controller \<Rightarrow> string list \<Rightarrow> string \<Rightarrow> controller option" where
  "reorder_objects c st obj_ids action =
     (let selected = filter (\<lambda>oid. map_of (objects st) oid \<noteq> None) obj_ids in
      if selected = [] then Some st
      else
        let ordered_ids = ordered_object_ids (objects st);
            selected_set = set selected
        in if action = ''front'' then
             apply_z_order c
               (filter (\<lambda>oid. oid \<notin> selected_set) ordered_ids
                  @ filter (\<lambda>oid. oid \<in> selected_set) ordered_ids) st
           else if action = ''back'' then
             apply_z_order c
               (filter (\<lambda>oid. oid \<in> selected_set) ordered_ids
                  @ filter (\<lambda>oid. oid \<notin> selected_set) ordered_ids) st
           else if action = ''forward'' then
             apply_z_order c
               (forward_loop selected_set (length ordered_ids - 1) ordered_ids) st
           else if action = ''backward'' then
             apply_z_order c
               (backward_loop selected_set 1 (length ordered_ids - 1) ordered_ids) st
           else Some st)"

subsection \<open>The store as a dictionary\<close>

text \<open>
  What makes an association list a dictionary keyed by id, as \<^verbatim>\<open>from_dict\<close> and
  \<^verbatim>\<open>add_object\<close> build it: no key twice, and every object stored under its own id.
\<close>

definition wf_objects :: "objects \<Rightarrow> bool" where
  "wf_objects objs = (distinct (map fst objs) \<and> list_all (\<lambda>p. obj_id (snd p) = fst p) objs)"

subsection \<open>Sample objects\<close>

text \<open>
  A normalized box of size 5 on weeks 10 to 12, and the same box with a size of 9, as a file written
  by hand or by another version can hold it (\<^verbatim>\<open>from_dict\<close> does not normalize).
\<close>

definition sample_box :: CanvasObject where
  "sample_box = (CanvasObject_init sample_constants ''b1'' ''box'' ''d1'' 10 12)\<lparr>obj_size := 5\<rparr>"

definition oversized_box :: CanvasObject where
  "oversized_box = sample_box\<lparr>obj_size := 9\<rparr>"

text \<open>
  The objects of the removal scenario: two links and one connector attached to the box, and
  the textbox that the first link starts from.
\<close>

definition sample_textbox :: CanvasObject where
  "sample_textbox =
     (CanvasObject_init sample_constants ''tb1'' ''textbox'' ''__canvas__'' 0 0)
       \<lparr>obj_x := Some 300, obj_y := Some 200, obj_width := Some 120, obj_height := Some 60\<rparr>"

definition sample_link1 :: CanvasObject where
  "sample_link1 =
     (CanvasObject_init sample_constants ''l1'' ''link'' ''__canvas__'' 0 0)
       \<lparr>z_index := - 1, link_source_id := Some ''tb1'', link_target_id := Some ''b1'',
        link_source_side := Some ''left'', link_source_offset := Some (1/2),
        link_offset_x := Some (- 220), link_offset_y := Some 70\<rparr>"

definition sample_link2 :: CanvasObject where
  "sample_link2 =
     (CanvasObject_init sample_constants ''l2'' ''link'' ''__canvas__'' 0 0)
       \<lparr>z_index := - 1, link_source_id := Some ''tb2'', link_target_id := Some ''b1'',
        link_source_side := Some ''right'', link_source_offset := Some (1/2),
        link_offset_x := Some (- 50), link_offset_y := Some 0\<rparr>"

definition sample_connector :: CanvasObject where
  "sample_connector =
     (CanvasObject_init sample_constants ''c1'' ''connector'' ''__canvas__'' 0 0)
       \<lparr>z_index := - 1, connector_source_id := Some ''b1'', connector_target_id := Some ''tb1'',
        connector_source_side := Some ''right'', connector_source_offset := Some (1/2),
        connector_target_side := Some ''left'', connector_target_offset := Some (1/2)\<rparr>"

definition sample_store :: objects where
  "sample_store =
     [(''b1'', sample_box), (''tb1'', sample_textbox), (''l1'', sample_link1),
      (''l2'', sample_link2), (''c1'', sample_connector)]"

text \<open>
  The objects that \<^verbatim>\<open>remove_object\<close> removes in its macro branch, in the order of its
  pushes.
\<close>

definition removed_with :: "objects \<Rightarrow> string \<Rightarrow> CanvasObject \<Rightarrow> CanvasObject list" where
  "removed_with objs oid obj = related_links objs oid @ related_connectors objs oid @ [obj]"

definition sample_milestone :: CanvasObject where
  "sample_milestone = CanvasObject_init sample_constants ''m1'' ''milestone'' ''d1'' 5 5"


text \<open>
  The sample layout after a deliverable row has been inserted above the row of the sample
  box: the rows are rebuilt, the row \<open>d1\<close> lies 40 units lower, and the stored objects are
  not touched.
\<close>

definition shifted_layout :: Layout where
  "shifted_layout =
     \<lparr>week_width = 40, label_width = 100, header_height = 80, origin_week = 1,
      row_map =
        [(''t1'', \<lparr>rl_row_id = ''t1'', rl_name = ''Alpha'', rl_kind = ''topic'',
                    rl_topic_id = ''t1'', rl_y = 0, rl_height = 60, rl_indent = 0\<rparr>),
         (''d0'', \<lparr>rl_row_id = ''d0'', rl_name = ''Plan'', rl_kind = ''deliverable'',
                    rl_topic_id = ''t1'', rl_y = 60, rl_height = 40, rl_indent = 1\<rparr>),
         (''d1'', \<lparr>rl_row_id = ''d1'', rl_name = ''Design'', rl_kind = ''deliverable'',
                    rl_topic_id = ''t1'', rl_y = 100, rl_height = 40, rl_indent = 1\<rparr>)],
      total_height = 140\<rparr>"

text \<open>The edit that moves the sample box two weeks to the right.\<close>

definition move_two_weeks :: changes where
  "move_two_weeks = no_changes\<lparr>ch_start_week := Some 12, ch_end_week := Some 14\<rparr>"

subsection \<open>The anchor cascade in closed form\<close>

text \<open>The effect of one \<^verbatim>\<open>UpdateObjectCommand\<close>, given as the pair of its two objects.\<close>

definition apply_update :: "CanvasObject \<times> CanvasObject \<Rightarrow> objects \<Rightarrow> objects" where
  "apply_update u objs = model_update_object (obj_id (fst u)) (snd u) objs"


text \<open>
  Two names for the proofs about the cascade of \<^verbatim>\<open>update_object\<close>. \<open>anchored_source\<close> is
  the value \<^verbatim>\<open>new_source\<close> of one round of the loop over \<^verbatim>\<open>target_links\<close> when the layout
  is \<open>L\<close> and its week width is not zero; \<open>anchor_textbox_step\<close> is what that round appends
  to \<^verbatim>\<open>updates\<close>. The lemma \<open>anchor_textbox_update_step\<close> below relates them to the
  model of the loop.
\<close>

definition anchored_source ::
  "constants \<Rightarrow> Layout \<Rightarrow> real \<times> real \<Rightarrow> CanvasObject \<Rightarrow> CanvasObject \<Rightarrow> CanvasObject" where
  "anchored_source c L new_target_point link source =
     (let anchor_x = fst new_target_point + float_or (link_offset_x link) 0;
          anchor_y = snd new_target_point + float_or (link_offset_y link) 0;
          width = if_not_none (obj_width source) (TEXTBOX_MIN_WIDTH c);
          height = if_not_none (obj_height source) (TEXTBOX_MIN_HEIGHT c);
          new_pos = textbox_pos_for_anchor anchor_x anchor_y width height
                      (link_source_side link) (link_source_offset link)
      in normalize_object c
           (source\<lparr>obj_x := Some (fst new_pos), obj_y := Some (snd new_pos),
                   start_week := \<lfloor>week_ratio L (fst new_pos)\<rfloor> + origin_week L,
                   end_week := \<lfloor>week_ratio L (fst new_pos + width)\<rfloor> + origin_week L\<rparr>))"

definition anchor_textbox_step ::
  "constants \<Rightarrow> objects \<Rightarrow> Layout \<Rightarrow> real \<times> real \<Rightarrow> CanvasObject
     \<Rightarrow> (CanvasObject \<times> CanvasObject) list" where
  "anchor_textbox_step c objs L new_target_point link =
     (case link_source_id link of
        None \<Rightarrow> []
      | Some source_id \<Rightarrow>
          if source_id = [] then []
          else case map_of objs source_id of
            None \<Rightarrow> []
          | Some source \<Rightarrow>
              if kind source \<noteq> ''textbox'' then []
              else if anchored_source c L new_target_point link source \<noteq> source
              then [(source, anchored_source c L new_target_point link source)]
              else [])"

subsection \<open>Conditions on the store for the stacking order\<close>

text \<open>
  No link of the store starts from the object it targets (\<^verbatim>\<open>add_anchor_link\<close> never
  builds such a link), and the z-index stored under a key.
\<close>

definition no_self_links :: "objects \<Rightarrow> bool" where
  "no_self_links objs =
     list_all (\<lambda>p. kind (snd p) = ''link'' \<longrightarrow> link_source_id (snd p) \<noteq> link_target_id (snd p))
       objs"

definition z_at :: "objects \<Rightarrow> string \<Rightarrow> int option" where
  "z_at objs k = map_option z_index (map_of objs k)"

text \<open>
  What the proofs about the stacking order need of a pair of the cascade of
  \<^verbatim>\<open>update_object\<close> on \<open>oid\<close>: it replaces a stored object other than \<open>oid\<close> by one of
  the same id, kind, z-index and link ends.
\<close>

definition touch_up :: "objects \<Rightarrow> string \<Rightarrow> CanvasObject \<times> CanvasObject \<Rightarrow> bool" where
  "touch_up objs oid u \<longleftrightarrow>
     map_of objs (obj_id (fst u)) = Some (fst u) \<and> obj_id (fst u) \<noteq> oid
     \<and> obj_id (snd u) = obj_id (fst u) \<and> kind (snd u) = kind (fst u)
     \<and> z_index (snd u) = z_index (fst u)
     \<and> link_source_id (snd u) = link_source_id (fst u)
     \<and> link_target_id (snd u) = link_target_id (fst u)"

text \<open>One round of the loop of \<^verbatim>\<open>_apply_z_order\<close>, as a function of the controller.\<close>

definition z_step :: "constants \<Rightarrow> nat \<Rightarrow> string \<Rightarrow> controller \<Rightarrow> controller option" where
  "z_step c idx oid st =
     (case map_of (objects st) oid of
        None \<Rightarrow> Some st
      | Some obj \<Rightarrow>
          if z_index obj = int idx then Some st
          else update_object c st oid (no_changes\<lparr>ch_z_index := Some (int idx)\<rparr>) None False)"

section \<open>Properties\<close>

subsection \<open>Normalization\<close>

lemma clamp01: "(if op < 0 then 0 else if 1 < op then 1 else op) = max 0 (min 1 (op::real))"
  by (simp add: max_def min_def)

lemma floor_min: "(if w < m then m else w) = max m (w::real)"
  by (simp add: max_def)

lemma week_order: "(if e < s then s else e) = max s (e::int)"
  by (simp add: max_def)

lemma nad_values: "normalize_arrow_direction v \<in> {''none'', ''left'', ''right''}"
  by (simp add: normalize_arrow_direction_def Let_def)

lemma nad_fix: "v \<in> {''none'', ''left'', ''right''} \<Longrightarrow> normalize_arrow_direction v = v"
  by (auto simp add: normalize_arrow_direction_def Let_def py_lower_def py_strip_def py_isspace_def py_lower_char_def)

lemma nad_idem [simp]: "normalize_arrow_direction (normalize_arrow_direction v) = normalize_arrow_direction v"
  using nad_values nad_fix by blast

lemma empty_to_none_idem [simp]: "empty_to_none (empty_to_none v) = empty_to_none v"
  by (simp add: empty_to_none_def)

lemma clamp_unit_idem [simp]: "clamp_unit (clamp_unit v) = clamp_unit v"
  by (cases v) (auto simp add: clamp_unit_def)

lemma float_or_idem [simp]: "float_or (Some (float_or v d)) d = float_or v d"
  by (cases v) (auto simp: float_or_def)

lemma float_or_floor_idem [simp]: "max m (float_or (Some (max m (float_or v m))) m) = max m (float_or v m)"
  by (cases v) (auto simp: float_or_def max_def)

lemma clamp_size_idem [simp]: "max 1 (min 5 (max 1 (min 5 (s::int)))) = max 1 (min 5 s)"
  by simp

lemma clamp_opacity_idem [simp]: "max 0 (min 1 (max 0 (min 1 (s::real)))) = max 0 (min 1 s)"
  by simp

lemma head_end: "(if \<not> (a \<or> b) then True else b) = (a \<longrightarrow> b)"
  by simp

lemma normalize_milestone:
  "kind obj = ''milestone'' \<Longrightarrow>
   normalize_object c obj = (html_cleared obj ''none'')\<lparr>end_week := start_week obj\<rparr>"
  unfolding normalize_object_def Let_def clamp_week_def clamp01 html_cleared_def
  by simp

lemma normalize_circle:
  "kind obj = ''circle'' \<Longrightarrow>
   normalize_object c obj = (html_cleared obj ''none'')\<lparr>end_week := start_week obj\<rparr>"
  unfolding normalize_object_def Let_def clamp_week_def clamp01 html_cleared_def
  by simp

lemma normalize_deadline:
  "kind obj = ''deadline'' \<Longrightarrow>
   normalize_object c obj = (html_cleared obj ''none'')\<lparr>end_week := start_week obj\<rparr>"
  unfolding normalize_object_def Let_def clamp_week_def clamp01 html_cleared_def
  by simp

lemma normalize_point:
  "kind obj = k \<Longrightarrow> k \<in> {''milestone'', ''circle'', ''deadline''} \<Longrightarrow>
   normalize_object c obj = (html_cleared obj ''none'')\<lparr>end_week := start_week obj\<rparr>"
  using normalize_milestone normalize_circle normalize_deadline by blast

lemma normalize_arrow:
  "kind obj = ''arrow'' \<Longrightarrow>
   normalize_object c obj =
     (html_cleared obj ''none'')
       \<lparr>target_week := Some (if_not_none (target_week obj) (end_week obj)),
        end_week := if_not_none (target_week obj) (end_week obj),
        arrow_head_end := (arrow_head_start obj \<longrightarrow> arrow_head_end obj)\<rparr>"
  unfolding normalize_object_def Let_def clamp_week_def clamp01 html_cleared_def
  by (simp add: head_end)

lemma normalize_link:
  "kind obj = ''link'' \<Longrightarrow>
   normalize_object c obj =
     (html_cleared obj ''none'')
       \<lparr>link_offset_x := Some (float_or (link_offset_x obj) 0),
        link_offset_y := Some (float_or (link_offset_y obj) 0),
        link_source_offset := clamp_unit (link_source_offset obj)\<rparr>"
  unfolding normalize_object_def Let_def clamp_week_def clamp01 html_cleared_def
  by simp

lemma normalize_connector:
  "kind obj = ''connector'' \<Longrightarrow>
   normalize_object c obj =
     (html_cleared obj ''none'')
       \<lparr>connector_source_offset := clamp_unit (connector_source_offset obj),
        connector_target_offset := clamp_unit (connector_target_offset obj),
        arrow_head_end := (arrow_head_start obj \<longrightarrow> arrow_head_end obj)\<rparr>"
  unfolding normalize_object_def Let_def clamp_week_def clamp01 html_cleared_def
  by (simp add: head_end)

lemma normalize_textbox:
  "kind obj = ''textbox'' \<Longrightarrow>
   normalize_object c obj =
     (html_cleared obj ''none'')
       \<lparr>obj_x := Some (float_or (obj_x obj) 0),
        obj_y := Some (float_or (obj_y obj) 0),
        obj_width := Some (max (TEXTBOX_MIN_WIDTH c) (float_or (obj_width obj) (TEXTBOX_MIN_WIDTH c))),
        obj_height := Some (max (TEXTBOX_MIN_HEIGHT c) (float_or (obj_height obj) (TEXTBOX_MIN_HEIGHT c)))\<rparr>"
  unfolding normalize_object_def Let_def clamp_week_def clamp01 html_cleared_def floor_min
  by simp

lemma normalize_box:
  "kind obj = ''box'' \<Longrightarrow>
   normalize_object c obj =
     (html_cleared obj (normalize_arrow_direction (arrow_direction obj)))
       \<lparr>end_week := max (start_week obj) (end_week obj)\<rparr>"
  unfolding normalize_object_def Let_def clamp_week_def clamp01 html_cleared_def week_order
  by simp

lemma normalize_other:
  "kind obj \<notin> {''milestone'', ''circle'', ''deadline'', ''arrow'', ''link'', ''connector'',
      ''textbox'', ''box''} \<Longrightarrow>
   normalize_object c obj =
     (html_cleared obj ''none'')\<lparr>end_week := max (start_week obj) (end_week obj)\<rparr>"
  unfolding normalize_object_def Let_def clamp_week_def clamp01 html_cleared_def week_order
  by simp

lemma kind_normalize_object [simp]: "kind (normalize_object c obj) = kind obj"
  unfolding normalize_object_def Let_def by simp

text \<open>
  Claim C3. Normalizing twice is the same as normalizing once, for every object of every
  kind (the known kinds and any other string) and whatever the textbox floors are.
\<close>

theorem normalize_object_idempotent: "normalize_object c (normalize_object c obj) = normalize_object c obj"
proof -
  consider (point) "kind obj \<in> {''milestone'', ''circle'', ''deadline''}"
    | (arrow) "kind obj = ''arrow''" | (link) "kind obj = ''link''"
    | (connector) "kind obj = ''connector''" | (textbox) "kind obj = ''textbox''"
    | (box) "kind obj = ''box''"
    | (other) "kind obj \<notin> {''milestone'', ''circle'', ''deadline'', ''arrow'', ''link'',
         ''connector'', ''textbox'', ''box''}"
    by blast
  then show ?thesis
  proof cases
    case point
    have k: "kind (normalize_object c obj) = kind obj" by simp
    show ?thesis
      by (subst normalize_point [OF k point]) (simp add: normalize_point [OF refl point] html_cleared_def)
  next
    case arrow
    have k: "kind (normalize_object c obj) = ''arrow''" using arrow by simp
    show ?thesis
      by (subst normalize_arrow [OF k]) (simp add: normalize_arrow [OF arrow] html_cleared_def if_not_none_def)
  next
    case link
    have k: "kind (normalize_object c obj) = ''link''" using link by simp
    show ?thesis
      by (subst normalize_link [OF k]) (simp add: normalize_link [OF link] html_cleared_def)
  next
    case connector
    have k: "kind (normalize_object c obj) = ''connector''" using connector by simp
    show ?thesis
      by (subst normalize_connector [OF k]) (simp add: normalize_connector [OF connector] html_cleared_def)
  next
    case textbox
    have k: "kind (normalize_object c obj) = ''textbox''" using textbox by simp
    show ?thesis
      by (subst normalize_textbox [OF k]) (simp add: normalize_textbox [OF textbox] html_cleared_def)
  next
    case box
    have k: "kind (normalize_object c obj) = ''box''" using box by simp
    show ?thesis
      by (subst normalize_box [OF k]) (simp add: normalize_box [OF box] html_cleared_def)
  next
    case other
    have k: "kind (normalize_object c obj) \<notin> {''milestone'', ''circle'', ''deadline'', ''arrow'', ''link'',
         ''connector'', ''textbox'', ''box''}" using other by simp
    show ?thesis
      by (subst normalize_other [OF k]) (simp add: normalize_other [OF other] html_cleared_def)
  qed
qed

subsection \<open>Floating-point rounding\<close>

lemma round_half_even_error: "\<bar>real_of_int (round_half_even y) - y\<bar> \<le> 1/2"
  unfolding round_half_even_def Let_def by (simp; linarith)

lemma round_half_even_int [simp]: "round_half_even (real_of_int k) = k"
  by (simp add: round_half_even_def)

lemma fl_zero [simp]: "fl 0 = 0"
  by (simp add: fl_def)

lemma ulp_le:
  assumes "x \<noteq> 0"
  shows "2 powr (real_of_int \<lfloor>log 2 \<bar>x\<bar>\<rfloor> - 52) \<le> \<bar>x\<bar> / 2 ^ 52"
proof -
  have "2 powr (real_of_int \<lfloor>log 2 \<bar>x\<bar>\<rfloor>) \<le> 2 powr (log 2 \<bar>x\<bar>)"
    by (rule powr_mono) simp_all
  also have "\<dots> = \<bar>x\<bar>" using assms by simp
  finally have a: "2 powr (real_of_int \<lfloor>log 2 \<bar>x\<bar>\<rfloor>) \<le> \<bar>x\<bar>" .
  have "2 powr (real_of_int \<lfloor>log 2 \<bar>x\<bar>\<rfloor> - 52) = 2 powr (real_of_int \<lfloor>log 2 \<bar>x\<bar>\<rfloor>) / 2 powr 52"
    by (simp add: powr_diff)
  also have "(2::real) powr 52 = 2 ^ 52"
    using powr_realpow [of "2::real" 52] by simp
  finally show ?thesis using a by (simp add: divide_right_mono)
qed

lemma fl_error: "\<bar>fl x - x\<bar> \<le> \<bar>x\<bar> / 2 ^ 53"
proof (cases "x = 0")
  case True then show ?thesis by simp
next
  case False
  define u where "u = 2 powr (real_of_int \<lfloor>log 2 \<bar>x\<bar>\<rfloor> - 52)"
  have u0: "0 < u" by (simp add: u_def)
  have ule: "u \<le> \<bar>x\<bar> / 2 ^ 52" unfolding u_def by (rule ulp_le [OF False])
  have f: "fl x = real_of_int (round_half_even (x / u)) * u"
    using False by (simp add: fl_def u_def Let_def)
  have "fl x - x = (real_of_int (round_half_even (x / u)) - x / u) * u"
    using u0 by (simp add: f algebra_simps)
  then have "\<bar>fl x - x\<bar> = \<bar>real_of_int (round_half_even (x / u)) - x / u\<bar> * u"
    using u0 by (simp add: abs_mult)
  also have "\<dots> \<le> (1/2) * u"
    by (rule mult_right_mono [OF round_half_even_error]) (use u0 in simp)
  also have "\<dots> \<le> (1/2) * (\<bar>x\<bar> / 2 ^ 52)" using ule by simp
  also have "\<dots> = \<bar>x\<bar> / 2 ^ 53" by simp
  finally show ?thesis .
qed

lemma floor_log_bound:
  assumes "m \<noteq> 0" and "\<bar>m\<bar> < 2 ^ 53"
  shows "\<lfloor>log 2 \<bar>real_of_int m * 2 powr real_of_int j\<bar>\<rfloor> \<le> 52 + j"
proof -
  have m0: "0 < \<bar>real_of_int m\<bar>" using assms by simp
  have "\<bar>real_of_int m\<bar> < 2 ^ 53" using assms(2)
    by (metis of_int_abs of_int_less_numeral_power_cancel_iff)
  then have "\<bar>real_of_int m\<bar> < 2 powr 53"
    using powr_realpow [of "2::real" 53] by simp
  then have "log 2 \<bar>real_of_int m\<bar> < 53"
    using m0 by (simp add: log_less_iff)
  moreover have "log 2 \<bar>real_of_int m * 2 powr real_of_int j\<bar> = log 2 \<bar>real_of_int m\<bar> + real_of_int j"
    using m0 by (simp add: abs_mult log_mult)
  ultimately have "log 2 \<bar>real_of_int m * 2 powr real_of_int j\<bar> < real_of_int (53 + j)" by simp
  then have "\<lfloor>log 2 \<bar>real_of_int m * 2 powr real_of_int j\<bar>\<rfloor> < 53 + j"
    by (simp only: floor_less_iff)
  then show ?thesis by simp
qed

lemma fl_dyadic:
  assumes "\<bar>m\<bar> < 2 ^ 53"
  shows "fl (real_of_int m * 2 powr real_of_int j) = real_of_int m * 2 powr real_of_int j"
proof (cases "m = 0")
  case True then show ?thesis by simp
next
  case False
  define x where "x = real_of_int m * 2 powr real_of_int j"
  define e where "e = \<lfloor>log 2 \<bar>x\<bar>\<rfloor>"
  have x0: "x \<noteq> 0" using False by (simp add: x_def)
  have ele: "e \<le> 52 + j" unfolding e_def x_def by (rule floor_log_bound [OF False assms])
  define t where "t = nat (52 + j - e)"
  have t: "real_of_int j - (real_of_int e - 52) = real t"
    using ele by (simp add: t_def)
  define u where "u = 2 powr (real_of_int e - 52)"
  have u0: "0 < u" by (simp add: u_def)
  have "x / u = real_of_int m * (2 powr real_of_int j / 2 powr (real_of_int e - 52))"
    by (simp add: x_def u_def)
  also have "2 powr real_of_int j / 2 powr (real_of_int e - 52) = 2 powr (real t)"
    by (simp only: powr_diff [symmetric] t)
  also have "\<dots> = 2 ^ t" by (simp add: powr_realpow)
  finally have q: "x / u = real_of_int (m * 2 ^ t)" by simp
  have "fl x = real_of_int (round_half_even (x / u)) * u"
    using x0 by (simp add: fl_def u_def e_def Let_def)
  also have "\<dots> = (x / u) * u" by (simp only: q round_half_even_int)
  also have "\<dots> = x" using u0 by simp
  finally show ?thesis by (simp add: x_def)
qed

lemma fl_int: "\<bar>k\<bar> < 2 ^ 53 \<Longrightarrow> fl (real_of_int k) = real_of_int k"
  using fl_dyadic [of k 0] by simp

lemma fl_half_int: "\<bar>k\<bar> < 2 ^ 53 \<Longrightarrow> fl (real_of_int k / 2) = real_of_int k / 2"
  using fl_dyadic [of k "- 1"] by (simp add: powr_minus field_simps)

lemma fl_numeral: "numeral n < (2::int) ^ 53 \<Longrightarrow> fl (numeral n) = numeral n"
  using fl_int [of "numeral n"] by simp

lemma fl_neg_numeral: "numeral n < (2::int) ^ 53 \<Longrightarrow> fl (- numeral n) = - numeral n"
  using fl_int [of "- numeral n"] by simp

lemma fl_one: "fl 1 = 1"
  using fl_int [of 1] by simp

lemma fl_neg_one: "fl (- 1) = - 1"
  using fl_int [of "- 1"] by simp

lemma fl_half: "fl (1/2) = 1/2"
  using fl_half_int [of 1] by simp

lemma fl_neg_half: "fl (- (1/2)) = - (1/2)"
  using fl_half_int [of "- 1"] by simp

lemmas fl_eval = fl_numeral fl_neg_numeral fl_one fl_neg_one fl_half fl_neg_half

lemma fl_error_le: "\<bar>x\<bar> \<le> b \<Longrightarrow> \<bar>fl x - x\<bar> \<le> b / 2 ^ 53"
proof -
  assume "\<bar>x\<bar> \<le> b"
  then have "\<bar>x\<bar> / 2 ^ 53 \<le> b / 2 ^ 53" by (simp add: divide_right_mono)
  then show ?thesis using fl_error [of x] by linarith
qed

lemma fl_between:
  assumes "- b \<le> x" and "x \<le> b" and "c = b / 2 ^ 53"
  shows "x - c \<le> fl x \<and> fl x \<le> x + c"
proof -
  have "\<bar>x\<bar> \<le> b" using assms(1,2) by linarith
  then have "\<bar>fl x - x\<bar> \<le> c" unfolding assms(3) by (rule fl_error_le)
  then show ?thesis by linarith
qed

lemma floor_log_binade:
  assumes "2 powr real_of_int e \<le> \<bar>x\<bar>" and "\<bar>x\<bar> < 2 powr (real_of_int e + 1)"
  shows "\<lfloor>log 2 \<bar>x\<bar>\<rfloor> = e"
proof -
  have x0: "0 < \<bar>x\<bar>" using assms(1) powr_gt_zero [of 2 "real_of_int e"] by linarith
  have a: "real_of_int e \<le> log 2 \<bar>x\<bar>" using assms(1) x0 by (simp add: le_log_iff)
  have b: "log 2 \<bar>x\<bar> < real_of_int e + 1" using assms(2) x0 by (simp add: log_less_iff)
  show ?thesis using a b by (simp add: floor_eq_iff)
qed

lemma fl_binade:
  assumes "2 powr real_of_int e \<le> \<bar>x\<bar>" and "\<bar>x\<bar> < 2 powr (real_of_int e + 1)"
  shows "fl x = real_of_int (round_half_even (x / 2 powr (real_of_int e - 52))) * 2 powr (real_of_int e - 52)"
proof -
  have "0 < \<bar>x\<bar>" using assms(1) powr_gt_zero [of 2 "real_of_int e"] by linarith
  then have "x \<noteq> 0" by simp
  then show ?thesis by (simp add: fl_def Let_def floor_log_binade [OF assms])
qed

lemma powr_numeral_2: "(2::real) powr numeral n = 2 ^ numeral n"
  by (rule powr_numeral) simp

lemma fl_tie_up: "fl (2 ^ 52 + 3 / 2) = 2 ^ 52 + 2"
proof -
  have "fl (2 ^ 52 + 3 / 2) =
        real_of_int (round_half_even ((2 ^ 52 + 3 / 2) / 2 powr (real_of_int 52 - 52))) * 2 powr (real_of_int 52 - 52)"
    by (rule fl_binade) (simp_all add: powr_numeral_2)
  also have "\<dots> = real_of_int (round_half_even (2 ^ 52 + 3 / 2))" by simp
  also have "round_half_even (2 ^ 52 + 3 / 2) = 2 ^ 52 + 2"
    by (simp add: round_half_even_def Let_def)
  finally show ?thesis by simp
qed


lemma fl_tie_even: "fl (4 + 1 / 2 ^ 51) = 4"
proof -
  have "fl (4 + 1 / 2 ^ 51) =
        real_of_int (round_half_even ((4 + 1 / 2 ^ 51) / 2 powr (real_of_int 2 - 52))) * 2 powr (real_of_int 2 - 52)"
    by (rule fl_binade) (simp_all add: powr_numeral_2)
  also have "(2::real) powr (real_of_int 2 - 52) = 1 / 2 ^ 50"
    using powr_minus [of "2::real" 50] by (simp add: powr_numeral_2 field_simps)
  also have "(4 + 1 / 2 ^ 51) / (1 / 2 ^ 50) = (2::real) ^ 52 + 1 / 2" by simp
  also have "round_half_even (2 ^ 52 + 1 / 2) = 2 ^ 52"
    by (simp add: round_half_even_def Let_def)
  finally show ?thesis by simp
qed

lemma div_pow_le: "0 \<le> (b::real) \<Longrightarrow> b / 2 ^ 53 \<le> b"
  by (simp add: divide_le_eq)

lemma div_pow_less: "0 < (b::real) \<Longrightarrow> b / 2 ^ 53 < b"
  by (simp add: divide_less_eq)

subsection \<open>Weeks and canvas coordinates\<close>

lemma py_int_of_float_int [simp]: "py_int_of_float (real_of_int k) = k"
  by (simp add: py_int_of_float_def)

lemma py_int_half_up: "0 \<le> r \<Longrightarrow> py_int_of_float (r + 1/2) = \<lfloor>r + 1/2\<rfloor>"
  by (simp add: py_int_of_float_def)

lemma py_int_half_down: "r < 0 \<Longrightarrow> py_int_of_float (r - 1/2) = - \<lfloor>- r + 1/2\<rfloor>"
proof -
  assume "r < 0"
  then have "r - 1/2 < 0" by simp
  moreover have "\<lceil>r - 1/2\<rceil> = - \<lfloor>- r + 1/2\<rfloor>" by (simp add: ceiling_def)
  ultimately show ?thesis by (simp add: py_int_of_float_def)
qed

lemma round_half_away_from_zero_int [simp]: "round_half_away_from_zero (real_of_int k) = k"
proof (cases "0 \<le> k")
  case True
  then show ?thesis by (simp add: round_half_away_from_zero_def)
next
  case False
  then have "\<lfloor>- real_of_int k + 1/2\<rfloor> = - k" by linarith
  with False show ?thesis by (simp add: round_half_away_from_zero_def)
qed

lemma week_from_x_floor:
  "week_width L \<noteq> 0 \<Longrightarrow> week_from_x L x False = Some (\<lfloor>week_ratio L x\<rfloor> + origin_week L)"
  by (simp add: week_from_x_def Let_def)

lemma abs_le_numeral_power:
  "\<bar>d\<bar> \<le> 2 ^ 40 \<Longrightarrow> - 1099511627776 \<le> real_of_int d \<and> real_of_int d \<le> 1099511627776"
  by (simp add: abs_le_iff)

lemma week_ratio_week_left_x:
  assumes ww: "week_width L \<noteq> 0"
    and dw: "\<bar>w - origin_week L\<bar> \<le> 2 ^ 40"
    and lw: "\<bar>label_width L\<bar> \<le> 2 ^ 40 * \<bar>real_of_int (week_width L)\<bar>"
  shows "\<bar>week_ratio L (week_left_x L w) - real_of_int (w - origin_week L)\<bar> \<le> 1 / 512"
proof -
  define d where "d = w - origin_week L"
  define wr where "wr = real_of_int (week_width L)"
  define W where "W = \<bar>wr\<bar>"
  define M where "M = 2 ^ 40 * W"
  define EM where "EM = M / 2 ^ 53"
  define EW where "EW = W / 2 ^ 53"
  define k where "k = real_of_int (d * week_width L)"
  define kf where "kf = fl k"
  define s where "s = fl (label_width L + kf)"
  define xr where "xr = fl (s - label_width L)"
  define wf where "wf = fl wr"
  define q where "q = xr / wf"
  define p where "p = real_of_int d * (wr - wf)"
  define n where "n = xr - real_of_int d * wf"
  have W1: "1 \<le> W" using ww by (simp add: W_def wr_def)
  have dB: "- 1099511627776 \<le> real_of_int d \<and> real_of_int d \<le> 1099511627776"
    unfolding d_def by (rule abs_le_numeral_power [OF dw])
  then have dA: "\<bar>real_of_int d\<bar> \<le> 2 ^ 40" by (simp add: abs_le_iff)
  have M0: "0 \<le> M" using W1 by (simp add: M_def)
  have EM0: "0 \<le> EM" using M0 by (simp add: EM_def)
  have EMs: "4096 * EM \<le> M" using M0 by (simp add: EM_def)
  have EWs: "4096 * EW \<le> W" using W1 by (simp add: EW_def)
  have EMW: "EM = 2 ^ 40 * EW" by (simp add: EM_def EW_def M_def)
  have EMW2: "7 * EM = (14 / 8192) * (W / 2)" by (simp add: EM_def M_def)
  have kM: "- M \<le> k \<and> k \<le> M"
  proof -
    have "\<bar>k\<bar> = \<bar>real_of_int d\<bar> * W" by (simp add: k_def W_def wr_def abs_mult)
    also have "\<dots> \<le> 2 ^ 40 * W" by (rule mult_right_mono [OF dA]) (simp add: W_def)
    finally have "\<bar>k\<bar> \<le> M" by (simp add: M_def)
    then show ?thesis by linarith
  qed
  have lM: "- M \<le> label_width L \<and> label_width L \<le> M"
  proof -
    have "\<bar>label_width L\<bar> \<le> M" using lw by (simp add: M_def W_def wr_def)
    then show ?thesis by linarith
  qed
  have e1: "k - EM \<le> kf \<and> kf \<le> k + EM"
    unfolding kf_def by (rule fl_between [where b = M]) (use kM in \<open>simp_all add: EM_def\<close>)
  have e2: "label_width L + kf - 3 * EM \<le> s \<and> s \<le> label_width L + kf + 3 * EM"
    unfolding s_def
  proof (rule fl_between [where b = "3 * M"])
    show "- (3 * M) \<le> label_width L + kf" using lM kM e1 EMs EM0 by linarith
    show "label_width L + kf \<le> 3 * M" using lM kM e1 EMs EM0 by linarith
    show "3 * EM = 3 * M / 2 ^ 53" by (simp add: EM_def)
  qed
  have e3: "s - label_width L - 2 * EM \<le> xr \<and> xr \<le> s - label_width L + 2 * EM"
    unfolding xr_def
  proof (rule fl_between [where b = "2 * M"])
    show "- (2 * M) \<le> s - label_width L" using kM e1 e2 EMs EM0 by linarith
    show "s - label_width L \<le> 2 * M" using kM e1 e2 EMs EM0 by linarith
    show "2 * EM = 2 * M / 2 ^ 53" by (simp add: EM_def)
  qed
  have xk: "k - 6 * EM \<le> xr \<and> xr \<le> k + 6 * EM" using e1 e2 e3 by linarith
  have e4: "wr - EW \<le> wf \<and> wf \<le> wr + EW"
    unfolding wf_def by (rule fl_between [where b = W]) (simp_all add: W_def EW_def)
  have wfW: "W / 2 \<le> \<bar>wf\<bar>" using e4 EWs W1 unfolding W_def by linarith
  then have wf0: "wf \<noteq> 0" using W1 by linarith
  have pE: "\<bar>p\<bar> \<le> EM"
  proof -
    have "\<bar>wr - wf\<bar> \<le> EW" using e4 by linarith
    then have "\<bar>real_of_int d\<bar> * \<bar>wr - wf\<bar> \<le> 2 ^ 40 * EW"
      using dA by (intro mult_mono) simp_all
    then show ?thesis by (simp add: p_def abs_mult EMW)
  qed
  have "n = (xr - k) + p" by (simp add: n_def p_def k_def wr_def algebra_simps)
  then have nE: "\<bar>n\<bar> \<le> 7 * EM" using xk pE by linarith
  have qn: "q - real_of_int d = n / wf" using wf0 by (simp add: q_def n_def field_simps)
  have "\<bar>n\<bar> \<le> (14 / 8192) * (W / 2)" using nE EMW2 by linarith
  also have "\<dots> \<le> (14 / 8192) * \<bar>wf\<bar>" by (rule mult_left_mono [OF wfW]) simp
  finally have "\<bar>n\<bar> / \<bar>wf\<bar> \<le> 14 / 8192" using wf0 by (simp add: divide_le_eq)
  then have qd: "\<bar>q - real_of_int d\<bar> \<le> 14 / 8192" by (simp add: qn)
  have e5: "q - 1 / 4096 \<le> fl q \<and> fl q \<le> q + 1 / 4096"
  proof (rule fl_between [where b = "2199023255552"])
    show "- 2199023255552 \<le> q" using qd dB by linarith
    show "q \<le> 2199023255552" using qd dB by linarith
    show "1 / 4096 = (2199023255552::real) / 2 ^ 53" by simp
  qed
  have "\<bar>fl q - real_of_int d\<bar> \<le> 1 / 512" using e5 qd by linarith
  moreover have "week_ratio L (week_left_x L w) = fl q"
    by (simp add: week_ratio_def week_left_x_def Let_def q_def xr_def s_def kf_def k_def wf_def
        wr_def d_def)
  ultimately show ?thesis by (simp add: d_def)
qed

lemma snap_up:
  assumes "\<bar>r - real_of_int d\<bar> \<le> 1 / 512" and "\<bar>d\<bar> \<le> 2 ^ 40" and "0 \<le> r"
  shows "py_int_of_float (fl (r + 1/2)) = d"
proof -
  note b = abs_le_numeral_power [OF assms(2)]
  have e: "r + 1/2 - 1 / 4096 \<le> fl (r + 1/2) \<and> fl (r + 1/2) \<le> r + 1/2 + 1 / 4096"
  proof (rule fl_between [where b = "2199023255552"])
    show "- 2199023255552 \<le> r + 1/2" using assms(3) by linarith
    show "r + 1/2 \<le> 2199023255552" using assms(1) b by linarith
    show "1 / 4096 = (2199023255552::real) / 2 ^ 53" by simp
  qed
  have lo: "real_of_int d \<le> fl (r + 1/2)" using e assms(1) by linarith
  have hi: "fl (r + 1/2) < real_of_int d + 1" using e assms(1) by linarith
  have "- 1 < real_of_int d" using assms(1,3) by linarith
  then have d0: "0 \<le> d" by linarith
  then have "0 \<le> fl (r + 1/2)" using lo by linarith
  moreover have "\<lfloor>fl (r + 1/2)\<rfloor> = d" using lo hi by (simp add: floor_eq_iff)
  ultimately show ?thesis by (simp add: py_int_of_float_def)
qed

lemma snap_down:
  assumes "\<bar>r - real_of_int d\<bar> \<le> 1 / 512" and "\<bar>d\<bar> \<le> 2 ^ 40" and "r < 0"
  shows "py_int_of_float (fl (r - 1/2)) = d"
proof -
  note b = abs_le_numeral_power [OF assms(2)]
  have e: "r - 1/2 - 1 / 4096 \<le> fl (r - 1/2) \<and> fl (r - 1/2) \<le> r - 1/2 + 1 / 4096"
  proof (rule fl_between [where b = "2199023255552"])
    show "- 2199023255552 \<le> r - 1/2" using assms(1) b by linarith
    show "r - 1/2 \<le> 2199023255552" using assms(3) by linarith
    show "1 / 4096 = (2199023255552::real) / 2 ^ 53" by simp
  qed
  have hi: "fl (r - 1/2) \<le> real_of_int d" using e assms(1) by linarith
  have lo: "real_of_int d - 1 < fl (r - 1/2)" using e assms(1) by linarith
  have neg: "fl (r - 1/2) < 0" using e assms(3) by linarith
  have "\<lceil>fl (r - 1/2)\<rceil> = d" using lo hi by (simp add: ceiling_eq_iff)
  then show ?thesis using neg by (simp add: py_int_of_float_def)
qed

lemma week_from_x_week_left_x:
  assumes ww: "week_width L \<noteq> 0"
    and dw: "\<bar>w - origin_week L\<bar> \<le> 2 ^ 40"
    and lw: "\<bar>label_width L\<bar> \<le> 2 ^ 40 * \<bar>real_of_int (week_width L)\<bar>"
  shows "week_from_x L (week_left_x L w) True = Some w"
proof -
  define r where "r = week_ratio L (week_left_x L w)"
  define d where "d = w - origin_week L"
  have rd: "\<bar>r - real_of_int d\<bar> \<le> 1 / 512"
    unfolding r_def d_def by (rule week_ratio_week_left_x [OF ww dw lw])
  have dB: "\<bar>d\<bar> \<le> 2 ^ 40" using dw by (simp add: d_def)
  have "(if 0 \<le> r then py_int_of_float (fl (r + 1/2)) else py_int_of_float (fl (r - 1/2))) = d"
    using snap_up [OF rd dB] snap_down [OF rd dB] by simp
  then show ?thesis using ww by (simp add: week_from_x_def Let_def r_def [symmetric] d_def)
qed

lemma week_ratio_error:
  assumes ww: "week_width L \<noteq> 0"
  shows "\<bar>week_ratio L x - (x - label_width L) / real_of_int (week_width L)\<bar>
           \<le> \<bar>(x - label_width L) / real_of_int (week_width L)\<bar> / 2 ^ 50"
proof -
  define wr where "wr = real_of_int (week_width L)"
  define W where "W = \<bar>wr\<bar>"
  define t where "t = x - label_width L"
  define T where "T = \<bar>t\<bar>"
  define R where "R = t / wr"
  define A where "A = \<bar>R\<bar>"
  define ET where "ET = T / 2 ^ 53"
  define EW where "EW = W / 2 ^ 53"
  define EA where "EA = A / 2 ^ 53"
  define xr where "xr = fl t"
  define wf where "wf = fl wr"
  define q where "q = xr / wf"
  define p where "p = R * (wr - wf)"
  define n where "n = xr - R * wf"
  have wr0: "wr \<noteq> 0" using ww by (simp add: wr_def)
  have W0: "0 < W" using wr0 by (simp add: W_def)
  have T0: "0 \<le> T" by (simp add: T_def)
  have A0: "0 \<le> A" by (simp add: A_def)
  have AW: "A * W = T" using wr0 by (simp add: A_def W_def T_def R_def abs_divide)
  have ET0: "0 \<le> ET" using T0 by (simp add: ET_def)
  have EA0: "0 \<le> EA" using A0 by (simp add: EA_def)
  have EAs: "4096 * EA \<le> A" using A0 by (simp add: EA_def)
  have EWs: "4096 * EW \<le> W" using W0 by (simp add: EW_def)
  have e1: "t - ET \<le> xr \<and> xr \<le> t + ET"
    unfolding xr_def by (rule fl_between [where b = T]) (simp_all add: T_def ET_def)
  have e2: "wr - EW \<le> wf \<and> wf \<le> wr + EW"
    unfolding wf_def by (rule fl_between [where b = W]) (simp_all add: W_def EW_def)
  have wfW: "W / 2 \<le> \<bar>wf\<bar>" using e2 EWs W0 unfolding W_def by linarith
  then have wf0: "wf \<noteq> 0" using W0 by linarith
  have pE: "\<bar>p\<bar> \<le> ET"
  proof -
    have "\<bar>wr - wf\<bar> \<le> EW" using e2 by linarith
    then have "A * \<bar>wr - wf\<bar> \<le> A * EW" using A0 by (rule mult_left_mono)
    moreover have "A * EW = ET" using AW by (simp add: EW_def ET_def)
    ultimately show ?thesis by (simp add: p_def abs_mult A_def)
  qed
  have Rw: "R * wr = t" using wr0 by (simp add: R_def)
  have "n = (xr - t) + p" by (simp add: n_def p_def right_diff_distrib Rw)
  then have nE: "\<bar>n\<bar> \<le> 2 * ET" using e1 pE by linarith
  have ETA: "2 * ET = (4 * EA) * (W / 2)" using AW by (simp add: ET_def EA_def)
  have qn: "q - R = n / wf" using wf0 by (simp add: q_def n_def field_simps)
  have "\<bar>n\<bar> \<le> (4 * EA) * (W / 2)" using nE ETA by linarith
  also have "\<dots> \<le> (4 * EA) * \<bar>wf\<bar>" by (rule mult_left_mono [OF wfW]) (use EA0 in simp)
  finally have "\<bar>n\<bar> / \<bar>wf\<bar> \<le> 4 * EA" using wf0 by (simp add: divide_le_eq)
  then have qd: "\<bar>q - R\<bar> \<le> 4 * EA" by (simp add: qn)
  have e3: "q - 2 * EA \<le> fl q \<and> fl q \<le> q + 2 * EA"
  proof (rule fl_between [where b = "2 * A"])
    show "- (2 * A) \<le> q" using qd EAs A0 unfolding A_def by linarith
    show "q \<le> 2 * A" using qd EAs A0 unfolding A_def by linarith
    show "2 * EA = 2 * A / 2 ^ 53" by (simp add: EA_def)
  qed
  have "\<bar>fl q - R\<bar> \<le> 8 * EA" using e3 qd EA0 by linarith
  moreover have "8 * EA = A / 2 ^ 50" by (simp add: EA_def)
  moreover have "week_ratio L x = fl q"
    by (simp add: week_ratio_def Let_def q_def xr_def wf_def wr_def t_def)
  ultimately show ?thesis by (simp add: A_def R_def t_def wr_def)
qed

lemma week_from_x_half_steps:
  assumes ww: "week_width L \<noteq> 0"
    and r: "week_ratio L x = real_of_int k / 2" and k: "\<bar>k\<bar> < 2 ^ 52"
  shows "week_from_x L x True = Some (origin_week L + round_half_away_from_zero (week_ratio L x))"
proof -
  define r where "r = week_ratio L x"
  have rk: "r = real_of_int k / 2" using assms(2) by (simp add: r_def)
  have up: "fl (r + 1/2) = r + 1/2"
  proof -
    have "\<bar>k + 1\<bar> < 2 ^ 53" using k by simp
    from fl_half_int [OF this] show ?thesis by (simp add: rk add_divide_distrib)
  qed
  have down: "fl (r - 1/2) = r - 1/2"
  proof -
    have "\<bar>k - 1\<bar> < 2 ^ 53" using k by simp
    from fl_half_int [OF this] show ?thesis by (simp add: rk diff_divide_distrib)
  qed
  have "(if 0 \<le> r then py_int_of_float (fl (r + 1/2)) else py_int_of_float (fl (r - 1/2)))
        = round_half_away_from_zero r"
    by (simp add: up down py_int_half_up py_int_half_down round_half_away_from_zero_def)
  then show ?thesis using ww by (simp add: week_from_x_def Let_def r_def [symmetric])
qed

lemma week_from_x_near:
  assumes ww: "week_width L \<noteq> 0"
  shows "\<exists>n. week_from_x L x True = Some (origin_week L + n)
           \<and> \<bar>real_of_int n - week_ratio L x\<bar> \<le> 1/2 + (\<bar>week_ratio L x\<bar> + 1/2) / 2 ^ 53"
proof -
  define r where "r = week_ratio L x"
  define c where "c = (\<bar>r\<bar> + 1/2) / 2 ^ 53"
  show ?thesis
  proof (cases "0 \<le> r")
    case True
    have e: "r + 1/2 - c \<le> fl (r + 1/2) \<and> fl (r + 1/2) \<le> r + 1/2 + c"
      by (rule fl_between [where b = "\<bar>r\<bar> + 1/2"]) (use True in \<open>simp_all add: c_def\<close>)
    have "c \<le> \<bar>r\<bar> + 1/2" unfolding c_def by (rule div_pow_le) simp
    then have pos: "0 \<le> fl (r + 1/2)" using e True by linarith
    define n where "n = \<lfloor>fl (r + 1/2)\<rfloor>"
    have "real_of_int n \<le> fl (r + 1/2)" "fl (r + 1/2) < real_of_int n + 1"
      unfolding n_def by linarith+
    then have "\<bar>real_of_int n - r\<bar> \<le> 1/2 + c" using e by linarith
    moreover have "week_from_x L x True = Some (origin_week L + n)"
      using ww True pos by (simp add: week_from_x_def Let_def r_def [symmetric] py_int_of_float_def n_def)
    ultimately show ?thesis unfolding c_def r_def by blast
  next
    case False
    have e: "r - 1/2 - c \<le> fl (r - 1/2) \<and> fl (r - 1/2) \<le> r - 1/2 + c"
      by (rule fl_between [where b = "\<bar>r\<bar> + 1/2"]) (use False in \<open>simp_all add: c_def\<close>)
    have "c < \<bar>r\<bar> + 1/2" unfolding c_def by (rule div_pow_less) (use False in simp)
    then have neg: "fl (r - 1/2) < 0" using e False by linarith
    define n where "n = \<lceil>fl (r - 1/2)\<rceil>"
    have "fl (r - 1/2) \<le> real_of_int n" "real_of_int n - 1 < fl (r - 1/2)"
      unfolding n_def by linarith+
    then have "\<bar>real_of_int n - r\<bar> \<le> 1/2 + c" using e by linarith
    moreover have "week_from_x L x True = Some (origin_week L + n)"
      using ww False neg by (simp add: week_from_x_def Let_def r_def [symmetric] py_int_of_float_def n_def)
    ultimately show ?thesis unfolding c_def r_def by blast
  qed
qed

lemma week_ratio_exact:
  assumes ww: "week_width L \<noteq> 0" and wb: "\<bar>week_width L\<bar> < 2 ^ 53"
    and lw: "label_width L = real_of_int a"
    and b: "\<bar>a\<bar> + \<bar>(w - origin_week L) * week_width L\<bar> < 2 ^ 53"
  shows "week_ratio L (week_left_x L w) = real_of_int (w - origin_week L)"
proof -
  define d where "d = w - origin_week L"
  define k where "k = d * week_width L"
  have kb: "\<bar>k\<bar> < 2 ^ 53" using b by (simp add: k_def d_def)
  have sb: "\<bar>a + k\<bar> < 2 ^ 53" using b by (simp add: k_def d_def)
  have db: "\<bar>d\<bar> < 2 ^ 53"
  proof -
    have "1 \<le> \<bar>week_width L\<bar>" using ww by linarith
    then have "\<bar>d\<bar> * 1 \<le> \<bar>d\<bar> * \<bar>week_width L\<bar>" by (intro mult_left_mono) simp_all
    then have "\<bar>d\<bar> \<le> \<bar>k\<bar>" by (simp add: k_def abs_mult)
    then show ?thesis using kb by linarith
  qed
  have x: "week_left_x L w = real_of_int (a + k)"
    using fl_int [OF kb] fl_int [OF sb] by (simp add: week_left_x_def lw k_def d_def)
  have "fl (real_of_int (a + k) - real_of_int a) = real_of_int k"
    using fl_int [OF kb] by simp
  moreover have "real_of_int k / real_of_int (week_width L) = real_of_int d"
    using ww by (simp add: k_def)
  ultimately show ?thesis
    unfolding x using fl_int [OF wb] fl_int [OF db]
    by (simp add: week_ratio_def Let_def lw d_def)
qed

lemma week_from_x_floor_week_left_x:
  assumes ww: "week_width L \<noteq> 0" and wb: "\<bar>week_width L\<bar> < 2 ^ 53"
    and lw: "label_width L = real_of_int a"
    and b: "\<bar>a\<bar> + \<bar>(w - origin_week L) * week_width L\<bar> < 2 ^ 53"
  shows "week_from_x L (week_left_x L w) False = Some w"
  using ww by (simp add: week_from_x_floor week_ratio_exact [OF ww wb lw b] del: of_int_diff)

lemma sample_layout_fields:
  "week_width sample_layout = 40" "label_width sample_layout = 100"
  "origin_week sample_layout = 1" "header_height sample_layout = 80"
  "total_height sample_layout = 100"
  by (simp_all add: sample_layout_def)

lemma sample_week_ratio_tie: "week_ratio sample_layout 80 = - 1 / 2"
  by (simp add: week_ratio_def Let_def sample_layout_fields fl_eval)

lemma sample_week_ratio_half: "week_ratio sample_layout 160 = 3 / 2"
proof -
  have "fl (3 / 2) = 3 / 2" using fl_half_int [of 3] by simp
  then show ?thesis by (simp add: week_ratio_def Let_def sample_layout_fields fl_eval)
qed

lemma unit_layout_round_trip:
  "week_from_x unit_layout (week_left_x unit_layout (2 ^ 52 + 2)) True = Some (2 ^ 52 + 3)"
proof -
  have x: "week_left_x unit_layout (2 ^ 52 + 2) = 1 + 2 ^ 52"
    by (simp add: week_left_x_def unit_layout_def fl_numeral)
  have r: "week_ratio unit_layout 4503599627370497 = 4503599627370497"
    by (simp add: week_ratio_def unit_layout_def Let_def fl_numeral fl_one)
  have t: "fl (9007199254740995 / 2) = 4503599627370498" using fl_tie_up by simp
  have w1: "week_width unit_layout = 1" and o1: "origin_week unit_layout = 1"
    by (simp_all add: unit_layout_def)
  show ?thesis
    unfolding x by (simp add: week_from_x_def Let_def r t w1 o1 py_int_of_float_def)
qed

lemma fraction_layout_floor:
  "week_from_x fraction_layout (week_left_x fraction_layout 4) False = Some 3"
proof -
  have x: "week_left_x fraction_layout 4 = 4"
    using fl_tie_even by (simp add: week_left_x_def fraction_layout_def fl_numeral add.commute)
  have p: "(2::real) powr real_of_int (- 51) = 1 / 2 ^ 51"
    by (simp add: powr_minus powr_numeral_2 inverse_eq_divide)
  have d: "fl (6755399441055743 / 2251799813685248) = 6755399441055743 / 2251799813685248"
    using fl_dyadic [of "3 * 2 ^ 51 - 1" "- 51"] unfolding p by simp
  have r: "week_ratio fraction_layout 4 = 3 - 1 / 2 ^ 51"
    by (simp add: week_ratio_def fraction_layout_def Let_def fl_one d)
  have f: "\<lfloor>(3::real) - 1 / 2 ^ 51\<rfloor> = 2" by (simp add: floor_eq_iff)
  have w1: "week_width fraction_layout = 1" and o1: "origin_week fraction_layout = 1"
    by (simp_all add: fraction_layout_def)
  show ?thesis
    unfolding x by (simp add: week_from_x_def Let_def r f w1 o1)
qed

text \<open>
  Claim C6, corrected. The functions compute in floating point, and the snapping rule of
  \<^verbatim>\<open>week_from_x\<close> rounds the week offset from \<^verbatim>\<open>origin_week\<close>, not the week. For a layout
  whose week width is not zero (with a zero width the division raises):

  \<^item> \<^verbatim>\<open>week_from_x(week_left_x(w), snap=True)\<close> is \<open>w\<close> for every week at most \<open>2 ^ 40\<close> weeks
    from the origin week, when the label width is at most \<open>2 ^ 40\<close> week widths;
  \<^item> with \<open>snap\<close> true the result is the origin week plus an integer within one half of
    the computed ratio, up to the rounding of the sum \<open>ratio \<plusminus> 0.5\<close>, and the computed
    ratio is \<open>(x - label_width) / week_width\<close> up to a relative error of \<open>2 ^ -50\<close>;
  \<^item> when the computed ratio is a multiple of one half below \<open>2 ^ 51\<close>, which covers every
    tie, the result is the origin week plus the ratio rounded to the nearest integer with
    a tie going away from zero;
  \<^item> with \<open>snap\<close> false the result is the origin week plus the floor of the computed ratio;
    it undoes \<^verbatim>\<open>week_left_x\<close> when the label width is an integer and the numbers involved
    are below \<open>2 ^ 53\<close>, so that no operation rounds.
\<close>

theorem week_from_x_inverse:
  assumes "week_width L \<noteq> 0"
  shows "(\<bar>w - origin_week L\<bar> \<le> 2 ^ 40
            \<and> \<bar>label_width L\<bar> \<le> 2 ^ 40 * \<bar>real_of_int (week_width L)\<bar>
          \<longrightarrow> week_from_x L (week_left_x L w) True = Some w)
       \<and> (\<exists>n. week_from_x L x True = Some (origin_week L + n)
              \<and> \<bar>real_of_int n - week_ratio L x\<bar>
                   \<le> 1/2 + (\<bar>week_ratio L x\<bar> + 1/2) / 2 ^ 53)
       \<and> \<bar>week_ratio L x - (x - label_width L) / real_of_int (week_width L)\<bar>
            \<le> \<bar>(x - label_width L) / real_of_int (week_width L)\<bar> / 2 ^ 50
       \<and> (week_ratio L x = real_of_int k / 2 \<and> \<bar>k\<bar> < 2 ^ 52
          \<longrightarrow> week_from_x L x True =
                Some (origin_week L + round_half_away_from_zero (week_ratio L x)))
       \<and> week_from_x L x False = Some (origin_week L + \<lfloor>week_ratio L x\<rfloor>)
       \<and> (label_width L = real_of_int a \<and> \<bar>week_width L\<bar> < 2 ^ 53
            \<and> \<bar>a\<bar> + \<bar>(w - origin_week L) * week_width L\<bar> < 2 ^ 53
          \<longrightarrow> week_from_x L (week_left_x L w) False = Some w)"
proof (intro conjI impI)
  show "week_from_x L (week_left_x L w) True = Some w"
    if "\<bar>w - origin_week L\<bar> \<le> 2 ^ 40
        \<and> \<bar>label_width L\<bar> \<le> 2 ^ 40 * \<bar>real_of_int (week_width L)\<bar>"
    using that assms by (simp add: week_from_x_week_left_x)
  show "\<exists>n. week_from_x L x True = Some (origin_week L + n)
           \<and> \<bar>real_of_int n - week_ratio L x\<bar> \<le> 1/2 + (\<bar>week_ratio L x\<bar> + 1/2) / 2 ^ 53"
    by (rule week_from_x_near [OF assms])
  show "\<bar>week_ratio L x - (x - label_width L) / real_of_int (week_width L)\<bar>
          \<le> \<bar>(x - label_width L) / real_of_int (week_width L)\<bar> / 2 ^ 50"
    by (rule week_ratio_error [OF assms])
  show "week_from_x L x True = Some (origin_week L + round_half_away_from_zero (week_ratio L x))"
    if "week_ratio L x = real_of_int k / 2 \<and> \<bar>k\<bar> < 2 ^ 52"
    using that by (intro week_from_x_half_steps [OF assms, of x k]) simp_all
  show "week_from_x L x False = Some (origin_week L + \<lfloor>week_ratio L x\<rfloor>)"
    using assms by (simp add: week_from_x_floor)
  show "week_from_x L (week_left_x L w) False = Some w"
    if "label_width L = real_of_int a \<and> \<bar>week_width L\<bar> < 2 ^ 53
        \<and> \<bar>a\<bar> + \<bar>(w - origin_week L) * week_width L\<bar> < 2 ^ 53"
    using that by (intro week_from_x_floor_week_left_x [OF assms, of a w]) simp_all
qed

theorem week_from_x_inverse_witness:
  "week_width sample_layout \<noteq> 0
   \<and> week_from_x sample_layout (week_left_x sample_layout 7) True = Some 7
   \<and> week_from_x sample_layout 160 True = Some 3
   \<and> week_from_x sample_layout 160 False = Some 2
   \<and> week_from_x sample_layout (week_left_x sample_layout 7) False = Some 7"
proof -
  have h: "week_width sample_layout \<noteq> 0" by (simp add: sample_layout_fields)
  have r: "round_half_away_from_zero (3 / 2) = 2" "\<lfloor>3 / (2::real)\<rfloor> = 1"
    by (simp_all add: round_half_away_from_zero_def)
  show ?thesis
    using h week_from_x_inverse [OF h, of 7 160 3 100]
    by (simp add: sample_layout_fields sample_week_ratio_half r)
qed

text \<open>
  The claim as worded fails in three ways. One half week left of the origin, at \<open>x = 80\<close>
  in the sample layout, the week coordinate is \<open>0.5\<close> and its nearest integer with the tie
  going away from zero is week 1, but the code rounds the offset \<open>-0.5\<close> to \<open>-1\<close> and
  returns week 0. For a week beyond \<open>2 ^ 52\<close> the sum \<open>ratio + 0.5\<close> is rounded to an even
  float and the round trip with \<open>snap\<close> true returns the next week. With a label width that
  is not an integer the sum in \<^verbatim>\<open>week_left_x\<close> can round down, and the floor of the round
  trip with \<open>snap\<close> false is the week before.
\<close>

theorem week_from_x_counterexample:
  "week_from_x sample_layout 80 True = Some 0
   \<and> nearest_week sample_layout 80 = 1
   \<and> week_from_x unit_layout (week_left_x unit_layout (2 ^ 52 + 2)) True = Some (2 ^ 52 + 3)
   \<and> week_from_x fraction_layout (week_left_x fraction_layout 4) False = Some 3"
proof -
  have h: "week_width sample_layout \<noteq> 0" by (simp add: sample_layout_fields)
  have "week_from_x sample_layout 80 True = Some 0"
    using week_from_x_half_steps [OF h, of 80 "- 1"]
    by (simp add: sample_week_ratio_tie sample_layout_fields round_half_away_from_zero_def)
  moreover have "nearest_week sample_layout 80 = 1"
    by (simp add: nearest_week_def sample_layout_fields round_half_away_from_zero_def)
  ultimately show ?thesis
    using unit_layout_round_trip fraction_layout_floor by simp
qed

subsection \<open>Anchor points\<close>

lemma object_anchor_point_milestone:
  "kind obj = ''milestone'' \<Longrightarrow> object_anchor_point c (Some L) obj = Some p \<Longrightarrow>
   fst p = week_left_x L (start_week obj)"
  by (auto simp add: object_anchor_point_def split: if_splits option.splits)

lemma object_anchor_point_circle:
  "kind obj = ''circle'' \<Longrightarrow> object_anchor_point c (Some L) obj = Some p \<Longrightarrow>
   fst p = week_center_x L (start_week obj)"
  by (auto simp add: object_anchor_point_def split: if_splits option.splits)

lemma object_anchor_point_deadline:
  "kind obj = ''deadline'' \<Longrightarrow>
   object_anchor_point c (Some L) obj =
     Some (week_center_x L (start_week obj), header_height L + total_height L / 2)"
  by (simp add: object_anchor_point_def)

lemma object_center_for_link_deadline:
  "kind obj = ''deadline'' \<Longrightarrow>
   object_center_for_link c obj L =
     Some (week_left_x L (start_week obj), header_height L + total_height L / 2)"
  by (simp add: object_center_for_link_def)

lemma kind_init [simp]: "kind (CanvasObject_init c i k r s e) = k"
  by (simp add: CanvasObject_init_def)

lemma start_week_init [simp]: "start_week (CanvasObject_init c i k r s e) = s"
  by (simp add: CanvasObject_init_def)

text \<open>
  Claim C8. For a milestone and a circle the controller's anchor point has the x-coordinate
  the claim names (the two lemmas above). For a deadline it does not: the controller's
  \<^verbatim>\<open>_object_anchor_point\<close> reads \<^verbatim>\<open>week_center_x\<close>, while the renderer's
  \<^verbatim>\<open>_object_center_for_link\<close> reads \<^verbatim>\<open>week_left_x\<close>. Evaluated on a deadline at week 3
  in the sample layout (label width 100, week width 40, origin week 1), the controller
  answers x = 200, the renderer x = 180, which is the left edge of week 3.
\<close>

theorem deadline_anchor_point_center_x:
  "object_anchor_point sample_constants (Some sample_layout)
     (CanvasObject_init sample_constants ''dl'' ''deadline'' ''t1'' 3 3) = Some (200, 130)
   \<and> object_center_for_link sample_constants
     (CanvasObject_init sample_constants ''dl'' ''deadline'' ''t1'' 3 3) sample_layout = Some (180, 130)
   \<and> week_left_x sample_layout 3 = 180"
  by (simp add: object_anchor_point_deadline object_center_for_link_deadline
      week_center_x_def week_left_x_def sample_layout_def fl_eval)


subsection \<open>Edits that change nothing\<close>

lemma replace_no_changes [simp]: "replace obj no_changes = obj"
  by (simp add: replace_def no_changes_def if_not_none_def)

lemma update_object_missing:
  "map_of (objects st) oid = None \<Longrightarrow> update_object c st oid ch skip defer = Some st"
  by (simp add: update_object_def)

lemma nad_none: "normalize_arrow_direction ''none'' = ''none''"
  by (rule nad_fix) simp

lemma kind_sample_box: "kind sample_box = ''box''"
  by (simp add: sample_box_def CanvasObject_init_def)

lemma normalize_sample_box: "normalize_object sample_constants sample_box = sample_box"
  by (simp add: normalize_box [OF kind_sample_box] html_cleared_def)
     (simp add: sample_box_def CanvasObject_init_def empty_to_none_def nad_none
        sample_constants_def)

lemma kind_oversized_box: "kind oversized_box = ''box''"
  by (simp add: oversized_box_def sample_box_def CanvasObject_init_def)

lemma normalize_oversized_box: "normalize_object sample_constants oversized_box = sample_box"
  by (simp add: normalize_box [OF kind_oversized_box] html_cleared_def)
     (simp add: oversized_box_def sample_box_def CanvasObject_init_def empty_to_none_def
        nad_none sample_constants_def)

lemma oversized_box_differs: "sample_box \<noteq> oversized_box"
proof
  assume "sample_box = oversized_box"
  then have "obj_size sample_box = obj_size oversized_box" by simp
  then show False
    by (simp add: oversized_box_def sample_box_def CanvasObject_init_def sample_constants_def)
qed

text \<open>
  Claim C4, as the code has it. An edit whose result, after normalization, equals the
  stored object returns the controller's state as it was: nothing is pushed and no object
  changes. The empty edit is such an edit exactly when the stored object is already
  normalized, which holds for every object that was added or updated through the
  controller.
\<close>

theorem update_object_no_op:
  assumes "map_of (objects st) oid = Some obj"
  shows "(normalize_object c (replace obj ch) = obj \<longrightarrow>
            update_object c st oid ch skip defer = Some st)
       \<and> (normalize_object c obj = obj \<longrightarrow>
            update_object c st oid no_changes skip defer = Some st)"
  using assms by (simp add: update_object_def)

theorem update_object_no_op_witness:
  "map_of (objects (ProjectController_init sample_constants [(''b1'', sample_box)])) ''b1''
     = Some sample_box
   \<and> normalize_object sample_constants sample_box = sample_box
   \<and> update_object sample_constants
        (ProjectController_init sample_constants [(''b1'', sample_box)])
        ''b1'' no_changes None False
     = Some (ProjectController_init sample_constants [(''b1'', sample_box)])"
proof -
  have h: "map_of (objects (ProjectController_init sample_constants [(''b1'', sample_box)])) ''b1''
     = Some sample_box"
    by (simp add: ProjectController_init_def)
  show ?thesis
    using h normalize_sample_box
      update_object_no_op [OF h, of sample_constants no_changes None False]
    by simp
qed

text \<open>
  The claim as stated fails on a stored object that is not normalized: the empty edit of
  the box of size 9 pushes an update command that stores the box with size 5.
\<close>

theorem update_object_empty_changes_counterexample:
  "update_object sample_constants
     (ProjectController_init sample_constants [(''b1'', oversized_box)])
     ''b1'' no_changes None False
   = Some ((ProjectController_init sample_constants [(''b1'', oversized_box)])
       \<lparr>objects := [(''b1'', sample_box)],
        done_commands := [UpdateObjectCommand oversized_box sample_box]\<rparr>)"
proof -
  have lk: "links_for_target [(''b1'', oversized_box)] ''b1'' {} = []"
    by (simp add: links_for_target_def kind_oversized_box)
  have oid: "obj_id oversized_box = ''b1''"
    by (simp add: oversized_box_def sample_box_def CanvasObject_init_def)
  show ?thesis
    by (simp add: update_object_def Let_def normalize_oversized_box oversized_box_differs lk
        kind_oversized_box ProjectController_init_def push_def model_update_object_def oid
        remember_defaults_def target_cascade_def source_link_updates_def push_updates_def)
qed

subsection \<open>Sample store\<close>

lemmas sample_defs = sample_box_def sample_textbox_def sample_link1_def sample_link2_def
  sample_connector_def CanvasObject_init_def

lemma sample_store_wf: "wf_objects sample_store"
  by (simp add: wf_objects_def sample_store_def sample_defs)

lemma sample_related_links: "related_links sample_store ''b1'' = [sample_link1, sample_link2]"
  by (simp add: related_links_def sample_store_def sample_defs)

lemma sample_related_connectors: "related_connectors sample_store ''b1'' = [sample_connector]"
  by (simp add: related_connectors_def sample_store_def sample_defs)

lemma sample_ids:
  "obj_id sample_box = ''b1''" "obj_id sample_textbox = ''tb1''" "obj_id sample_link1 = ''l1''"
  "obj_id sample_link2 = ''l2''" "obj_id sample_connector = ''c1''"
  by (simp_all add: sample_defs)


subsection \<open>Removing an object with its attachments\<close>

lemma map_of_model_remove_object [simp]:
  "map_of (model_remove_object k objs) = (map_of objs)(k := None)"
  by (auto simp add: model_remove_object_def AList.delete_conv')

lemma map_of_model_add_object [simp]:
  "map_of (model_add_object obj objs) = (map_of objs)(obj_id obj \<mapsto> obj)"
  by (simp add: model_add_object_def AList.update_conv')

lemma wf_objects_lookup:
  "wf_objects objs \<Longrightarrow> obj \<in> set (map snd objs) \<Longrightarrow> map_of objs (obj_id obj) = Some obj"
  by (auto simp add: wf_objects_def list_all_iff)

lemma wf_objects_key:
  "wf_objects objs \<Longrightarrow> map_of objs k = Some obj \<Longrightarrow> obj_id obj = k"
  by (auto simp add: wf_objects_def list_all_iff dest!: map_of_SomeD)

lemma push_in_macro:
  "open_macros st = m # ms \<Longrightarrow>
   push cmd st = st\<lparr>objects := redo cmd (objects st), open_macros := (m @ [cmd]) # ms\<rparr>"
  by (simp add: push_def)

lemma fold_push_in_macro:
  "open_macros st = m # ms \<Longrightarrow>
   fold (\<lambda>x. push (f x)) xs st =
     st\<lparr>objects := fold (\<lambda>x. redo (f x)) xs (objects st),
        open_macros := (m @ map f xs) # ms\<rparr>"
proof (induction xs arbitrary: st m)
  case Nil
  then show ?case by simp
next
  case (Cons x xs)
  have "open_macros (push (f x) st) = (m @ [f x]) # ms"
    using Cons.prems by (simp add: push_in_macro)
  from Cons.IH [OF this] show ?case
    using Cons.prems by (simp add: push_in_macro)
qed

lemma map_of_fold_remove:
  "map_of (fold (\<lambda>obj. model_remove_object (obj_id obj)) os objs) k =
     (if k \<in> obj_id ` set os then None else map_of objs k)"
  by (induction os arbitrary: objs) auto

lemma map_of_fold_add:
  assumes "\<forall>obj \<in> set os. m0 (obj_id obj) = Some obj"
    and "\<forall>k. k \<notin> obj_id ` set os \<longrightarrow> map_of objs k = m0 k"
  shows "map_of (fold model_add_object os objs) = m0"
  using assms
proof (induction os arbitrary: objs)
  case Nil
  then show ?case by auto
next
  case (Cons a os)
  have "\<forall>k. k \<notin> obj_id ` set os \<longrightarrow> map_of (model_add_object a objs) k = m0 k"
    using Cons.prems by auto
  moreover have "\<forall>obj \<in> set os. m0 (obj_id obj) = Some obj"
    using Cons.prems by simp
  ultimately show ?case using Cons.IH by simp
qed

lemma undo_remove_fun [simp]: "undo (RemoveObjectCommand x) = model_add_object x"
  by (rule ext) simp

lemma redo_remove_fun [simp]: "redo (RemoveObjectCommand x) = model_remove_object (obj_id x)"
  by (rule ext) simp

lemma macro_of_pushes:
  assumes "open_macros st = []"
  shows "endMacro (fold (\<lambda>x. push (f x)) xs (beginMacro st)) =
     st\<lparr>objects := fold (\<lambda>x. redo (f x)) xs (objects st),
        undone_commands := [],
        done_commands := Macro (map f xs) # done_commands st\<rparr>"
proof -
  have b: "beginMacro st = st\<lparr>undone_commands := [], open_macros := [[]]\<rparr>"
    using assms by (simp add: beginMacro_def)
  have o: "open_macros (beginMacro st) = [] # []"
    by (simp add: b)
  show ?thesis
    by (simp add: fold_push_in_macro [OF o] endMacro_def) (simp add: b assms)
qed

lemma remove_object_macro:
  assumes "open_macros st = []" and "map_of (objects st) oid = Some obj"
    and "related_links (objects st) oid \<noteq> [] \<or> related_connectors (objects st) oid \<noteq> []"
  shows "remove_object st oid =
     st\<lparr>objects := fold (\<lambda>obj. model_remove_object (obj_id obj))
                      (removed_with (objects st) oid obj) (objects st),
        undone_commands := [],
        done_commands :=
          Macro (map RemoveObjectCommand (removed_with (objects st) oid obj)) # done_commands st\<rparr>"
proof -
  have "remove_object st oid =
      endMacro (fold (\<lambda>x. push (RemoveObjectCommand x)) (removed_with (objects st) oid obj)
        (beginMacro st))"
    using assms(2,3) by (simp add: remove_object_def removed_with_def)
  then show ?thesis
    by (simp add: macro_of_pushes [OF assms(1)])
qed

lemma stack_undo_macro:
  assumes "open_macros st = []" and "done_commands st = Macro cmds # rest"
  shows "stack_undo st =
     st\<lparr>objects := fold undo (rev cmds) (objects st), done_commands := rest,
        undone_commands := Macro cmds # undone_commands st\<rparr>"
  using assms by (simp add: stack_undo_def)

text \<open>
  Claim C1. In a store that is a dictionary keyed by id, with no macro open, removing an
  object that at least one link or connector references pushes one macro: the removals of
  every such link, of every such connector and of the object itself, in this order.
  Afterwards none of them is in the model. One undo of the stack then gives back a
  dictionary equal to the one before the removal, so the object and all its attachments
  are present with their original field values, and the stack is as it was.
\<close>

theorem remove_object_cascade:
  assumes wf: "wf_objects (objects st)"
    and no_macro: "open_macros st = []"
    and present: "map_of (objects st) oid = Some obj"
    and attached: "related_links (objects st) oid \<noteq> [] \<or> related_connectors (objects st) oid \<noteq> []"
  shows "done_commands (remove_object st oid) =
           Macro (map RemoveObjectCommand
                    (related_links (objects st) oid @ related_connectors (objects st) oid @ [obj]))
             # done_commands st
       \<and> (\<forall>x \<in> set (related_links (objects st) oid @ related_connectors (objects st) oid @ [obj]).
            map_of (objects (remove_object st oid)) (obj_id x) = None)
       \<and> map_of (objects (stack_undo (remove_object st oid))) = map_of (objects st)
       \<and> (\<forall>x \<in> set (related_links (objects st) oid @ related_connectors (objects st) oid @ [obj]).
            map_of (objects (stack_undo (remove_object st oid))) (obj_id x) = Some x)
       \<and> done_commands (stack_undo (remove_object st oid)) = done_commands st"
proof -
  let ?rm = "removed_with (objects st) oid obj"
  let ?st' = "remove_object st oid"
  have rm: "?st' = st\<lparr>objects := fold (\<lambda>obj. model_remove_object (obj_id obj)) ?rm (objects st),
        undone_commands := [],
        done_commands := Macro (map RemoveObjectCommand ?rm) # done_commands st\<rparr>"
    by (rule remove_object_macro [OF no_macro present attached])
  have sub: "set ?rm \<subseteq> set (map snd (objects st))"
    using present by (auto simp add: removed_with_def related_links_def related_connectors_def
        dest!: map_of_SomeD) force
  have look: "\<forall>x \<in> set ?rm. map_of (objects st) (obj_id x) = Some x"
    using sub wf_objects_lookup [OF wf] by blast
  have gone: "\<forall>x \<in> set ?rm. map_of (objects ?st') (obj_id x) = None"
    by (simp add: rm map_of_fold_remove)
  have om: "open_macros ?st' = []" and dc: "done_commands ?st' = Macro (map RemoveObjectCommand ?rm) # done_commands st"
    using no_macro by (simp_all add: rm)
  have un: "stack_undo ?st' = ?st'\<lparr>objects := fold undo (rev (map RemoveObjectCommand ?rm)) (objects ?st'),
        done_commands := done_commands st,
        undone_commands := Macro (map RemoveObjectCommand ?rm) # undone_commands ?st'\<rparr>"
    by (rule stack_undo_macro [OF om dc])
  have restored: "map_of (objects (stack_undo ?st')) = map_of (objects st)"
  proof -
    have "objects (stack_undo ?st') = fold model_add_object (rev ?rm) (objects ?st')"
      by (subst un) (simp add: rev_map fold_map comp_def)
    moreover have "map_of (fold model_add_object (rev ?rm) (objects ?st')) = map_of (objects st)"
    proof (rule map_of_fold_add)
      show "\<forall>obj \<in> set (rev ?rm). map_of (objects st) (obj_id obj) = Some obj"
        using look by simp
      show "\<forall>k. k \<notin> obj_id ` set (rev ?rm) \<longrightarrow> map_of (objects ?st') k = map_of (objects st) k"
        by (simp add: rm map_of_fold_remove)
    qed
    ultimately show ?thesis by simp
  qed
  have dn: "done_commands (stack_undo ?st') = done_commands st"
    by (subst un) simp
  show ?thesis
    using dc gone restored look dn by (simp add: removed_with_def)
qed

theorem remove_object_cascade_witness:
  "wf_objects (objects (ProjectController_init sample_constants sample_store))
   \<and> open_macros (ProjectController_init sample_constants sample_store) = []
   \<and> map_of (objects (ProjectController_init sample_constants sample_store)) ''b1''
       = Some sample_box
   \<and> related_links (objects (ProjectController_init sample_constants sample_store)) ''b1'' \<noteq> []
   \<and> done_commands (remove_object (ProjectController_init sample_constants sample_store) ''b1'')
       = [Macro [RemoveObjectCommand sample_link1, RemoveObjectCommand sample_link2,
                 RemoveObjectCommand sample_connector, RemoveObjectCommand sample_box]]
   \<and> map_of (objects (remove_object (ProjectController_init sample_constants sample_store) ''b1''))
         ''l1'' = None
   \<and> map_of (objects (stack_undo
         (remove_object (ProjectController_init sample_constants sample_store) ''b1'')))
       = map_of sample_store"
proof -
  let ?st = "ProjectController_init sample_constants sample_store"
  have o: "objects ?st = sample_store" by (simp add: ProjectController_init_def)
  have h1: "wf_objects (objects ?st)" by (simp add: o sample_store_wf)
  have h2: "open_macros ?st = []" by (simp add: ProjectController_init_def)
  have h3: "map_of (objects ?st) ''b1'' = Some sample_box"
    unfolding o by (simp add: sample_store_def)
  have h4: "related_links (objects ?st) ''b1'' \<noteq> [] \<or> related_connectors (objects ?st) ''b1'' \<noteq> []"
    by (simp add: o sample_related_links)
  have d: "done_commands ?st = []" by (simp add: ProjectController_init_def)
  show ?thesis
    using remove_object_cascade [OF h1 h2 h3 h4] h1 h2 h3
    by (simp add: o d sample_related_links sample_related_connectors sample_ids)
qed

subsection \<open>One anchor link for each textbox\<close>

lemma model_remove_object_filter:
  "model_remove_object k objs = filter (\<lambda>p. fst p \<noteq> k) objs"
proof (cases "map_of objs k")
  case None
  then have "\<forall>p \<in> set objs. fst p \<noteq> k"
    by (metis map_of_eq_None_iff image_eqI)
  then have "filter (\<lambda>p. fst p \<noteq> k) objs = objs" by simp
  with None show ?thesis by (simp add: model_remove_object_def)
next
  case (Some a)
  have "AList.delete k objs = filter (\<lambda>p. fst p \<noteq> k) objs"
    by (induction objs) auto
  with Some show ?thesis by (simp add: model_remove_object_def)
qed

lemma fold_remove_filter:
  "fold (\<lambda>obj. model_remove_object (obj_id obj)) os objs =
     filter (\<lambda>p. fst p \<notin> obj_id ` set os) objs"
proof (induction os arbitrary: objs)
  case Nil
  then show ?case by simp
next
  case (Cons a os)
  have "fold (\<lambda>obj. model_remove_object (obj_id obj)) (a # os) objs =
        fold (\<lambda>obj. model_remove_object (obj_id obj)) os (model_remove_object (obj_id a) objs)"
    by simp
  also have "\<dots> = filter (\<lambda>p. fst p \<notin> obj_id ` set os) (model_remove_object (obj_id a) objs)"
    by (rule Cons.IH)
  also have "\<dots> = filter (\<lambda>p. fst p \<notin> obj_id ` set os) (filter (\<lambda>p. fst p \<noteq> obj_id a) objs)"
    by (simp only: model_remove_object_filter)
  also have "\<dots> = filter (\<lambda>p. fst p \<notin> obj_id ` set (a # os)) objs"
    by (induction objs) auto
  finally show ?case .
qed

lemma no_links_after_removal:
  assumes "wf_objects objs"
    and "v \<in> set (map snd (fold (\<lambda>obj. model_remove_object (obj_id obj))
                     (links_from_source objs sid) objs))"
  shows "\<not> (kind v = ''link'' \<and> link_source_id v = Some sid)"
proof
  assume p: "kind v = ''link'' \<and> link_source_id v = Some sid"
  from assms(2) obtain k where kv: "(k, v) \<in> set objs"
    and keep: "k \<notin> obj_id ` set (links_from_source objs sid)"
    by (auto simp add: fold_remove_filter)
  from kv assms(1) have "obj_id v = k"
    by (auto simp add: wf_objects_def list_all_iff)
  moreover from kv p have "v \<in> set (links_from_source objs sid)"
    by (force simp add: links_from_source_def)
  ultimately show False using keep by blast
qed

lemma filter_update_single:
  assumes "P v" and "\<forall>w \<in> set (map snd al). \<not> P w"
  shows "filter P (map snd (AList.update k v al)) = [v]"
  using assms by (induction al) auto

lemma links_from_source_after_add:
  assumes "kind v = ''link'' \<and> link_source_id v = Some sid"
    and "\<forall>w \<in> set (map snd al). \<not> (kind w = ''link'' \<and> link_source_id w = Some sid)"
  shows "links_from_source (AList.update k v al) sid = [v]"
  unfolding links_from_source_def
  by (rule filter_update_single
      [where P = "\<lambda>obj. kind obj = ''link'' \<and> link_source_id obj = Some sid", OF assms])

lemma add_object_nonzero:
  "z_index obj \<noteq> 0 \<Longrightarrow> add_object c st obj = push (AddObjectCommand (normalize_object c obj)) st"
  by (simp add: add_object_def)

lemma macro_of_commands:
  assumes "open_macros st = []"
  shows "endMacro (fold push cmds (beginMacro st)) =
     st\<lparr>objects := fold redo cmds (objects st),
        undone_commands := [],
        done_commands := Macro cmds # done_commands st\<rparr>"
  using macro_of_pushes [OF assms, of "\<lambda>x. x" cmds] by simp

lemma kind_link_fields:
  assumes "kind obj = ''link''"
  shows "obj_id (normalize_object c obj) = obj_id obj"
    and "link_source_id (normalize_object c obj) = link_source_id obj"
    and "link_target_id (normalize_object c obj) = link_target_id obj"
  by (simp_all add: normalize_link [OF assms] html_cleared_def)

text \<open>
  Claim C10. When \<^verbatim>\<open>add_anchor_link\<close> passes all its guards (the source is a textbox in
  the model, the target is in the model and is no link, textbox or connector, the two ids
  differ, a layout is set and the target's anchor point resolves), it pushes one macro
  that first removes every link whose source is the textbox and then adds the new link;
  afterwards exactly one link of the model has that source, the new one. The store is a
  dictionary keyed by id and no macro is open at the call.
\<close>

theorem add_anchor_link_single:
  assumes wf: "wf_objects (objects st)"
    and no_macro: "open_macros st = []"
    and src: "map_of (objects st) source_id = Some source" "kind source = ''textbox''"
    and tgt: "map_of (objects st) target_id = Some target"
      "kind target \<notin> {''link'', ''textbox'', ''connector''}"
    and ne: "source_id \<noteq> target_id"
    and lay: "layout st = Some L"
    and pt: "object_anchor_point c (Some L) target = Some p"
  shows "\<exists>link.
     done_commands (add_anchor_link c st source_id target_id side offset nid) =
       Macro (map RemoveObjectCommand (links_from_source (objects st) source_id)
              @ [AddObjectCommand link]) # done_commands st
     \<and> links_from_source (objects (add_anchor_link c st source_id target_id side offset nid))
         source_id = [link]
     \<and> obj_id link = nid \<and> kind link = ''link''
     \<and> link_source_id link = Some source_id \<and> link_target_id link = Some target_id"
proof -
  define z where "z = (if min (z_index source) (z_index target) - 1 = 0 then - 1
                        else min (z_index source) (z_index target) - 1)"
  define link_obj where "link_obj =
      anchor_link_object c nid source_id target_id (side_or_right side) (offset_value offset)
        (fst (textbox_anchor_point c source (Some (side_or_right side)) (Some (offset_value offset)))
           - fst p)
        (snd (textbox_anchor_point c source (Some (side_or_right side)) (Some (offset_value offset)))
           - snd p) z"
  have z: "z \<noteq> 0" by (simp add: z_def)
  have lk: "kind link_obj = ''link''" "z_index link_obj \<noteq> 0"
      "obj_id link_obj = nid" "link_source_id link_obj = Some source_id"
      "link_target_id link_obj = Some target_id"
    using z by (simp_all add: link_obj_def anchor_link_object_def CanvasObject_init_def)
  have eq: "add_anchor_link c st source_id target_id side offset nid =
      endMacro (add_object c
        (fold (\<lambda>link. push (RemoveObjectCommand link)) (links_from_source (objects st) source_id)
          (beginMacro st)) link_obj)"
    using src tgt ne lay pt
    by (simp add: add_anchor_link_def Let_def link_obj_def z_def)
  let ?nl = "normalize_object c link_obj"
  let ?ex = "links_from_source (objects st) source_id"
  let ?cmds = "map RemoveObjectCommand ?ex @ [AddObjectCommand ?nl]"
  define objs' where "objs' = fold redo ?cmds (objects st)"
  have e1: "add_anchor_link c st source_id target_id side offset nid =
      endMacro (fold push ?cmds (beginMacro st))"
    by (simp add: eq add_object_nonzero [OF lk(2)] fold_map comp_def)
  have res: "add_anchor_link c st source_id target_id side offset nid =
     st\<lparr>objects := objs', undone_commands := [],
        done_commands := Macro ?cmds # done_commands st\<rparr>"
    unfolding e1 objs'_def by (rule macro_of_commands [OF no_macro])
  have objs: "objs' =
      AList.update nid ?nl (fold (\<lambda>obj. model_remove_object (obj_id obj)) ?ex (objects st))"
    by (simp add: objs'_def fold_map comp_def model_add_object_def kind_link_fields [OF lk(1)] lk)
  have P: "kind ?nl = ''link'' \<and> link_source_id ?nl = Some source_id"
    by (simp add: lk kind_link_fields [OF lk(1)])
  have one: "links_from_source objs' source_id = [?nl]"
    unfolding objs
  proof (rule links_from_source_after_add [OF P])
    show "\<forall>w \<in> set (map snd (fold (\<lambda>obj. model_remove_object (obj_id obj)) ?ex (objects st))).
        \<not> (kind w = ''link'' \<and> link_source_id w = Some source_id)"
      using no_links_after_removal [OF wf] by blast
  qed
  show ?thesis
    by (rule exI [of _ ?nl]) (simp add: res one lk kind_link_fields [OF lk(1)])
qed


lemma sample_box_anchor:
  "object_anchor_point sample_constants (Some sample_layout) sample_box = Some (520, 160)"
  by (simp add: object_anchor_point_def sample_box_def CanvasObject_init_def sample_layout_def
      row_height_def row_top_y_def size_scale_def week_left_x_def Let_def fl_eval)

theorem add_anchor_link_single_witness:
  "wf_objects (objects (set_layout (ProjectController_init sample_constants sample_store) sample_layout))
   \<and> open_macros (set_layout (ProjectController_init sample_constants sample_store) sample_layout) = []
   \<and> kind sample_textbox = ''textbox''
   \<and> kind sample_box \<notin> {''link'', ''textbox'', ''connector''}
   \<and> links_from_source sample_store ''tb1'' = [sample_link1]
   \<and> length (links_from_source
        (objects (add_anchor_link sample_constants
           (set_layout (ProjectController_init sample_constants sample_store) sample_layout)
           ''tb1'' ''b1'' (Some ''right'') (Some (1/2)) ''n1'')) ''tb1'') = 1"
proof -
  let ?st = "set_layout (ProjectController_init sample_constants sample_store) sample_layout"
  have o: "objects ?st = sample_store" by (simp add: ProjectController_init_def set_layout_def)
  have h1: "wf_objects (objects ?st)" by (simp add: o sample_store_wf)
  have h2: "open_macros ?st = []" by (simp add: ProjectController_init_def set_layout_def)
  have h3: "map_of (objects ?st) ''tb1'' = Some sample_textbox"
    unfolding o by (simp add: sample_store_def)
  have h4: "kind sample_textbox = ''textbox''" by (simp add: sample_defs)
  have h5: "map_of (objects ?st) ''b1'' = Some sample_box"
    unfolding o by (simp add: sample_store_def)
  have h6: "kind sample_box \<notin> {''link'', ''textbox'', ''connector''}" by (simp add: sample_defs)
  have h7: "''tb1'' \<noteq> ''b1''" by simp
  have h8: "layout ?st = Some sample_layout" by (simp add: ProjectController_init_def set_layout_def)
  have ex: "links_from_source sample_store ''tb1'' = [sample_link1]"
    by (simp add: links_from_source_def sample_store_def sample_defs)
  show ?thesis
    using add_anchor_link_single [OF h1 h2 h3 h4 h5 h6 h7 h8 sample_box_anchor,
        of "Some ''right''" "Some (1/2)" "''n1''"] h1 h2 h4 h6 ex
    by auto
qed

subsection \<open>Duplicating an object\<close>

lemma kind_cases [case_names point arrow link connector textbox box other]:
  obtains "kind obj \<in> {''milestone'', ''circle'', ''deadline''}"
  | "kind obj = ''arrow''" | "kind obj = ''link''" | "kind obj = ''connector''"
  | "kind obj = ''textbox''" | "kind obj = ''box''"
  | "kind obj \<notin> {''milestone'', ''circle'', ''deadline'', ''arrow'', ''link'',
         ''connector'', ''textbox'', ''box''}"
  by blast

lemma obj_id_normalize_object [simp]: "obj_id (normalize_object c obj) = obj_id obj"
  unfolding normalize_object_def Let_def by simp

lemma start_week_normalize_object [simp]: "start_week (normalize_object c obj) = start_week obj"
  unfolding normalize_object_def Let_def clamp_week_def by simp

lemma z_index_normalize_object [simp]: "z_index (normalize_object c obj) = z_index obj"
  unfolding normalize_object_def Let_def by simp

lemma end_week_normalize_object:
  "end_week (normalize_object c obj) =
     (if kind obj \<in> {''milestone'', ''circle'', ''deadline''} then start_week obj
      else if kind obj = ''arrow'' then if_not_none (target_week obj) (end_week obj)
      else if kind obj \<in> {''link'', ''connector'', ''textbox''} then end_week obj
      else max (start_week obj) (end_week obj))"
proof (cases obj rule: kind_cases)
  case point
  then show ?thesis by (simp add: normalize_point [OF refl point])
next
  case arrow
  then show ?thesis by (simp add: normalize_arrow)
next
  case link
  then show ?thesis by (simp add: normalize_link html_cleared_def)
next
  case connector
  then show ?thesis by (simp add: normalize_connector html_cleared_def)
next
  case textbox
  then show ?thesis by (simp add: normalize_textbox html_cleared_def)
next
  case box
  then show ?thesis by (simp add: normalize_box)
next
  case other
  then show ?thesis by (simp add: normalize_other)
qed

lemma obj_x_normalize_textbox:
  "kind obj = ''textbox'' \<Longrightarrow> obj_x obj = Some x \<Longrightarrow> obj_x (normalize_object c obj) = Some x"
  by (simp add: normalize_textbox float_or_def)

lemma add_object_stores:
  "z_index obj = next_z_index (objects st) \<Longrightarrow>
   map_of (objects (add_object c st obj)) (obj_id obj) = Some (normalize_object c obj)"
proof -
  assume z: "z_index obj = next_z_index (objects st)"
  have "(if z_index obj = 0 \<and> objects st \<noteq> [] then obj\<lparr>z_index := next_z_index (objects st)\<rparr> else obj) = obj"
    using z by simp
  then have "add_object c st obj = push (AddObjectCommand (normalize_object c obj)) st"
    by (simp add: add_object_def)
  then show ?thesis
    by (cases "open_macros st") (simp_all add: push_def)
qed

text \<open>
  Claim C7, as the code has it. \<^verbatim>\<open>duplicate_object\<close> returns a clone with the new id and
  stores its normalized copy under that id. For an object that is no textbox the clone's
  start and end weeks are those of the object plus \<^verbatim>\<open>_duplicate_offset\<close>; the stored copy
  has the same start week, and, for a normalized object whose target week is unset or
  equal to its end week, the same end week, the offset being \<open>max 1 (|end - start| + 1)\<close>.
  For a textbox the clone's x is the object's x plus its width plus
  \<open>max 10 (width / 10)\<close>: the gap between the two boxes is \<open>max 10 (width / 10)\<close>, the
  shift is larger by the width.
\<close>

theorem duplicate_object_offset:
  assumes present: "map_of (objects st) oid = Some obj"
  shows "\<exists>cl. snd (duplicate_object c st oid nid) = Some cl
     \<and> obj_id cl = nid
     \<and> map_of (objects (fst (duplicate_object c st oid nid))) nid = Some (normalize_object c cl)
     \<and> (kind obj \<noteq> ''textbox'' \<longrightarrow>
          start_week cl = start_week obj + duplicate_offset obj
        \<and> end_week cl = end_week obj + duplicate_offset obj
        \<and> start_week (normalize_object c cl) = start_week obj + duplicate_offset obj
        \<and> (normalize_object c obj = obj
             \<and> (target_week obj = None \<or> target_week obj = Some (end_week obj)) \<longrightarrow>
               end_week (normalize_object c cl) = end_week obj + duplicate_offset obj
             \<and> duplicate_offset obj = max 1 (\<bar>end_week obj - start_week obj\<bar> + 1)))
     \<and> (kind obj = ''textbox'' \<longrightarrow>
          obj_x cl = Some (float_or (obj_x obj) 0 + float_or (obj_width obj) (TEXTBOX_MIN_WIDTH c)
                          + max 10 (float_or (obj_width obj) (TEXTBOX_MIN_WIDTH c) * (1/10)))
        \<and> obj_x (normalize_object c cl) = obj_x cl)"
proof (cases "kind obj = ''textbox''")
  case True
  define cl where "cl = obj\<lparr>obj_id := nid,
      obj_x := Some (float_or (obj_x obj) 0 + float_or (obj_width obj) (TEXTBOX_MIN_WIDTH c)
                       + max 10 (float_or (obj_width obj) (TEXTBOX_MIN_WIDTH c) * (1/10))),
      z_index := next_z_index (objects st)\<rparr>"
  have d: "duplicate_object c st oid nid = (add_object c st cl, Some cl)"
    using present True by (simp add: duplicate_object_def Let_def cl_def)
  have z: "z_index cl = next_z_index (objects st)" and i: "obj_id cl = nid"
    and k: "kind cl = ''textbox''"
    using True by (simp_all add: cl_def)
  have st: "map_of (objects (add_object c st cl)) nid = Some (normalize_object c cl)"
    using add_object_stores [OF z] i by simp
  have x: "obj_x (normalize_object c cl) = obj_x cl"
    using obj_x_normalize_textbox [OF k] by (simp add: cl_def)
  show ?thesis
    by (rule exI [of _ cl]) (use True in \<open>simp add: d i st x\<close>, simp add: cl_def)
next
  case False
  define delta where "delta = duplicate_offset obj"
  define cl where "cl = obj\<lparr>obj_id := nid, start_week := start_week obj + delta,
      end_week := end_week obj + delta,
      target_week := map_option (\<lambda>w. clamp_week (w + delta)) (target_week obj),
      arrow_mid_week := map_option (\<lambda>w. clamp_week (w + delta)) (arrow_mid_week obj),
      z_index := next_z_index (objects st)\<rparr>"
  have d: "duplicate_object c st oid nid = (add_object c st cl, Some cl)"
    using present False by (simp add: duplicate_object_def Let_def cl_def delta_def clamp_week_def)
  have z: "z_index cl = next_z_index (objects st)" and i: "obj_id cl = nid"
    and k: "kind cl = kind obj" and s: "start_week cl = start_week obj + delta"
    and e: "end_week cl = end_week obj + delta"
    and t: "target_week cl = map_option (\<lambda>w. w + delta) (target_week obj)"
    by (simp_all add: cl_def clamp_week_def)
  have st: "map_of (objects (add_object c st cl)) nid = Some (normalize_object c cl)"
    using add_object_stores [OF z] i by simp
  have en: "end_week (normalize_object c cl) = end_week obj + delta"
    if n: "normalize_object c obj = obj"
      and tw: "target_week obj = None \<or> target_week obj = Some (end_week obj)"
  proof -
    have eo: "end_week obj =
       (if kind obj \<in> {''milestone'', ''circle'', ''deadline''} then start_week obj
        else if kind obj = ''arrow'' then if_not_none (target_week obj) (end_week obj)
        else if kind obj \<in> {''link'', ''connector'', ''textbox''} then end_week obj
        else max (start_week obj) (end_week obj))"
      using end_week_normalize_object [of c obj] n by simp
    show ?thesis
      using eo tw
      by (auto simp add: end_week_normalize_object [of c cl] k s e t if_not_none_def
          split: if_splits)
  qed
  have off: "duplicate_offset obj = max 1 (\<bar>end_week obj - start_week obj\<bar> + 1)"
    if "target_week obj = None \<or> target_week obj = Some (end_week obj)"
    using that by (auto simp add: duplicate_offset_def Let_def if_not_none_def)
  show ?thesis
    by (rule exI [of _ cl]) (use False en off in \<open>simp add: d i st s e delta_def\<close>)
qed


lemma normalize_sample_milestone:
  "normalize_object sample_constants sample_milestone = sample_milestone"
proof -
  have k: "kind sample_milestone = ''milestone''"
    by (simp add: sample_milestone_def CanvasObject_init_def)
  show ?thesis
    by (simp add: normalize_milestone [OF k] html_cleared_def)
       (simp add: sample_milestone_def CanvasObject_init_def empty_to_none_def
          sample_constants_def)
qed

theorem duplicate_object_offset_witness:
  "map_of (objects (ProjectController_init sample_constants sample_store)) ''b1'' = Some sample_box
   \<and> kind sample_box \<noteq> ''textbox''
   \<and> normalize_object sample_constants sample_box = sample_box
   \<and> target_week sample_box = None
   \<and> map_option (\<lambda>cl. (start_week cl, end_week cl))
        (map_of (objects (fst (duplicate_object sample_constants
           (ProjectController_init sample_constants sample_store) ''b1'' ''n1''))) ''n1'')
       = Some (13, 15)
   \<and> map_option (\<lambda>cl. (start_week cl, end_week cl))
        (map_of (objects (fst (duplicate_object sample_constants
           (ProjectController_init sample_constants [(''m1'', sample_milestone)]) ''m1'' ''n2'')))
           ''n2'')
       = Some (6, 6)"
proof -
  let ?st = "ProjectController_init sample_constants sample_store"
  let ?sm = "ProjectController_init sample_constants [(''m1'', sample_milestone)]"
  have h: "map_of (objects ?st) ''b1'' = Some sample_box"
    by (simp add: ProjectController_init_def) (simp add: sample_store_def)
  have hm: "map_of (objects ?sm) ''m1'' = Some sample_milestone"
    by (simp add: ProjectController_init_def)
  have k: "kind sample_box \<noteq> ''textbox''" by (simp add: sample_defs)
  have km: "kind sample_milestone \<noteq> ''textbox''"
    by (simp add: sample_milestone_def CanvasObject_init_def)
  have t: "target_week sample_box = None" by (simp add: sample_defs)
  have tm: "target_week sample_milestone = None"
    by (simp add: sample_milestone_def CanvasObject_init_def)
  have w: "start_week sample_box = 10" "end_week sample_box = 12"
    by (simp_all add: sample_defs)
  have wm: "start_week sample_milestone = 5" "end_week sample_milestone = 5"
    by (simp_all add: sample_milestone_def CanvasObject_init_def)
  have a: "map_option (\<lambda>cl. (start_week cl, end_week cl))
        (map_of (objects (fst (duplicate_object sample_constants ?st ''b1'' ''n1''))) ''n1'')
       = Some (13, 15)"
    using duplicate_object_offset [OF h, of sample_constants "''n1''"] k t w
      normalize_sample_box
    by auto
  have b: "map_option (\<lambda>cl. (start_week cl, end_week cl))
        (map_of (objects (fst (duplicate_object sample_constants ?sm ''m1'' ''n2''))) ''n2'')
       = Some (6, 6)"
    using duplicate_object_offset [OF hm, of sample_constants "''n2''"] km tm wm
      normalize_sample_milestone
    by auto
  show ?thesis
    using h k t a b normalize_sample_box by simp
qed

text \<open>
  The textbox part of the claim as stated: duplicating the sample textbox (x = 300, width
  120) gives a clone at x = 432, not at 312 = 300 + max 10 (120 / 10).
\<close>

theorem duplicate_textbox_shift_counterexample:
  "map_option obj_x (snd (duplicate_object sample_constants
       (ProjectController_init sample_constants sample_store) ''tb1'' ''n1'')) = Some (Some 432)
   \<and> (300::real) + max 10 (120 * (1/10)) = 312"
proof -
  have o: "map_of (objects (ProjectController_init sample_constants sample_store)) ''tb1''
      = Some sample_textbox"
    by (simp add: ProjectController_init_def) (simp add: sample_store_def)
  have k: "kind sample_textbox = ''textbox''" by (simp add: sample_defs)
  have x: "float_or (obj_x sample_textbox) 0 = 300"
      "float_or (obj_width sample_textbox) (TEXTBOX_MIN_WIDTH sample_constants) = 120"
    by (simp_all add: sample_defs float_or_def)
  show ?thesis
    by (simp add: duplicate_object_def Let_def o k x)
qed

subsection \<open>The anchor cascade of an update\<close>

lemma objects_push [simp]: "objects (push cmd st) = redo cmd (objects st)"
  by (cases "open_macros st") (simp_all add: push_def)

lemma objects_beginMacro [simp]: "objects (beginMacro st) = objects st"
  by (cases "open_macros st") (simp_all add: beginMacro_def)

lemma objects_endMacro [simp]: "objects (endMacro st) = objects st"
  by (simp add: endMacro_def split: list.splits)

lemma objects_fold_push:
  "objects (fold (\<lambda>u. push (f u)) us st) = fold (\<lambda>u. redo (f u)) us (objects st)"
  by (induction us arbitrary: st) simp_all

lemma apply_update_pair: "apply_update (a, b) objs = model_update_object (obj_id a) b objs"
  by (simp add: apply_update_def)

lemma redo_update_fun: "redo (UpdateObjectCommand (fst u) (snd u)) = apply_update u"
  by (rule ext) (simp add: apply_update_def)

lemma anchor_textbox_update_step:
  assumes "layout st = Some L" and "week_width L \<noteq> 0"
  shows "anchor_textbox_update c st p link = Some (anchor_textbox_step c (objects st) L p link)"
  using assms
  by (simp add: anchor_textbox_update_def anchor_textbox_step_def anchored_source_def
      week_from_x_floor Let_def add.commute split: option.splits)

lemma anchor_textbox_updates_steps:
  assumes "layout st = Some L" and "week_width L \<noteq> 0"
  shows "anchor_textbox_updates c st p links =
     Some (concat (map (anchor_textbox_step c (objects st) L p) links))"
  by (induction links) (simp_all add: anchor_textbox_update_step [OF assms])


lemma map_of_apply_update:
  "map_of (apply_update u objs) k =
     (if obj_id (fst u) = k \<and> map_of objs k \<noteq> None then Some (snd u) else map_of objs k)"
  by (auto simp add: apply_update_def model_update_object_def AList.update_conv')

lemma map_of_fold_apply_update_other:
  "\<forall>u \<in> set us. obj_id (fst u) \<noteq> k \<Longrightarrow> map_of (fold apply_update us objs) k = map_of objs k"
  by (induction us arbitrary: objs) (simp_all add: map_of_apply_update)

lemma map_of_fold_apply_update_same:
  assumes "map_of objs k = Some v" and "\<forall>u \<in> set us. obj_id (fst u) = k \<longrightarrow> snd u = n"
  shows "map_of (fold apply_update us objs) k =
     Some (if \<exists>u \<in> set us. obj_id (fst u) = k then n else v)"
  using assms
proof (induction us arbitrary: objs v)
  case Nil
  then show ?case by simp
next
  case (Cons u us)
  show ?case
  proof (cases "obj_id (fst u) = k")
    case True
    then have "map_of (apply_update u objs) k = Some n"
      using Cons.prems by (simp add: map_of_apply_update)
    from Cons.IH [OF this] Cons.prems(2) True show ?thesis by simp
  next
    case False
    then have "map_of (apply_update u objs) k = Some v"
      using Cons.prems by (simp add: map_of_apply_update)
    from Cons.IH [OF this] Cons.prems(2) False show ?thesis by simp
  qed
qed

lemma objects_push_updates:
  "objects (push_updates st1 obj new casc lu) =
     fold apply_update lu (fold apply_update ((obj, new) # casc) (objects st1))"
proof (cases "1 < length ((obj, new) # casc) \<or> lu \<noteq> []")
  case True
  then show ?thesis
    by (simp add: push_updates_def Let_def objects_fold_push redo_update_fun apply_update_pair)
next
  case False
  then have "casc = []" "lu = []" by simp_all
  then show ?thesis by (simp add: push_updates_def apply_update_pair)
qed

lemma target_cascade_resolved:
  assumes "layout st = Some L" and "week_width L \<noteq> 0"
    and "object_anchor_point c (Some L) new = Some p"
  shows "target_cascade c st oid new skip =
     Some (concat (map (anchor_textbox_step c (objects st) L p)
                     (links_for_target (objects st) oid skip)))"
  using assms
  by (simp add: target_cascade_def Let_def anchor_textbox_updates_steps [OF assms(1,2)]
      del: concat_eq_Nil_conv Nil_eq_concat_conv)

lemma update_object_objects:
  assumes obj: "map_of (objects st) oid = Some obj"
    and changed: "normalize_object c (replace obj ch) \<noteq> obj"
    and lay: "layout st = Some L" and ww: "week_width L \<noteq> 0"
    and pt: "object_anchor_point c (Some L) (normalize_object c (replace obj ch)) = Some p"
  shows "\<exists>st'. update_object c st oid ch skip defer = Some st'
     \<and> objects st' =
        fold apply_update
          (if kind obj = ''textbox'' \<and> links_from_source (objects st) oid \<noteq> [] \<and> \<not> defer
           then concat (map (link_offset_update c st (normalize_object c (replace obj ch)))
                          (links_from_source (objects st) oid))
           else [])
          (fold apply_update
            ((obj, normalize_object c (replace obj ch))
               # concat (map (anchor_textbox_step c (objects st) L p)
                    (links_for_target (objects st) oid
                       (case skip of None \<Rightarrow> {} | Some s \<Rightarrow> s))))
            (objects st))"
proof -
  have lu: "source_link_updates c st oid obj (normalize_object c (replace obj ch)) defer =
      (if kind obj = ''textbox'' \<and> links_from_source (objects st) oid \<noteq> [] \<and> \<not> defer
       then concat (map (link_offset_update c st (normalize_object c (replace obj ch)))
                      (links_from_source (objects st) oid))
       else [])"
    by (simp add: source_link_updates_def)
  have o1: "objects (remember_defaults obj ch (normalize_object c (replace obj ch)) st) = objects st"
    by (simp add: remember_defaults_def)
  have "update_object c st oid ch skip defer =
      Some (push_updates (remember_defaults obj ch (normalize_object c (replace obj ch)) st)
              obj (normalize_object c (replace obj ch))
              (concat (map (anchor_textbox_step c (objects st) L p)
                    (links_for_target (objects st) oid
                       (case skip of None \<Rightarrow> {} | Some s \<Rightarrow> s))))
              (source_link_updates c st oid obj (normalize_object c (replace obj ch)) defer))"
    using obj changed
    by (simp add: update_object_def Let_def target_cascade_resolved [OF lay ww pt])
  then show ?thesis
    by (simp only: objects_push_updates o1 lu option.inject simp_thms ex_simps)
qed

lemma anchor_textbox_step_member:
  assumes u: "u \<in> set (anchor_textbox_step c objs L p l)"
  shows "\<exists>sid. link_source_id l = Some sid \<and> map_of objs sid = Some (fst u)
     \<and> snd u = anchored_source c L p l (fst u)"
proof -
  obtain sid where s: "link_source_id l = Some sid"
    using u by (cases "link_source_id l") (simp_all add: anchor_textbox_step_def)
  have ne: "sid \<noteq> []"
    using u by (cases "sid = []") (simp_all add: anchor_textbox_step_def s)
  obtain src where m: "map_of objs sid = Some src"
    using u ne by (cases "map_of objs sid") (simp_all add: anchor_textbox_step_def s)
  have k: "kind src = ''textbox''"
    using u ne by (cases "kind src = ''textbox''") (simp_all add: anchor_textbox_step_def s m)
  have "u = (src, anchored_source c L p l src)"
    using u ne k
    by (cases "anchored_source c L p l src = src") (simp_all add: anchor_textbox_step_def s m)
  then show ?thesis using s m by simp
qed

lemma link_offset_update_shape:
  "link_offset_update c st new l = [] \<or> (\<exists>x. link_offset_update c st new l = [(l, x)])"
  by (simp add: link_offset_update_def Let_def split: option.splits)

lemma link_offset_update_member:
  "u \<in> set (link_offset_update c st new l) \<Longrightarrow> fst u = l"
  using link_offset_update_shape [of c st new l] by auto

lemma normalized_textbox_dims:
  assumes k: "kind T = ''textbox''" and n: "normalize_object c T = T"
  shows "obj_width T = Some (max (TEXTBOX_MIN_WIDTH c) (float_or (obj_width T) (TEXTBOX_MIN_WIDTH c)))"
    and "obj_height T = Some (max (TEXTBOX_MIN_HEIGHT c) (float_or (obj_height T) (TEXTBOX_MIN_HEIGHT c)))"
proof -
  have "obj_width (normalize_object c T) =
      Some (max (TEXTBOX_MIN_WIDTH c) (float_or (obj_width T) (TEXTBOX_MIN_WIDTH c)))"
    and "obj_height (normalize_object c T) =
      Some (max (TEXTBOX_MIN_HEIGHT c) (float_or (obj_height T) (TEXTBOX_MIN_HEIGHT c)))"
    by (simp_all add: normalize_textbox [OF k])
  then show "obj_width T = Some (max (TEXTBOX_MIN_WIDTH c) (float_or (obj_width T) (TEXTBOX_MIN_WIDTH c)))"
    and "obj_height T = Some (max (TEXTBOX_MIN_HEIGHT c) (float_or (obj_height T) (TEXTBOX_MIN_HEIGHT c)))"
    by (simp_all add: n)
qed

lemma textbox_anchor_of_pos:
  assumes "obj_x N = Some (fst (textbox_pos_for_anchor ax ay w h side off))"
    and "obj_y N = Some (snd (textbox_pos_for_anchor ax ay w h side off))"
    and "obj_width N = Some w" and "obj_height N = Some h"
  shows "textbox_anchor_point c N side off = (ax, ay)"
  using assms
  by (simp add: textbox_anchor_point_def textbox_pos_for_anchor_def Let_def if_not_none_def)

lemma anchored_source_anchor:
  assumes k: "kind T = ''textbox''" and n: "normalize_object c T = T"
  shows "textbox_anchor_point c (anchored_source c L p link T)
           (link_source_side link) (link_source_offset link) =
         (fst p + float_or (link_offset_x link) 0, snd p + float_or (link_offset_y link) 0)"
proof -
  obtain w h where w: "obj_width T = Some w" and h: "obj_height T = Some h"
    using normalized_textbox_dims [OF k n] by blast
  have wm: "max (TEXTBOX_MIN_WIDTH c) (float_or (Some w) (TEXTBOX_MIN_WIDTH c)) = w"
    and hm: "max (TEXTBOX_MIN_HEIGHT c) (float_or (Some h) (TEXTBOX_MIN_HEIGHT c)) = h"
    using normalized_textbox_dims [OF k n] by (simp_all add: w h)
  let ?ax = "fst p + float_or (link_offset_x link) 0"
  let ?ay = "snd p + float_or (link_offset_y link) 0"
  let ?pos = "textbox_pos_for_anchor ?ax ?ay w h (link_source_side link) (link_source_offset link)"
  let ?T1 = "T\<lparr>obj_x := Some (fst ?pos), obj_y := Some (snd ?pos),
        start_week := \<lfloor>week_ratio L (fst ?pos)\<rfloor> + origin_week L,
        end_week := \<lfloor>week_ratio L (fst ?pos + w)\<rfloor> + origin_week L\<rparr>"
  have e: "anchored_source c L p link T = normalize_object c ?T1"
    by (simp add: anchored_source_def Let_def w h if_not_none_def)
  have k1: "kind ?T1 = ''textbox''" using k by simp
  have f: "obj_x (normalize_object c ?T1) = Some (fst ?pos)"
      "obj_y (normalize_object c ?T1) = Some (snd ?pos)"
      "obj_width (normalize_object c ?T1) = Some w"
      "obj_height (normalize_object c ?T1) = Some h"
    using wm hm by (simp_all add: normalize_textbox [OF k1] w h) (simp_all add: float_or_def)
  show ?thesis
    unfolding e by (rule textbox_anchor_of_pos [OF f])
qed

lemma update_object_places_textbox:
  assumes wf: "wf_objects (objects st)"
    and X: "map_of (objects st) xid = Some X"
    and changed: "normalize_object c (replace X ch) \<noteq> X"
    and lay: "layout st = Some L" and ww: "week_width L \<noteq> 0"
    and pt: "object_anchor_point c (Some L) (normalize_object c (replace X ch)) = Some p'"
    and link: "link \<in> set (map snd (objects st))" "kind link = ''link''"
      "link_target_id link = Some xid" "link_source_id link = Some tid" "tid \<noteq> []"
      "tid \<notin> (case skip of None \<Rightarrow> {} | Some s \<Rightarrow> s)"
    and only: "\<forall>l \<in> set (links_for_target (objects st) xid (case skip of None \<Rightarrow> {} | Some s \<Rightarrow> s)).
          link_source_id l = Some tid \<longrightarrow> l = link"
    and T: "map_of (objects st) tid = Some T" "kind T = ''textbox''" "normalize_object c T = T"
    and ne: "tid \<noteq> xid"
  shows "\<exists>st' T'. update_object c st xid ch skip defer = Some st'
      \<and> map_of (objects st') tid = Some T'
      \<and> textbox_anchor_point c T' (link_source_side link) (link_source_offset link) =
          (fst p' + float_or (link_offset_x link) 0, snd p' + float_or (link_offset_y link) 0)"
proof -
  let ?new = "normalize_object c (replace X ch)"
  let ?skip = "case skip of None \<Rightarrow> {} | Some s \<Rightarrow> s"
  let ?tl = "links_for_target (objects st) xid ?skip"
  let ?casc = "concat (map (anchor_textbox_step c (objects st) L p') ?tl)"
  let ?lu = "if kind X = ''textbox'' \<and> links_from_source (objects st) xid \<noteq> [] \<and> \<not> defer
           then concat (map (link_offset_update c st ?new) (links_from_source (objects st) xid))
           else []"
  let ?N = "anchored_source c L p' link T"
  obtain st' where upd: "update_object c st xid ch skip defer = Some st'"
    and objs: "objects st' = fold apply_update ?lu (fold apply_update ((X, ?new) # ?casc) (objects st))"
    using update_object_objects [OF X changed lay ww pt] by blast
  have link_in: "link \<in> set ?tl"
    using link by (simp add: links_for_target_def)
  have step_link: "anchor_textbox_step c (objects st) L p' link = (if ?N \<noteq> T then [(T, ?N)] else [])"
    using link T by (simp add: anchor_textbox_step_def)
  have all_N: "\<forall>u \<in> set ((X, ?new) # ?casc). obj_id (fst u) = tid \<longrightarrow> snd u = ?N"
  proof (intro ballI impI)
    fix u assume u: "u \<in> set ((X, ?new) # ?casc)" and i: "obj_id (fst u) = tid"
    have "u \<noteq> (X, ?new)"
      using wf_objects_key [OF wf X] i ne by auto
    with u obtain l where l: "l \<in> set ?tl" and ul: "u \<in> set (anchor_textbox_step c (objects st) L p' l)"
      by auto
    from anchor_textbox_step_member [OF ul] obtain sid where
      sid: "link_source_id l = Some sid" "map_of (objects st) sid = Some (fst u)"
        "snd u = anchored_source c L p' l (fst u)"
      by blast
    have "sid = tid" using wf_objects_key [OF wf sid(2)] i by simp
    then have "fst u = T" and "l = link" using sid T(1) only l by auto
    then show "snd u = ?N" using sid(3) by simp
  qed
  have some_N: "(\<exists>u \<in> set ((X, ?new) # ?casc). obj_id (fst u) = tid) \<or> ?N = T"
  proof (cases "?N = T")
    case True
    then show ?thesis by simp
  next
    case False
    then have "(T, ?N) \<in> set ?casc"
      using link_in step_link by force
    moreover have "obj_id T = tid" by (rule wf_objects_key [OF wf T(1)])
    ultimately show ?thesis by force
  qed
  have mid: "map_of (fold apply_update ((X, ?new) # ?casc) (objects st)) tid = Some ?N"
    using map_of_fold_apply_update_same [OF T(1) all_N] some_N by auto
  have lu_other: "\<forall>u \<in> set ?lu. obj_id (fst u) \<noteq> tid"
  proof (intro ballI notI)
    fix u assume u: "u \<in> set ?lu" and i: "obj_id (fst u) = tid"
    then obtain l where l: "l \<in> set (links_from_source (objects st) xid)"
      and ul: "u \<in> set (link_offset_update c st ?new l)"
      by (auto split: if_splits)
    have "fst u = l" by (rule link_offset_update_member [OF ul])
    moreover have "l \<in> set (map snd (objects st))" and "kind l = ''link''"
      using l by (simp_all add: links_from_source_def)
    ultimately have "map_of (objects st) tid = Some l" and "kind l = ''link''"
      using wf_objects_lookup [OF wf] i by auto
    then show False using T by simp
  qed
  have fin: "map_of (objects st') tid = Some ?N"
    unfolding objs using map_of_fold_apply_update_other [OF lu_other] mid by simp
  have anc: "textbox_anchor_point c ?N (link_source_side link) (link_source_offset link) =
          (fst p' + float_or (link_offset_x link) 0, snd p' + float_or (link_offset_y link) 0)"
    by (rule anchored_source_anchor [OF T(2,3)])
  show ?thesis
    using upd fin anc by blast
qed

subsection \<open>The stored offset of a link\<close>

lemma offset_value_unit: "0 \<le> offset_value v \<and> offset_value v \<le> 1"
  by (simp add: offset_value_def Let_def)

lemma clamp_unit_offset_value: "clamp_unit (Some (offset_value v)) = Some (offset_value v)"
  using offset_value_unit [of v] by (simp add: clamp_unit_def)

lemma float_or_Some_zero [simp]: "float_or (Some v) 0 = v"
  by (simp add: float_or_def)

text \<open>
  The link that \<^verbatim>\<open>add_anchor_link\<close> builds, as \<^verbatim>\<open>add_object\<close> stores it: its pixel offset
  is the position of the textbox's anchor, at the link's own side and offset, relative to
  the target's anchor point.
\<close>

lemma anchor_link_object_in_sync:
  assumes "link = normalize_object c
      (anchor_link_object c nid source_id target_id (side_or_right side) (offset_value offset)
        (fst (textbox_anchor_point c source (Some (side_or_right side)) (Some (offset_value offset)))
           - fst p)
        (snd (textbox_anchor_point c source (Some (side_or_right side)) (Some (offset_value offset)))
           - snd p) z)"
  shows "float_or (link_offset_x link) 0 =
           fst (textbox_anchor_point c source (link_source_side link) (link_source_offset link)) - fst p"
    and "float_or (link_offset_y link) 0 =
           snd (textbox_anchor_point c source (link_source_side link) (link_source_offset link)) - snd p"
proof -
  let ?lo = "anchor_link_object c nid source_id target_id (side_or_right side) (offset_value offset)
        (fst (textbox_anchor_point c source (Some (side_or_right side)) (Some (offset_value offset)))
           - fst p)
        (snd (textbox_anchor_point c source (Some (side_or_right side)) (Some (offset_value offset)))
           - snd p) z"
  have k: "kind ?lo = ''link''" by (simp add: anchor_link_object_def CanvasObject_init_def)
  have f: "link_source_side link = Some (side_or_right side)"
      "link_source_offset link = Some (offset_value offset)"
      "link_offset_x link = Some (fst (textbox_anchor_point c source (Some (side_or_right side))
          (Some (offset_value offset))) - fst p)"
      "link_offset_y link = Some (snd (textbox_anchor_point c source (Some (side_or_right side))
          (Some (offset_value offset))) - snd p)"
    unfolding assms
    by (simp_all add: normalize_link [OF k] html_cleared_def clamp_unit_offset_value)
       (simp_all add: anchor_link_object_def CanvasObject_init_def clamp_unit_offset_value)
  show "float_or (link_offset_x link) 0 =
           fst (textbox_anchor_point c source (link_source_side link) (link_source_offset link)) - fst p"
    and "float_or (link_offset_y link) 0 =
           snd (textbox_anchor_point c source (link_source_side link) (link_source_offset link)) - snd p"
    by (simp_all add: f)
qed

lemma add_anchor_link_in_sync:
  assumes wf: "wf_objects (objects st)"
    and no_macro: "open_macros st = []"
    and src: "map_of (objects st) source_id = Some source" "kind source = ''textbox''"
    and tgt: "map_of (objects st) target_id = Some target"
      "kind target \<notin> {''link'', ''textbox'', ''connector''}"
    and ne: "source_id \<noteq> target_id"
    and lay: "layout st = Some L"
    and pt: "object_anchor_point c (Some L) target = Some p"
  shows "\<exists>link.
     links_from_source (objects (add_anchor_link c st source_id target_id side offset nid))
         source_id = [link]
     \<and> link_target_id link = Some target_id
     \<and> float_or (link_offset_x link) 0 =
         fst (textbox_anchor_point c source (link_source_side link) (link_source_offset link)) - fst p
     \<and> float_or (link_offset_y link) 0 =
         snd (textbox_anchor_point c source (link_source_side link) (link_source_offset link)) - snd p"
proof -
  define z where "z = (if min (z_index source) (z_index target) - 1 = 0 then - 1
                        else min (z_index source) (z_index target) - 1)"
  define link_obj where "link_obj =
      anchor_link_object c nid source_id target_id (side_or_right side) (offset_value offset)
        (fst (textbox_anchor_point c source (Some (side_or_right side)) (Some (offset_value offset)))
           - fst p)
        (snd (textbox_anchor_point c source (Some (side_or_right side)) (Some (offset_value offset)))
           - snd p) z"
  have z: "z \<noteq> 0" by (simp add: z_def)
  have lk: "kind link_obj = ''link''" "z_index link_obj \<noteq> 0"
      "obj_id link_obj = nid" "link_source_id link_obj = Some source_id"
      "link_target_id link_obj = Some target_id"
    using z by (simp_all add: link_obj_def anchor_link_object_def CanvasObject_init_def)
  have eq: "add_anchor_link c st source_id target_id side offset nid =
      endMacro (add_object c
        (fold (\<lambda>link. push (RemoveObjectCommand link)) (links_from_source (objects st) source_id)
          (beginMacro st)) link_obj)"
    using src tgt ne lay pt
    by (simp add: add_anchor_link_def Let_def link_obj_def z_def)
  let ?nl = "normalize_object c link_obj"
  let ?ex = "links_from_source (objects st) source_id"
  let ?cmds = "map RemoveObjectCommand ?ex @ [AddObjectCommand ?nl]"
  define objs' where "objs' = fold redo ?cmds (objects st)"
  have e1: "add_anchor_link c st source_id target_id side offset nid =
      endMacro (fold push ?cmds (beginMacro st))"
    by (simp add: eq add_object_nonzero [OF lk(2)] fold_map comp_def)
  have res: "add_anchor_link c st source_id target_id side offset nid =
     st\<lparr>objects := objs', undone_commands := [],
        done_commands := Macro ?cmds # done_commands st\<rparr>"
    unfolding e1 objs'_def by (rule macro_of_commands [OF no_macro])
  have objs: "objs' =
      AList.update nid ?nl (fold (\<lambda>obj. model_remove_object (obj_id obj)) ?ex (objects st))"
    by (simp add: objs'_def fold_map comp_def model_add_object_def kind_link_fields [OF lk(1)] lk)
  have P: "kind ?nl = ''link'' \<and> link_source_id ?nl = Some source_id"
    by (simp add: lk kind_link_fields [OF lk(1)])
  have one: "links_from_source objs' source_id = [?nl]"
    unfolding objs
  proof (rule links_from_source_after_add [OF P])
    show "\<forall>w \<in> set (map snd (fold (\<lambda>obj. model_remove_object (obj_id obj)) ?ex (objects st))).
        \<not> (kind w = ''link'' \<and> link_source_id w = Some source_id)"
      using no_links_after_removal [OF wf] by blast
  qed
  have sync: "float_or (link_offset_x ?nl) 0 =
         fst (textbox_anchor_point c source (link_source_side ?nl) (link_source_offset ?nl)) - fst p"
      "float_or (link_offset_y ?nl) 0 =
         snd (textbox_anchor_point c source (link_source_side ?nl) (link_source_offset ?nl)) - snd p"
    by (rule anchor_link_object_in_sync
          [of "normalize_object c link_obj" c nid source_id target_id side offset source p z],
        simp add: link_obj_def)+
  show ?thesis
    by (rule exI [of _ ?nl]) (simp add: res one lk kind_link_fields [OF lk(1)] sync)
qed

text \<open>
  One round of the loop over \<^verbatim>\<open>source_links\<close>, for a link whose target's anchor point
  resolves to \<open>p\<close>: either the stored offset is within 0.01 of the moved textbox's position
  relative to \<open>p\<close> and nothing is appended, or the link is updated and stores that relative
  position.
\<close>

lemma link_offset_update_in_sync:
  assumes k: "kind l = ''link''"
    and t: "link_target_id l = Some target_id" "target_id \<noteq> []"
      "map_of (objects st) target_id = Some target"
    and pt: "object_anchor_point c (layout st) target = Some p"
  shows "(link_offset_update c st new l = []
          \<and> \<bar>fst (textbox_anchor_point c new (link_source_side l) (link_source_offset l)) - fst p
               - float_or (link_offset_x l) 0\<bar> \<le> 1/100
          \<and> \<bar>snd (textbox_anchor_point c new (link_source_side l) (link_source_offset l)) - snd p
               - float_or (link_offset_y l) 0\<bar> \<le> 1/100)
       \<or> (\<exists>l'. link_offset_update c st new l = [(l, l')]
          \<and> link_source_side l' = link_source_side l
          \<and> link_source_offset l' = clamp_unit (link_source_offset l)
          \<and> float_or (link_offset_x l') 0 =
              fst (textbox_anchor_point c new (link_source_side l) (link_source_offset l)) - fst p
          \<and> float_or (link_offset_y l') 0 =
              snd (textbox_anchor_point c new (link_source_side l) (link_source_offset l)) - snd p)"
proof -
  define nx where "nx = fst (textbox_anchor_point c new (link_source_side l) (link_source_offset l)) - fst p"
  define ny where "ny = snd (textbox_anchor_point c new (link_source_side l) (link_source_offset l)) - snd p"
  define l1 where "l1 = l\<lparr>link_offset_x := Some nx, link_offset_y := Some ny\<rparr>"
  have k1: "kind l1 = ''link''" using k by (simp add: l1_def)
  have e: "link_offset_update c st new l =
      (if 1/100 < \<bar>nx - float_or (link_offset_x l) 0\<bar> \<or> 1/100 < \<bar>ny - float_or (link_offset_y l) 0\<bar>
       then [(l, normalize_object c l1)] else [])"
    using t pt by (simp add: link_offset_update_def Let_def nx_def ny_def l1_def)
  have f: "link_source_side (normalize_object c l1) = link_source_side l"
      "link_source_offset (normalize_object c l1) = clamp_unit (link_source_offset l)"
      "float_or (link_offset_x (normalize_object c l1)) 0 = nx"
      "float_or (link_offset_y (normalize_object c l1)) 0 = ny"
    by (simp_all add: normalize_link [OF k1] html_cleared_def)
       (simp_all add: l1_def)
  show ?thesis
  proof (cases "1/100 < \<bar>nx - float_or (link_offset_x l) 0\<bar> \<or> 1/100 < \<bar>ny - float_or (link_offset_y l) 0\<bar>")
    case True
    have "link_offset_update c st new l = [(l, normalize_object c l1)]" using True by (simp add: e)
    then show ?thesis
      using f unfolding nx_def ny_def by blast
  next
    case False
    have "link_offset_update c st new l = []" using False by (simp add: e)
    moreover have "\<bar>nx - float_or (link_offset_x l) 0\<bar> \<le> 1/100"
      and "\<bar>ny - float_or (link_offset_y l) 0\<bar> \<le> 1/100"
      using False by simp_all
    ultimately show ?thesis unfolding nx_def ny_def by blast
  qed
qed

subsection \<open>An anchored textbox follows its target\<close>

text \<open>
  Claim C2, corrected. Let a link of the model lead from the textbox \<open>T\<close> (stored
  normalized, under \<open>tid\<close>) to the object \<open>X\<close> (under \<open>xid\<close>), be the only link from \<open>T\<close>
  to \<open>X\<close>, and not be skipped by the caller; let the anchor point of \<open>X\<close> resolve to \<open>p\<close>
  before the edit and to \<open>p'\<close> after it, in a layout of non-zero week width. Then
  \<^verbatim>\<open>update_object\<close> returns, and in the resulting model the anchor point of \<open>T\<close> at the
  link's stored side and offset is \<open>p'\<close> plus the link's stored pixel offset. The textbox
  therefore keeps its position relative to the anchor point of \<open>X\<close>, up to 0.01 in a
  coordinate, exactly when the stored offset agreed up to 0.01 in that coordinate with
  the position the textbox had relative to \<open>p\<close>. The lemmas \<open>add_anchor_link_in_sync\<close> and
  \<open>link_offset_update_in_sync\<close> show that the stored offset agrees with that position
  after \<^verbatim>\<open>add_anchor_link\<close> and after a link update of the controller.
\<close>

theorem update_object_moves_anchored_textbox:
  assumes wf: "wf_objects (objects st)"
    and X: "map_of (objects st) xid = Some X"
    and changed: "normalize_object c (replace X ch) \<noteq> X"
    and lay: "layout st = Some L" and ww: "week_width L \<noteq> 0"
    and old: "object_anchor_point c (Some L) X = Some p"
    and pt: "object_anchor_point c (Some L) (normalize_object c (replace X ch)) = Some p'"
    and link: "link \<in> set (map snd (objects st))" "kind link = ''link''"
      "link_target_id link = Some xid" "link_source_id link = Some tid" "tid \<noteq> []"
      "tid \<notin> (case skip of None \<Rightarrow> {} | Some s \<Rightarrow> s)"
    and only: "\<forall>l \<in> set (links_for_target (objects st) xid (case skip of None \<Rightarrow> {} | Some s \<Rightarrow> s)).
          link_source_id l = Some tid \<longrightarrow> l = link"
    and T: "map_of (objects st) tid = Some T" "kind T = ''textbox''" "normalize_object c T = T"
    and ne: "tid \<noteq> xid"
  shows "\<exists>st' T'. update_object c st xid ch skip defer = Some st'
      \<and> map_of (objects st') tid = Some T'
      \<and> textbox_anchor_point c T' (link_source_side link) (link_source_offset link) =
          (fst p' + float_or (link_offset_x link) 0, snd p' + float_or (link_offset_y link) 0)
      \<and> (\<bar>(fst (textbox_anchor_point c T' (link_source_side link) (link_source_offset link)) - fst p')
            - (fst (textbox_anchor_point c T (link_source_side link) (link_source_offset link)) - fst p)\<bar>
            \<le> 1/100
          \<longleftrightarrow>
          \<bar>fst (textbox_anchor_point c T (link_source_side link) (link_source_offset link))
            - fst p - float_or (link_offset_x link) 0\<bar> \<le> 1/100)
      \<and> (\<bar>(snd (textbox_anchor_point c T' (link_source_side link) (link_source_offset link)) - snd p')
            - (snd (textbox_anchor_point c T (link_source_side link) (link_source_offset link)) - snd p)\<bar>
            \<le> 1/100
          \<longleftrightarrow>
          \<bar>snd (textbox_anchor_point c T (link_source_side link) (link_source_offset link))
            - snd p - float_or (link_offset_y link) 0\<bar> \<le> 1/100)"
proof -
  define a where "a = textbox_anchor_point c T (link_source_side link) (link_source_offset link)"
  obtain st' T' where upd: "update_object c st xid ch skip defer = Some st'"
    and fin: "map_of (objects st') tid = Some T'"
    and anc: "textbox_anchor_point c T' (link_source_side link) (link_source_offset link) =
          (fst p' + float_or (link_offset_x link) 0, snd p' + float_or (link_offset_y link) 0)"
    using update_object_places_textbox [OF wf X changed lay ww pt link only T ne] by blast
  have rx: "\<bar>(fst p' + float_or (link_offset_x link) 0 - fst p') - (fst a - fst p)\<bar> \<le> 1/100
          \<longleftrightarrow> \<bar>fst a - fst p - float_or (link_offset_x link) 0\<bar> \<le> 1/100"
    by linarith
  have ry: "\<bar>(snd p' + float_or (link_offset_y link) 0 - snd p') - (snd a - snd p)\<bar> \<le> 1/100
          \<longleftrightarrow> \<bar>snd a - snd p - float_or (link_offset_y link) 0\<bar> \<le> 1/100"
    by linarith
  show ?thesis
    using upd fin anc rx ry unfolding a_def
    by (intro exI [of _ st'] exI [of _ T']) (simp only: fst_conv snd_conv simp_thms)
qed

lemma replace_sample_box:
  "replace sample_box move_two_weeks = sample_box\<lparr>start_week := 12, end_week := 14\<rparr>"
  by (simp add: replace_def move_two_weeks_def no_changes_def if_not_none_def sample_box_def
      CanvasObject_init_def)

lemma moved_sample_box:
  "normalize_object sample_constants (replace sample_box move_two_weeks)
     = sample_box\<lparr>start_week := 12, end_week := 14\<rparr>"
proof -
  have k: "kind (sample_box\<lparr>start_week := 12, end_week := 14\<rparr>) = ''box''"
    by (simp add: kind_sample_box)
  show ?thesis
    unfolding replace_sample_box
    by (simp add: normalize_box [OF k] html_cleared_def)
       (simp add: sample_box_def CanvasObject_init_def empty_to_none_def nad_none
          sample_constants_def)
qed

lemma moved_sample_box_anchor:
  "object_anchor_point sample_constants (Some sample_layout)
     (sample_box\<lparr>start_week := 12, end_week := 14\<rparr>) = Some (600, 160)"
  by (simp add: object_anchor_point_def sample_box_def CanvasObject_init_def sample_layout_def
      row_height_def row_top_y_def size_scale_def week_left_x_def Let_def fl_eval)

lemma normalize_sample_textbox:
  "normalize_object sample_constants sample_textbox = sample_textbox"
proof -
  have k: "kind sample_textbox = ''textbox''" by (simp add: sample_defs)
  show ?thesis
    by (simp add: normalize_textbox [OF k] html_cleared_def)
       (simp add: sample_textbox_def CanvasObject_init_def empty_to_none_def float_or_def
          sample_constants_def)
qed

lemma sample_controller_facts:
  "objects (set_layout (ProjectController_init sample_constants sample_store) Lx) = sample_store"
  "layout (set_layout (ProjectController_init sample_constants sample_store) Lx) = Some Lx"
  by (simp_all add: ProjectController_init_def set_layout_def)

lemma moved_sample_box_changed:
  "normalize_object sample_constants (replace sample_box move_two_weeks) \<noteq> sample_box"
proof
  assume "normalize_object sample_constants (replace sample_box move_two_weeks) = sample_box"
  then have "start_week (sample_box\<lparr>start_week := 12, end_week := 14\<rparr>) = start_week sample_box"
    by (simp add: moved_sample_box)
  then show False by (simp add: sample_box_def CanvasObject_init_def)
qed

lemma sample_links_for_target:
  "links_for_target sample_store ''b1'' {} = [sample_link1, sample_link2]"
  by (simp add: links_for_target_def sample_store_def sample_defs)

lemma sample_link1_fields:
  "kind sample_link1 = ''link''" "link_target_id sample_link1 = Some ''b1''"
  "link_source_id sample_link1 = Some ''tb1''"
  "link_source_side sample_link1 = Some ''left''"
  "link_source_offset sample_link1 = Some (1/2)"
  "link_offset_x sample_link1 = Some (- 220)" "link_offset_y sample_link1 = Some 70"
  by (simp_all add: sample_defs)

lemma sample_only_link:
  "\<forall>l \<in> set (links_for_target sample_store ''b1''
        (case None :: string set option of None \<Rightarrow> {} | Some s \<Rightarrow> s)).
      link_source_id l = Some ''tb1'' \<longrightarrow> l = sample_link1"
  by (simp add: sample_links_for_target) (simp add: sample_defs)

lemma sample_textbox_anchor:
  "textbox_anchor_point sample_constants sample_textbox (Some ''left'') (Some (1/2)) = (300, 230)"
  by (simp add: textbox_anchor_point_def sample_textbox_def CanvasObject_init_def
      if_not_none_def offset_value_def float_or_def Let_def)

text \<open>
  The cascade on the sample store in a layout \<open>Lx\<close>: the textbox is put at the moved box's
  anchor point plus the stored offset \<open>(-220, 70)\<close> of the link.
\<close>

lemma sample_cascade:
  assumes ww: "week_width Lx \<noteq> 0"
    and pt: "object_anchor_point sample_constants (Some Lx)
        (normalize_object sample_constants (replace sample_box move_two_weeks)) = Some p'"
  shows "map_option
        (\<lambda>st'. map_option
                  (\<lambda>T'. textbox_anchor_point sample_constants T' (Some ''left'') (Some (1/2)))
                  (map_of (objects st') ''tb1''))
        (update_object sample_constants
           (set_layout (ProjectController_init sample_constants sample_store) Lx)
           ''b1'' move_two_weeks None False)
      = Some (Some (fst p' - 220, snd p' + 70))"
proof -
  let ?st = "set_layout (ProjectController_init sample_constants sample_store) Lx"
  note o = sample_controller_facts(1) [of Lx]
  have wf: "wf_objects (objects ?st)" by (simp add: o sample_store_wf)
  have X: "map_of (objects ?st) ''b1'' = Some sample_box"
    unfolding o by (simp add: sample_store_def)
  have l1: "sample_link1 \<in> set (map snd (objects ?st))" unfolding o by (simp add: sample_store_def)
  have l5: "''tb1'' \<noteq> []" by simp
  have l6: "''tb1'' \<notin> (case None :: string set option of None \<Rightarrow> {} | Some s \<Rightarrow> s)" by simp
  have only: "\<forall>l \<in> set (links_for_target (objects ?st) ''b1''
        (case None :: string set option of None \<Rightarrow> {} | Some s \<Rightarrow> s)).
      link_source_id l = Some ''tb1'' \<longrightarrow> l = sample_link1"
    unfolding o by (rule sample_only_link)
  have T1: "map_of (objects ?st) ''tb1'' = Some sample_textbox"
    unfolding o by (simp add: sample_store_def)
  have T2: "kind sample_textbox = ''textbox''" by (simp add: sample_defs)
  have ne: "''tb1'' \<noteq> ''b1''" by simp
  from update_object_places_textbox
    [OF wf X moved_sample_box_changed sample_controller_facts(2) ww pt l1 sample_link1_fields(1,2,3)
      l5 l6 only T1 T2 normalize_sample_textbox ne, of False]
  obtain st' T' where r: "update_object sample_constants ?st ''b1'' move_two_weeks None False = Some st'"
      "map_of (objects st') ''tb1'' = Some T'"
      "textbox_anchor_point sample_constants T' (Some ''left'') (Some (1/2)) = (fst p' - 220, snd p' + 70)"
    by (auto simp add: sample_link1_fields)
  show ?thesis using r by simp
qed

lemma shifted_layout_fields:
  "week_width shifted_layout = 40" "label_width shifted_layout = 100"
  "origin_week shifted_layout = 1" "header_height shifted_layout = 80"
  by (simp_all add: shifted_layout_def)

lemma shifted_sample_box_anchor:
  "object_anchor_point sample_constants (Some shifted_layout) sample_box = Some (520, 200)"
  by (simp add: object_anchor_point_def sample_box_def CanvasObject_init_def shifted_layout_def
      row_height_def row_top_y_def size_scale_def week_left_x_def Let_def fl_eval)

lemma shifted_moved_sample_box_anchor:
  "object_anchor_point sample_constants (Some shifted_layout)
     (sample_box\<lparr>start_week := 12, end_week := 14\<rparr>) = Some (600, 200)"
  by (simp add: object_anchor_point_def sample_box_def CanvasObject_init_def shifted_layout_def
      row_height_def row_top_y_def size_scale_def week_left_x_def Let_def fl_eval)

theorem update_object_moves_anchored_textbox_witness:
  "wf_objects (objects (set_layout (ProjectController_init sample_constants sample_store) sample_layout))
   \<and> map_of (objects (set_layout (ProjectController_init sample_constants sample_store) sample_layout))
        ''b1'' = Some sample_box
   \<and> normalize_object sample_constants (replace sample_box move_two_weeks) \<noteq> sample_box
   \<and> week_width sample_layout \<noteq> 0
   \<and> object_anchor_point sample_constants (Some sample_layout) sample_box = Some (520, 160)
   \<and> object_anchor_point sample_constants (Some sample_layout)
        (normalize_object sample_constants (replace sample_box move_two_weeks)) = Some (600, 160)
   \<and> links_for_target sample_store ''b1'' {} = [sample_link1, sample_link2]
   \<and> kind sample_textbox = ''textbox''
   \<and> normalize_object sample_constants sample_textbox = sample_textbox
   \<and> textbox_anchor_point sample_constants sample_textbox (Some ''left'') (Some (1/2)) = (300, 230)
   \<and> map_option
        (\<lambda>st'. map_option
                  (\<lambda>T'. textbox_anchor_point sample_constants T' (Some ''left'') (Some (1/2)))
                  (map_of (objects st') ''tb1''))
        (update_object sample_constants
           (set_layout (ProjectController_init sample_constants sample_store) sample_layout)
           ''b1'' move_two_weeks None False)
      = Some (Some (380, 230))"
proof -
  let ?st = "set_layout (ProjectController_init sample_constants sample_store) sample_layout"
  note o = sample_controller_facts(1) [of sample_layout]
  have wf: "wf_objects (objects ?st)" by (simp add: o sample_store_wf)
  have X: "map_of (objects ?st) ''b1'' = Some sample_box"
    unfolding o by (simp add: sample_store_def)
  have ww: "week_width sample_layout \<noteq> 0" by (simp add: sample_layout_def)
  have pt: "object_anchor_point sample_constants (Some sample_layout)
        (normalize_object sample_constants (replace sample_box move_two_weeks)) = Some (600, 160)"
    by (simp add: moved_sample_box moved_sample_box_anchor)
  have l1: "sample_link1 \<in> set (map snd (objects ?st))" unfolding o by (simp add: sample_store_def)
  have l5: "''tb1'' \<noteq> []" by simp
  have l6: "''tb1'' \<notin> (case None :: string set option of None \<Rightarrow> {} | Some s \<Rightarrow> s)" by simp
  have only: "\<forall>l \<in> set (links_for_target (objects ?st) ''b1''
        (case None :: string set option of None \<Rightarrow> {} | Some s \<Rightarrow> s)).
      link_source_id l = Some ''tb1'' \<longrightarrow> l = sample_link1"
    unfolding o by (rule sample_only_link)
  have T1: "map_of (objects ?st) ''tb1'' = Some sample_textbox"
    unfolding o by (simp add: sample_store_def)
  have T2: "kind sample_textbox = ''textbox''" by (simp add: sample_defs)
  have ne: "''tb1'' \<noteq> ''b1''" by simp
  from update_object_moves_anchored_textbox
    [OF wf X moved_sample_box_changed sample_controller_facts(2) ww sample_box_anchor pt l1
      sample_link1_fields(1,2,3) l5 l6 only T1 T2 normalize_sample_textbox ne, of False]
  obtain st' T' where r: "update_object sample_constants ?st ''b1'' move_two_weeks None False = Some st'"
      "map_of (objects st') ''tb1'' = Some T'"
      "textbox_anchor_point sample_constants T' (Some ''left'') (Some (1/2)) = (380, 230)"
    by (auto simp add: sample_link1_fields)
  show ?thesis
    using wf X moved_sample_box_changed ww sample_box_anchor pt sample_links_for_target T2
      normalize_sample_textbox sample_textbox_anchor r
    by simp
qed

text \<open>
  The claim as worded fails when the stored offset of the link is stale. The link of the
  sample store was made in the sample layout, where the box's anchor point is
  \<open>(520, 160)\<close>; its stored offset is \<open>(-220, 70)\<close>. After a row has been inserted above
  the box, the box's anchor point is \<open>(520, 200)\<close> and the textbox, which has not moved,
  is at \<open>(-220, 30)\<close> relative to it. Moving the box two weeks to the right puts its anchor
  point at \<open>(600, 200)\<close> and the textbox's anchor at \<open>(380, 270)\<close>, that is, at
  \<open>(-220, 70)\<close> relative to the box: the textbox has jumped 40 units down.
\<close>

theorem update_object_stale_offset_counterexample:
  "object_anchor_point sample_constants (Some shifted_layout) sample_box = Some (520, 200)
   \<and> textbox_anchor_point sample_constants sample_textbox (Some ''left'') (Some (1/2)) = (300, 230)
   \<and> object_anchor_point sample_constants (Some shifted_layout)
        (normalize_object sample_constants (replace sample_box move_two_weeks)) = Some (600, 200)
   \<and> map_option
        (\<lambda>st'. map_option
                  (\<lambda>T'. textbox_anchor_point sample_constants T' (Some ''left'') (Some (1/2)))
                  (map_of (objects st') ''tb1''))
        (update_object sample_constants
           (set_layout (ProjectController_init sample_constants sample_store) shifted_layout)
           ''b1'' move_two_weeks None False)
      = Some (Some (380, 270))"
proof -
  have ww: "week_width shifted_layout \<noteq> 0" by (simp add: shifted_layout_fields)
  have pt: "object_anchor_point sample_constants (Some shifted_layout)
        (normalize_object sample_constants (replace sample_box move_two_weeks)) = Some (600, 200)"
    by (simp add: moved_sample_box shifted_moved_sample_box_anchor)
  show ?thesis
    using sample_cascade [OF ww pt] shifted_sample_box_anchor sample_textbox_anchor pt by simp
qed

subsection \<open>Reordering\<close>

lemma distinct_lookup:
  "distinct (map fst objs) \<Longrightarrow> p \<in> set objs \<Longrightarrow> map_of objs (fst p) = Some (snd p)"
  by simp

lemma wf_objects_iff:
  "wf_objects objs \<longleftrightarrow>
     distinct (map fst objs) \<and> (\<forall>k v. map_of objs k = Some v \<longrightarrow> obj_id v = k)"
proof
  assume w: "wf_objects objs"
  then have "distinct (map fst objs)" by (simp add: wf_objects_def)
  moreover have "\<forall>k v. map_of objs k = Some v \<longrightarrow> obj_id v = k"
    using wf_objects_key [OF w] by blast
  ultimately show "distinct (map fst objs) \<and> (\<forall>k v. map_of objs k = Some v \<longrightarrow> obj_id v = k)"
    by blast
next
  assume a: "distinct (map fst objs) \<and> (\<forall>k v. map_of objs k = Some v \<longrightarrow> obj_id v = k)"
  have "\<forall>p \<in> set objs. obj_id (snd p) = fst p"
  proof
    fix p assume "p \<in> set objs"
    then have "map_of objs (fst p) = Some (snd p)" using a distinct_lookup by blast
    then show "obj_id (snd p) = fst p" using a by blast
  qed
  then show "wf_objects objs"
    using a by (simp add: wf_objects_def list_all_iff)
qed

lemma no_self_links_iff:
  assumes d: "distinct (map fst objs)"
  shows "no_self_links objs \<longleftrightarrow>
     (\<forall>k v. map_of objs k = Some v \<longrightarrow> kind v = ''link'' \<longrightarrow> link_source_id v \<noteq> link_target_id v)"
proof
  assume n: "no_self_links objs"
  show "\<forall>k v. map_of objs k = Some v \<longrightarrow> kind v = ''link'' \<longrightarrow> link_source_id v \<noteq> link_target_id v"
  proof (intro allI impI)
    fix k v assume "map_of objs k = Some v" and k: "kind v = ''link''"
    then have "(k, v) \<in> set objs" by (simp add: map_of_SomeD)
    with n have "kind (snd (k, v)) = ''link'' \<longrightarrow> link_source_id (snd (k, v)) \<noteq> link_target_id (snd (k, v))"
      unfolding no_self_links_def list_all_iff by blast
    with k show "link_source_id v \<noteq> link_target_id v" by simp
  qed
next
  assume a: "\<forall>k v. map_of objs k = Some v \<longrightarrow> kind v = ''link'' \<longrightarrow> link_source_id v \<noteq> link_target_id v"
  have "\<forall>p \<in> set objs. kind (snd p) = ''link'' \<longrightarrow> link_source_id (snd p) \<noteq> link_target_id (snd p)"
  proof
    fix p assume "p \<in> set objs"
    then have "map_of objs (fst p) = Some (snd p)" using d distinct_lookup by blast
    then show "kind (snd p) = ''link'' \<longrightarrow> link_source_id (snd p) \<noteq> link_target_id (snd p)"
      using a by blast
  qed
  then show "no_self_links objs" by (simp add: no_self_links_def list_all_iff)
qed

lemma keys_apply_update [simp]: "map fst (apply_update u objs) = map fst objs"
proof (cases "map_of objs (obj_id (fst u))")
  case None
  then show ?thesis by (simp add: apply_update_def model_update_object_def)
next
  case (Some a)
  then have "obj_id (fst u) \<in> set (map fst objs)"
    by (metis map_of_eq_None_iff option.distinct(1) set_map)
  then show ?thesis
    using Some by (simp add: apply_update_def model_update_object_def update_keys)
qed

lemma keys_fold_apply_update [simp]: "map fst (fold apply_update us objs) = map fst objs"
  by (induction us arbitrary: objs) simp_all

lemma map_of_fold_apply_update_None:
  "map_of objs k = None \<Longrightarrow> map_of (fold apply_update us objs) k = None"
  by (induction us arbitrary: objs) (simp_all add: map_of_apply_update)

lemma map_of_fold_apply_update_pred:
  assumes "map_of objs k = Some v" and "Q v"
    and "\<forall>u \<in> set us. obj_id (fst u) = k \<longrightarrow> Q (snd u)"
  shows "\<exists>v'. map_of (fold apply_update us objs) k = Some v' \<and> Q v'"
  using assms
proof (induction us arbitrary: objs v)
  case Nil
  then show ?case by simp
next
  case (Cons u us)
  show ?case
  proof (cases "obj_id (fst u) = k")
    case True
    then have m: "map_of (apply_update u objs) k = Some (snd u)"
      using Cons.prems by (simp add: map_of_apply_update)
    have q: "Q (snd u)" using Cons.prems True by simp
    from Cons.IH [OF m q] Cons.prems(3) show ?thesis by simp
  next
    case False
    then have m: "map_of (apply_update u objs) k = Some v"
      using Cons.prems by (simp add: map_of_apply_update)
    from Cons.IH [OF m Cons.prems(2)] Cons.prems(3) show ?thesis by simp
  qed
qed

lemma layout_push [simp]: "layout (push cmd st) = layout st"
  by (cases "open_macros st") (simp_all add: push_def)

lemma layout_beginMacro [simp]: "layout (beginMacro st) = layout st"
  by (cases "open_macros st") (simp_all add: beginMacro_def)

lemma layout_endMacro [simp]: "layout (endMacro st) = layout st"
  by (simp add: endMacro_def split: list.splits)

lemma layout_fold_push [simp]: "layout (fold (\<lambda>u. push (f u)) us st) = layout st"
  by (induction us arbitrary: st) simp_all

lemma layout_push_updates [simp]: "layout (push_updates st1 obj new casc lu) = layout st1"
  by (simp add: push_updates_def Let_def)

lemma target_cascade_closed:
  assumes "\<forall>L. layout st = Some L \<longrightarrow> week_width L \<noteq> 0"
  shows "\<exists>casc. target_cascade c st oid new skip = Some casc
     \<and> (\<forall>u \<in> set casc. \<exists>L p l. l \<in> set (links_for_target (objects st) oid skip)
            \<and> u \<in> set (anchor_textbox_step c (objects st) L p l))"
proof (cases "object_anchor_point c (layout st) new")
  case None
  then show ?thesis by (simp add: target_cascade_def Let_def)
next
  case (Some p)
  then obtain L where L: "layout st = Some L"
    by (cases "layout st") (simp_all add: object_anchor_point_def)
  then have ww: "week_width L \<noteq> 0" using assms by simp
  have "target_cascade c st oid new skip =
     Some (concat (map (anchor_textbox_step c (objects st) L p)
                     (links_for_target (objects st) oid skip)))"
    using Some L by (simp add: target_cascade_resolved [OF L ww])
  moreover have "\<forall>u \<in> set (concat (map (anchor_textbox_step c (objects st) L p)
                     (links_for_target (objects st) oid skip))).
      \<exists>L p l. l \<in> set (links_for_target (objects st) oid skip)
            \<and> u \<in> set (anchor_textbox_step c (objects st) L p l)"
  proof
    fix u
    assume "u \<in> set (concat (map (anchor_textbox_step c (objects st) L p)
                     (links_for_target (objects st) oid skip)))"
    then obtain l where "l \<in> set (links_for_target (objects st) oid skip)"
      and "u \<in> set (anchor_textbox_step c (objects st) L p l)"
      by auto
    then show "\<exists>L p l. l \<in> set (links_for_target (objects st) oid skip)
            \<and> u \<in> set (anchor_textbox_step c (objects st) L p l)"
      by blast
  qed
  ultimately show ?thesis by blast
qed

lemma update_object_closed:
  assumes obj: "map_of (objects st) oid = Some obj"
    and changed: "normalize_object c (replace obj ch) \<noteq> obj"
    and lay: "\<forall>L. layout st = Some L \<longrightarrow> week_width L \<noteq> 0"
  shows "\<exists>st' casc lu. update_object c st oid ch skip defer = Some st'
     \<and> layout st' = layout st
     \<and> objects st' =
        fold apply_update lu
          (fold apply_update ((obj, normalize_object c (replace obj ch)) # casc) (objects st))
     \<and> (\<forall>u \<in> set casc. \<exists>L p l.
            l \<in> set (links_for_target (objects st) oid (case skip of None \<Rightarrow> {} | Some s \<Rightarrow> s))
            \<and> u \<in> set (anchor_textbox_step c (objects st) L p l))
     \<and> (\<forall>u \<in> set lu. kind obj = ''textbox''
            \<and> (\<exists>l \<in> set (links_from_source (objects st) oid).
                  u \<in> set (link_offset_update c st (normalize_object c (replace obj ch)) l)))"
proof -
  let ?new = "normalize_object c (replace obj ch)"
  obtain casc where casc: "target_cascade c st oid ?new (case skip of None \<Rightarrow> {} | Some s \<Rightarrow> s) = Some casc"
    and cp: "\<forall>u \<in> set casc. \<exists>L p l.
            l \<in> set (links_for_target (objects st) oid (case skip of None \<Rightarrow> {} | Some s \<Rightarrow> s))
            \<and> u \<in> set (anchor_textbox_step c (objects st) L p l)"
    using target_cascade_closed [OF lay] by blast
  let ?lu = "source_link_updates c st oid obj ?new defer"
  have lp: "\<forall>u \<in> set ?lu. kind obj = ''textbox''
            \<and> (\<exists>l \<in> set (links_from_source (objects st) oid).
                  u \<in> set (link_offset_update c st ?new l))"
  proof (cases "kind obj = ''textbox'' \<and> links_from_source (objects st) oid \<noteq> [] \<and> \<not> defer")
    case True
    then have "?lu = concat (map (link_offset_update c st ?new) (links_from_source (objects st) oid))"
      by (simp add: source_link_updates_def)
    then show ?thesis using True by auto
  next
    case False
    then have "?lu = []" by (auto simp add: source_link_updates_def)
    then show ?thesis by simp
  qed
  have e: "update_object c st oid ch skip defer =
      Some (push_updates (remember_defaults obj ch ?new st) obj ?new casc ?lu)"
    using obj changed by (simp add: update_object_def Let_def casc)
  have o: "objects (remember_defaults obj ch ?new st) = objects st"
    and l: "layout (remember_defaults obj ch ?new st) = layout st"
    by (simp_all add: remember_defaults_def)
  have ob: "objects (push_updates (remember_defaults obj ch ?new st) obj ?new casc ?lu) =
      fold apply_update ?lu (fold apply_update ((obj, ?new) # casc) (objects st))"
    by (simp only: objects_push_updates o)
  have la: "layout (push_updates (remember_defaults obj ch ?new st) obj ?new casc ?lu) = layout st"
    by (simp add: l)
  from e la ob cp lp show ?thesis by blast
qed


lemma link_source_id_normalize_object [simp]:
  "link_source_id (normalize_object c obj) = link_source_id obj"
  unfolding normalize_object_def Let_def by simp

lemma link_target_id_normalize_object [simp]:
  "link_target_id (normalize_object c obj) = link_target_id obj"
  unfolding normalize_object_def Let_def by simp

lemma replace_z_index:
  "replace obj (no_changes\<lparr>ch_z_index := Some i\<rparr>) = obj\<lparr>z_index := i\<rparr>"
  by (simp add: replace_def no_changes_def if_not_none_def)

lemma anchored_source_fields [simp]:
  "obj_id (anchored_source c L p l src) = obj_id src"
  "kind (anchored_source c L p l src) = kind src"
  "z_index (anchored_source c L p l src) = z_index src"
  "link_source_id (anchored_source c L p l src) = link_source_id src"
  "link_target_id (anchored_source c L p l src) = link_target_id src"
  by (simp_all add: anchored_source_def Let_def)

lemma anchor_textbox_step_kind:
  assumes u: "u \<in> set (anchor_textbox_step c objs L p l)"
  shows "kind (fst u) = ''textbox''"
proof -
  obtain sid where s: "link_source_id l = Some sid"
    using u by (cases "link_source_id l") (simp_all add: anchor_textbox_step_def)
  have ne: "sid \<noteq> []"
    using u by (cases "sid = []") (simp_all add: anchor_textbox_step_def s)
  obtain src where m: "map_of objs sid = Some src"
    using u ne by (cases "map_of objs sid") (simp_all add: anchor_textbox_step_def s)
  have k: "kind src = ''textbox''"
    using u ne by (cases "kind src = ''textbox''") (simp_all add: anchor_textbox_step_def s m)
  have "u = (src, anchored_source c L p l src)"
    using u ne k
    by (cases "anchored_source c L p l src = src") (simp_all add: anchor_textbox_step_def s m)
  then show ?thesis using k by simp
qed

lemma link_offset_update_fields:
  assumes u: "u \<in> set (link_offset_update c st new l)"
  shows "fst u = l \<and> obj_id (snd u) = obj_id l \<and> kind (snd u) = kind l
     \<and> z_index (snd u) = z_index l \<and> link_source_id (snd u) = link_source_id l
     \<and> link_target_id (snd u) = link_target_id l"
proof -
  obtain tid where t: "link_target_id l = Some tid"
    using u by (cases "link_target_id l") (simp_all add: link_offset_update_def)
  have ne: "tid \<noteq> []"
    using u by (cases "tid = []") (simp_all add: link_offset_update_def t)
  obtain target where m: "map_of (objects st) tid = Some target"
    using u ne by (cases "map_of (objects st) tid") (simp_all add: link_offset_update_def t)
  obtain tp where a: "object_anchor_point c (layout st) target = Some tp"
    using u ne
    by (cases "object_anchor_point c (layout st) target")
       (simp_all add: link_offset_update_def t m)
  have "u = (l, normalize_object c
                 (l\<lparr>link_offset_x := Some (fst (textbox_anchor_point c new (link_source_side l)
                                                   (link_source_offset l)) - fst tp),
                    link_offset_y := Some (snd (textbox_anchor_point c new (link_source_side l)
                                                   (link_source_offset l)) - snd tp)\<rparr>))"
    using u ne by (simp add: link_offset_update_def t m a Let_def split: if_splits)
  then show ?thesis using t by simp
qed

lemma cascade_touch_up:
  assumes wf: "wf_objects objs" and nsl: "no_self_links objs"
    and l: "l \<in> set (links_for_target objs oid skip)"
    and u: "u \<in> set (anchor_textbox_step c objs L p l)"
  shows "touch_up objs oid u"
proof -
  from anchor_textbox_step_member [OF u] obtain sid where
    sid: "link_source_id l = Some sid" "map_of objs sid = Some (fst u)"
      "snd u = anchored_source c L p l (fst u)"
    by blast
  have i: "obj_id (fst u) = sid" by (rule wf_objects_key [OF wf sid(2)])
  have lv: "l \<in> set (map snd objs)" and lk: "kind l = ''link''"
    and lt: "link_target_id l = Some oid"
    using l by (simp_all add: links_for_target_def)
  have "map_of objs (obj_id l) = Some l" by (rule wf_objects_lookup [OF wf lv])
  moreover have "distinct (map fst objs)" using wf by (simp add: wf_objects_def)
  ultimately have "link_source_id l \<noteq> link_target_id l"
    using nsl lk no_self_links_iff by blast
  then have "sid \<noteq> oid" using sid(1) lt by simp
  then show ?thesis
    using sid i by (simp add: touch_up_def)
qed

lemma link_update_touch_up:
  assumes wf: "wf_objects objs" and o: "objects st = objs"
    and obj: "map_of objs oid = Some obj" "kind obj = ''textbox''"
    and l: "l \<in> set (links_from_source objs oid)"
    and u: "u \<in> set (link_offset_update c st new l)"
  shows "touch_up objs oid u"
proof -
  have lv: "l \<in> set (map snd objs)" and lk: "kind l = ''link''"
    using l by (simp_all add: links_from_source_def)
  have m: "map_of objs (obj_id l) = Some l" by (rule wf_objects_lookup [OF wf lv])
  have "obj_id l \<noteq> oid"
  proof
    assume "obj_id l = oid"
    then have "l = obj" using m obj(1) by simp
    then show False using lk obj(2) by simp
  qed
  then show ?thesis
    using link_offset_update_fields [OF u] m by (simp add: touch_up_def)
qed

lemma fold_touch_ups:
  assumes tu: "\<forall>u \<in> set us. touch_up objs0 oid u"
    and m: "map_of objs k = Some v"
    and v: "k \<noteq> oid \<longrightarrow> map_of objs0 k = Some v0 \<and> kind v = kind v0 \<and> z_index v = z_index v0
       \<and> link_source_id v = link_source_id v0 \<and> link_target_id v = link_target_id v0
       \<and> obj_id v = k"
  shows "\<exists>v'. map_of (fold apply_update us objs) k = Some v'
     \<and> (k = oid \<longrightarrow> v' = v)
     \<and> (k \<noteq> oid \<longrightarrow> kind v' = kind v0 \<and> z_index v' = z_index v0
           \<and> link_source_id v' = link_source_id v0 \<and> link_target_id v' = link_target_id v0
           \<and> obj_id v' = k)"
proof (cases "k = oid")
  case True
  have "\<forall>u \<in> set us. obj_id (fst u) \<noteq> k"
    using tu True by (simp add: touch_up_def)
  then have "map_of (fold apply_update us objs) k = map_of objs k"
    by (rule map_of_fold_apply_update_other)
  then show ?thesis using m True by simp
next
  case False
  let ?Q = "\<lambda>v'. kind v' = kind v0 \<and> z_index v' = z_index v0
           \<and> link_source_id v' = link_source_id v0 \<and> link_target_id v' = link_target_id v0
           \<and> obj_id v' = k"
  have q: "?Q v" using v False by simp
  have "\<forall>u \<in> set us. obj_id (fst u) = k \<longrightarrow> ?Q (snd u)"
  proof (intro ballI impI)
    fix u assume u: "u \<in> set us" and i: "obj_id (fst u) = k"
    have t: "touch_up objs0 oid u" using tu u by blast
    then have "map_of objs0 k = Some (fst u)" using i by (simp add: touch_up_def)
    then have "fst u = v0" using v False by simp
    then show "?Q (snd u)" using t i by (simp add: touch_up_def)
  qed
  from map_of_fold_apply_update_pred [of objs k v ?Q us, OF m q this]
  show ?thesis using False by blast
qed


lemma update_object_z_index:
  assumes wf: "wf_objects (objects st)" and nsl: "no_self_links (objects st)"
    and lay: "\<forall>L. layout st = Some L \<longrightarrow> week_width L \<noteq> 0"
    and obj: "map_of (objects st) oid = Some obj" and z: "z_index obj \<noteq> i"
  shows "\<exists>st'. update_object c st oid (no_changes\<lparr>ch_z_index := Some i\<rparr>) None False = Some st'
     \<and> layout st' = layout st
     \<and> map fst (objects st') = map fst (objects st)
     \<and> wf_objects (objects st') \<and> no_self_links (objects st')
     \<and> (\<forall>k. z_at (objects st') k = (if k = oid then Some i else z_at (objects st) k))"
proof -
  let ?ch = "no_changes\<lparr>ch_z_index := Some i\<rparr>"
  let ?new = "normalize_object c (replace obj ?ch)"
  let ?objs = "objects st"
  have zn: "z_index ?new = i" by (simp add: replace_z_index)
  have idn: "obj_id ?new = oid"
    using wf_objects_key [OF wf obj] by (simp add: replace_z_index)
  have kn: "kind ?new = kind obj" "link_source_id ?new = link_source_id obj"
    "link_target_id ?new = link_target_id obj"
    by (simp_all add: replace_z_index)
  have changed: "?new \<noteq> obj"
  proof
    assume "?new = obj"
    then have "z_index ?new = z_index obj" by simp
    then show False using zn z by simp
  qed
  from update_object_closed [OF obj changed lay, of None False]
  obtain st' casc lu where upd: "update_object c st oid ?ch None False = Some st'"
    and la: "layout st' = layout st"
    and ob: "objects st' = fold apply_update lu (fold apply_update ((obj, ?new) # casc) ?objs)"
    and cp: "\<forall>u \<in> set casc. \<exists>L p l.
            l \<in> set (links_for_target ?objs oid (case None :: string set option of None \<Rightarrow> {} | Some s \<Rightarrow> s))
            \<and> u \<in> set (anchor_textbox_step c ?objs L p l)"
    and lp: "\<forall>u \<in> set lu. kind obj = ''textbox''
            \<and> (\<exists>l \<in> set (links_from_source ?objs oid).
                  u \<in> set (link_offset_update c st ?new l))"
    by blast
  let ?objs1 = "apply_update (obj, ?new) ?objs"
  have ob': "objects st' = fold apply_update (casc @ lu) ?objs1"
    by (simp add: ob)
  have tu: "\<forall>u \<in> set (casc @ lu). touch_up ?objs oid u"
  proof
    fix u assume "u \<in> set (casc @ lu)"
    then consider "u \<in> set casc" | "u \<in> set lu" by auto
    then show "touch_up ?objs oid u"
    proof cases
      case 1
      with cp obtain L p l where "l \<in> set (links_for_target ?objs oid
            (case None :: string set option of None \<Rightarrow> {} | Some s \<Rightarrow> s))"
        and "u \<in> set (anchor_textbox_step c ?objs L p l)"
        by blast
      then show ?thesis by (rule cascade_touch_up [OF wf nsl])
    next
      case 2
      with lp obtain l where k: "kind obj = ''textbox''"
        and l: "l \<in> set (links_from_source ?objs oid)"
        and u: "u \<in> set (link_offset_update c st ?new l)"
        by blast
      show ?thesis by (rule link_update_touch_up [OF wf refl obj k l u])
    qed
  qed
  have m1: "map_of ?objs1 k = (if k = oid then Some ?new else map_of ?objs k)" for k
    using obj wf_objects_key [OF wf obj] by (simp add: map_of_apply_update)
  have none: "map_of (objects st') k = None" if "map_of ?objs k = None" for k
  proof -
    have "k \<noteq> oid" using that obj by auto
    then have "map_of ?objs1 k = None" using that by (simp add: m1)
    then show ?thesis unfolding ob' by (rule map_of_fold_apply_update_None)
  qed
  have some: "\<exists>v'. map_of (objects st') k = Some v' \<and> obj_id v' = k \<and> kind v' = kind v0
       \<and> link_source_id v' = link_source_id v0 \<and> link_target_id v' = link_target_id v0
       \<and> z_index v' = (if k = oid then i else z_index v0)"
    if v0: "map_of ?objs k = Some v0" for k v0
  proof (cases "k = oid")
    case True
    then have e: "v0 = obj" using v0 obj by simp
    have "map_of ?objs1 k = Some ?new" using True by (simp add: m1)
    from fold_touch_ups [OF tu this, of obj] True
    have "map_of (objects st') k = Some ?new" unfolding ob' by simp
    then show ?thesis using True e zn idn kn by simp
  next
    case False
    have a: "map_of ?objs1 k = Some v0" using False v0 by (simp add: m1)
    have b: "k \<noteq> oid \<longrightarrow> map_of ?objs k = Some v0 \<and> kind v0 = kind v0 \<and> z_index v0 = z_index v0
       \<and> link_source_id v0 = link_source_id v0 \<and> link_target_id v0 = link_target_id v0
       \<and> obj_id v0 = k"
      using v0 wf_objects_key [OF wf v0] by simp
    from fold_touch_ups [OF tu a b] False show ?thesis unfolding ob' by auto
  qed
  have keys: "map fst (objects st') = map fst ?objs"
    by (simp add: ob)
  have d: "distinct (map fst ?objs)" using wf by (simp add: wf_objects_def)
  have wf': "wf_objects (objects st')"
    unfolding wf_objects_iff
  proof (intro conjI allI impI)
    show "distinct (map fst (objects st'))" using d keys by simp
    fix k v assume kv: "map_of (objects st') k = Some v"
    then obtain v0 where "map_of ?objs k = Some v0"
      using none [of k] by (cases "map_of ?objs k") auto
    from some [OF this] kv show "obj_id v = k" by auto
  qed
  have nsl': "no_self_links (objects st')"
  proof -
    have "\<forall>k v. map_of (objects st') k = Some v \<longrightarrow> kind v = ''link''
        \<longrightarrow> link_source_id v \<noteq> link_target_id v"
    proof (intro allI impI)
      fix k v assume kv: "map_of (objects st') k = Some v" and kl: "kind v = ''link''"
      then obtain v0 where v0: "map_of ?objs k = Some v0"
        using none [of k] by (cases "map_of ?objs k") auto
      from some [OF v0] kv have f: "kind v = kind v0" "link_source_id v = link_source_id v0"
        "link_target_id v = link_target_id v0"
        by auto
      have "link_source_id v0 \<noteq> link_target_id v0"
        using nsl v0 kl f(1) no_self_links_iff [OF d] by auto
      then show "link_source_id v \<noteq> link_target_id v" using f by simp
    qed
    moreover have "distinct (map fst (objects st'))" using d keys by simp
    ultimately show ?thesis using no_self_links_iff by blast
  qed
  have zs: "z_at (objects st') k = (if k = oid then Some i else z_at ?objs k)" for k
  proof (cases "map_of ?objs k")
    case None
    then have "k \<noteq> oid" using obj by auto
    then show ?thesis using None none [OF None] by (simp add: z_at_def)
  next
    case (Some v0)
    from some [OF Some] show ?thesis using Some by (auto simp add: z_at_def)
  qed
  show ?thesis
    using upd la keys wf' nsl' zs by blast
qed

lemma present_iff_key: "map_of objs k \<noteq> None \<longleftrightarrow> k \<in> set (map fst objs)"
  by (simp add: map_of_eq_None_iff)

lemma apply_z_order_loop_step:
  "apply_z_order_loop c idx (oid # rest) st =
     (case z_step c idx oid st of None \<Rightarrow> None
      | Some st1 \<Rightarrow> apply_z_order_loop c (Suc idx) rest st1)"
  by (simp add: z_step_def split: option.splits)

lemma z_step_result:
  assumes wf: "wf_objects (objects st)" and nsl: "no_self_links (objects st)"
    and lay: "\<forall>L. layout st = Some L \<longrightarrow> week_width L \<noteq> 0"
  shows "\<exists>st1. z_step c idx oid st = Some st1
     \<and> layout st1 = layout st \<and> map fst (objects st1) = map fst (objects st)
     \<and> wf_objects (objects st1) \<and> no_self_links (objects st1)
     \<and> (\<forall>k. k \<noteq> oid \<longrightarrow> z_at (objects st1) k = z_at (objects st) k)
     \<and> (oid \<in> set (map fst (objects st)) \<longrightarrow> z_at (objects st1) oid = Some (int idx))"
proof (cases "map_of (objects st) oid")
  case None
  have e: "z_step c idx oid st = Some st" by (simp add: z_step_def None)
  have "oid \<notin> set (map fst (objects st))" using None present_iff_key [of "objects st" oid] by simp
  then show ?thesis
    unfolding e using wf nsl by (intro exI [of _ st]) simp
next
  case (Some obj)
  show ?thesis
  proof (cases "z_index obj = int idx")
    case True
    have e: "z_step c idx oid st = Some st" by (simp add: z_step_def Some True)
    have "z_at (objects st) oid = Some (int idx)" by (simp add: z_at_def Some True)
    then show ?thesis
      unfolding e using wf nsl by (intro exI [of _ st]) simp
  next
    case False
    have e: "z_step c idx oid st =
        update_object c st oid (no_changes\<lparr>ch_z_index := Some (int idx)\<rparr>) None False"
      by (simp add: z_step_def Some False)
    from update_object_z_index [OF wf nsl lay Some False, of c]
    obtain st1 where u: "update_object c st oid (no_changes\<lparr>ch_z_index := Some (int idx)\<rparr>)
          None False = Some st1"
      and f: "layout st1 = layout st" "map fst (objects st1) = map fst (objects st)"
        "wf_objects (objects st1)" "no_self_links (objects st1)"
      and zz: "\<forall>k. z_at (objects st1) k = (if k = oid then Some (int idx) else z_at (objects st) k)"
      by blast
    have z1: "\<forall>k. k \<noteq> oid \<longrightarrow> z_at (objects st1) k = z_at (objects st) k" using zz by simp
    have z2: "oid \<in> set (map fst (objects st)) \<longrightarrow> z_at (objects st1) oid = Some (int idx)"
      using zz by simp
    show ?thesis
      unfolding e by (intro exI [of _ st1] conjI u f z1 z2)
  qed
qed

lemma apply_z_order_loop_result:
  assumes "wf_objects (objects st)" and "no_self_links (objects st)"
    and "\<forall>L. layout st = Some L \<longrightarrow> week_width L \<noteq> 0"
    and "distinct ids"
  shows "\<exists>st'. apply_z_order_loop c idx ids st = Some st'
     \<and> layout st' = layout st
     \<and> map fst (objects st') = map fst (objects st)
     \<and> wf_objects (objects st') \<and> no_self_links (objects st')
     \<and> (\<forall>k. k \<notin> set ids \<longrightarrow> z_at (objects st') k = z_at (objects st) k)
     \<and> (\<forall>j < length ids. ids ! j \<in> set (map fst (objects st)) \<longrightarrow>
            z_at (objects st') (ids ! j) = Some (int (idx + j)))"
  using assms
proof (induction ids arbitrary: st idx)
  case Nil
  show ?case using Nil.prems(1,2) by (intro exI [of _ st]) simp
next
  case (Cons oid rest)
  have dr: "distinct rest" and nin: "oid \<notin> set rest" using Cons.prems(4) by simp_all
  from z_step_result [OF Cons.prems(1,2,3), of c idx oid]
  obtain st1 where s1: "z_step c idx oid st = Some st1"
    and l1: "layout st1 = layout st" and k1: "map fst (objects st1) = map fst (objects st)"
    and w1: "wf_objects (objects st1)" and n1: "no_self_links (objects st1)"
    and z1: "\<forall>k. k \<noteq> oid \<longrightarrow> z_at (objects st1) k = z_at (objects st) k"
    and zo: "oid \<in> set (map fst (objects st)) \<longrightarrow> z_at (objects st1) oid = Some (int idx)"
    by blast
  have e: "apply_z_order_loop c idx (oid # rest) st = apply_z_order_loop c (Suc idx) rest st1"
    by (simp only: apply_z_order_loop_step s1 option.case)
  have lay1: "\<forall>L. layout st1 = Some L \<longrightarrow> week_width L \<noteq> 0"
    using Cons.prems(3) by (simp only: l1)
  from Cons.IH [OF w1 n1 lay1 dr, of "Suc idx"]
  obtain st' where r: "apply_z_order_loop c (Suc idx) rest st1 = Some st'"
    and l': "layout st' = layout st1" and k': "map fst (objects st') = map fst (objects st1)"
    and w': "wf_objects (objects st')" and n': "no_self_links (objects st')"
    and zk: "\<forall>k. k \<notin> set rest \<longrightarrow> z_at (objects st') k = z_at (objects st1) k"
    and zj: "\<forall>j < length rest. rest ! j \<in> set (map fst (objects st1)) \<longrightarrow>
            z_at (objects st') (rest ! j) = Some (int (Suc idx + j))"
    by blast
  have g1: "layout st' = layout st" by (simp only: l' l1)
  have g2: "map fst (objects st') = map fst (objects st)" by (simp only: k' k1)
  have a: "\<forall>k. k \<notin> set (oid # rest) \<longrightarrow> z_at (objects st') k = z_at (objects st) k"
  proof (intro allI impI)
    fix k assume "k \<notin> set (oid # rest)"
    then have "k \<notin> set rest" and "k \<noteq> oid" by simp_all
    then show "z_at (objects st') k = z_at (objects st) k" using zk z1 by simp
  qed
  have b: "\<forall>j < length (oid # rest). (oid # rest) ! j \<in> set (map fst (objects st)) \<longrightarrow>
            z_at (objects st') ((oid # rest) ! j) = Some (int (idx + j))"
  proof (intro allI impI)
    fix j assume j: "j < length (oid # rest)"
      and p: "(oid # rest) ! j \<in> set (map fst (objects st))"
    show "z_at (objects st') ((oid # rest) ! j) = Some (int (idx + j))"
    proof (cases j)
      case 0
      have "z_at (objects st') oid = z_at (objects st1) oid" using zk nin by blast
      moreover have "z_at (objects st1) oid = Some (int idx)" using zo p 0 by simp
      ultimately show ?thesis using 0 by simp
    next
      case (Suc j')
      have j': "j' < length rest" using j Suc by simp
      have "rest ! j' \<in> set (map fst (objects st1))" using p Suc by (simp add: k1)
      then have "z_at (objects st') (rest ! j') = Some (int (Suc idx + j'))" using zj j' by blast
      then show ?thesis using Suc by simp
    qed
  qed
  show ?case
    unfolding e by (intro exI [of _ st'] conjI r g1 g2 w' n' a b)
qed

lemma apply_z_order_result:
  assumes wf: "wf_objects (objects st)" and nsl: "no_self_links (objects st)"
    and lay: "\<forall>L. layout st = Some L \<longrightarrow> week_width L \<noteq> 0"
    and d: "distinct ids" and s: "set ids = set (map fst (objects st))"
  shows "\<exists>st'. apply_z_order c ids st = Some st'
     \<and> map fst (objects st') = map fst (objects st)
     \<and> wf_objects (objects st')
     \<and> (\<forall>j < length ids. z_at (objects st') (ids ! j) = Some (int j))"
proof (cases "ids = []")
  case True
  have "apply_z_order c ids st = Some st" by (simp add: apply_z_order_def True)
  then show ?thesis using wf True by (intro exI [of _ st]) simp
next
  case False
  define b where "b = beginMacro st"
  have bo: "objects b = objects st" and bl: "layout b = layout st" by (simp_all add: b_def)
  have wfb: "wf_objects (objects b)" and nslb: "no_self_links (objects b)"
    and layb: "\<forall>L. layout b = Some L \<longrightarrow> week_width L \<noteq> 0"
    using wf nsl lay by (simp_all only: bo bl)
  from apply_z_order_loop_result [OF wfb nslb layb d, of c 0]
  obtain st' where r: "apply_z_order_loop c 0 ids b = Some st'"
    and k: "map fst (objects st') = map fst (objects b)"
    and w: "wf_objects (objects st')"
    and zj: "\<forall>j < length ids. ids ! j \<in> set (map fst (objects b)) \<longrightarrow>
            z_at (objects st') (ids ! j) = Some (int (0 + j))"
    by blast
  have e: "apply_z_order c ids st = Some (endMacro st')"
    using False r by (simp add: apply_z_order_def b_def)
  have g2: "map fst (objects (endMacro st')) = map fst (objects st)" using k bo by simp
  have g3: "wf_objects (objects (endMacro st'))" using w by simp
  have g4: "\<forall>j < length ids. z_at (objects (endMacro st')) (ids ! j) = Some (int j)"
  proof (intro allI impI)
    fix j assume j: "j < length ids"
    then have "ids ! j \<in> set ids" by (rule nth_mem)
    then have "ids ! j \<in> set (map fst (objects b))" using s bo by simp
    then have "z_at (objects st') (ids ! j) = Some (int (0 + j))" using zj j by blast
    then show "z_at (objects (endMacro st')) (ids ! j) = Some (int j)" by simp
  qed
  show ?thesis
    unfolding e by (intro exI [of _ "endMacro st'"] conjI refl g2 g3 g4)
qed

end
